(* ===== verification/Prelude.thy ===== *)
theory Prelude
  imports Main "HOL-Library.Word" "HOL-Library.AList" "HOL-Library.Sublist"
begin

text \<open>
  Shared vocabulary of the development: Go's fixed-width integers and maps, results that may be
  errors, the collections of simplification rules, and the generic facts on association lists
  and lists that the component theories rely on.

  A Go map is an association list. The order of the list stands for the order in which one
  \<open>range\<close> loop happens to visit the map, which Go leaves unspecified; only facts that hold for
  every order are stated of it. The predicate \<open>wf_map\<close> says that a list has one entry per key,
  which is what makes it a map.
\<close>

section \<open>Types\<close>

type_synonym int64 = "64 word"
type_synonym uint64 = "64 word"
type_synonym int32 = "32 word"
type_synonym byte = "8 word"

type_synonym ('k, 'v) gomap = "('k \<times> 'v) list"

datatype goError =
    NotFoundError string
  | ApiError string
  | Errorf string
  | Wrapf string goError
  | Formatv string goError

text \<open>
  \<open>Wrapf\<close> is \<open>fmt.Errorf\<close> with \<open>%w\<close>, \<open>Formatv\<close> with \<open>%v\<close>; \<open>errors.IsNotFound\<close> looks
  through the former only.
\<close>

fun IsNotFound :: "goError \<Rightarrow> bool" where
  "IsNotFound (NotFoundError _) = True"
| "IsNotFound (ApiError _) = False"
| "IsNotFound (Errorf _) = False"
| "IsNotFound (Wrapf _ e) = IsNotFound e"
| "IsNotFound (Formatv _ _) = False"

section \<open>Rule collections\<close>

named_theorems go_map_simps \<open>reading a Go map after it was written\<close>
named_theorems wf_intros \<open>well-formedness is kept\<close>

section \<open>Go maps\<close>

definition wf_map :: "('k, 'v) gomap \<Rightarrow> bool" where
  "wf_map m \<longleftrightarrow> distinct (map fst m)"

definition mapIndex :: "'v \<Rightarrow> ('k, 'v) gomap \<Rightarrow> 'k \<Rightarrow> 'v" where
  "mapIndex zero m k = (case map_of m k of None \<Rightarrow> zero | Some v \<Rightarrow> v)"

lemma map_of_update [go_map_simps]:
  "map_of (AList.update k v m) k' = (if k' = k then Some v else map_of m k')"
  by (simp add: AList.update_conv')

lemma map_of_delete_if [go_map_simps]:
  "map_of (AList.delete k m) k' = (if k' = k then None else map_of m k')"
  by (simp add: AList.delete_conv')

lemma mapIndex_update [go_map_simps]:
  "mapIndex z (AList.update k v m) k' = (if k' = k then v else mapIndex z m k')"
  by (simp add: mapIndex_def map_of_update)

lemma mapIndex_delete [go_map_simps]:
  "mapIndex z (AList.delete k m) k' = (if k' = k then z else mapIndex z m k')"
  by (simp add: mapIndex_def map_of_delete_if)

lemma mapIndex_None: "map_of m k = None \<Longrightarrow> mapIndex z m k = z"
  by (simp add: mapIndex_def)

lemma mapIndex_Some: "map_of m k = Some v \<Longrightarrow> mapIndex z m k = v"
  by (simp add: mapIndex_def)

lemma wf_map_Nil [simp, wf_intros]: "wf_map []"
  by (simp add: wf_map_def)

lemma wf_map_Cons [simp]: "wf_map ((k, v) # m) \<longleftrightarrow> map_of m k = None \<and> wf_map m"
  by (auto simp: wf_map_def map_of_eq_None_iff)

lemma wf_map_update [wf_intros]: "wf_map m \<Longrightarrow> wf_map (AList.update k v m)"
  by (simp add: wf_map_def AList.distinct_update)

lemma wf_map_delete [wf_intros]: "wf_map m \<Longrightarrow> wf_map (AList.delete k m)"
  by (simp add: wf_map_def AList.distinct_delete)

lemma wf_map_lookup: "wf_map m \<Longrightarrow> (k, v) \<in> set m \<Longrightarrow> map_of m k = Some v"
  by (simp add: wf_map_def)

section \<open>Words\<close>

lemma unat_lt: "unat (w :: 'a::len word) < 2 ^ LENGTH('a)"
  by simp

section \<open>Lists\<close>

lemma filter_eq_Nil_iff: "filter P xs = [] \<longleftrightarrow> (\<forall>x\<in>set xs. \<not> P x)"
  by (simp add: filter_empty_conv)

lemma takeWhile_append_stop:
  "(\<And>x. x \<in> set xs \<Longrightarrow> P x) \<Longrightarrow> (ys = [] \<or> \<not> P (hd ys)) \<Longrightarrow> takeWhile P (xs @ ys) = xs"
  by (induction xs) (cases ys; auto)+

lemma dropWhile_append_stop:
  "(\<And>x. x \<in> set xs \<Longrightarrow> P x) \<Longrightarrow> (ys = [] \<or> \<not> P (hd ys)) \<Longrightarrow> dropWhile P (xs @ ys) = ys"
  by (induction xs) (cases ys; auto)+

lemma length_dropWhile_lt:
  "P x \<Longrightarrow> length (dropWhile P (x # xs)) < Suc (length xs)"
  using length_dropWhile_le [of P xs] by simp

end
