(* ===== verification/Go_Strings.thy ===== *)
theory Go_Strings
  imports Prelude
begin

text \<open>
  The string functions of Go's standard library that the program calls: decimal formatting
  (\<open>fmt.Sprintf("%d", n)\<close> and \<open>strconv.AppendInt\<close>), \<open>strconv.ParseInt\<close> in base 10 at 64 bits,
  \<open>strings.Split\<close> at a one-byte separator, \<open>bytes.IndexByte\<close>, \<open>bytes.TrimRight\<close> and
  \<open>utf8.ValidString\<close>.
  A Go string is a sequence of bytes and so is a \<open>string\<close> here.
\<close>

section \<open>Decimal numbers\<close>

definition digit :: "nat \<Rightarrow> char" where
  "digit d = char_of (48 + d)"

definition isDigit :: "char \<Rightarrow> bool" where
  "isDigit c \<longleftrightarrow> (48::nat) \<le> of_char c \<and> of_char c \<le> (57::nat)"

definition digitVal :: "char \<Rightarrow> nat" where
  "digitVal c = of_char c - 48"

fun natStr :: "nat \<Rightarrow> string" where
  "natStr n = (if n < 10 then [digit n] else natStr (n div 10) @ [digit (n mod 10)])"

declare natStr.simps [simp del]

definition formatInt :: "int \<Rightarrow> string" where
  "formatInt i = (if i < 0 then CHR ''-'' # natStr (nat (- i)) else natStr (nat i))"

fun parseDigits :: "nat \<Rightarrow> string \<Rightarrow> nat option" where
  "parseDigits acc [] = Some acc"
| "parseDigits acc (c # cs) =
     (if isDigit c then parseDigits (10 * acc + digitVal c) cs else None)"

definition parseUnsigned :: "string \<Rightarrow> nat option" where
  "parseUnsigned s = (if s = [] then None else parseDigits 0 s)"

definition inInt64 :: "int \<Rightarrow> bool" where
  "inInt64 i \<longleftrightarrow> - (2 ^ 63) \<le> i \<and> i < 2 ^ 63"

definition ParseInt :: "string \<Rightarrow> int64 option" where
  "ParseInt s =
     (let (neg, ds) = (case s of
          [] \<Rightarrow> (False, [])
        | c # cs \<Rightarrow> if c = CHR ''-'' then (True, cs)
                    else if c = CHR ''+'' then (False, cs) else (False, c # cs))
      in case parseUnsigned ds of
          None \<Rightarrow> None
        | Some n \<Rightarrow> (let i = (if neg then - int n else int n)
                     in if inInt64 i then Some (word_of_int i) else None))"

section \<open>Bytes and strings\<close>

fun Split :: "char \<Rightarrow> string \<Rightarrow> string list" where
  "Split c [] = [[]]"
| "Split c (x # xs) =
     (if x = c then [] # Split c xs
      else case Split c xs of [] \<Rightarrow> [[x]] | y # ys \<Rightarrow> (x # y) # ys)"

definition stringOfBytes :: "byte list \<Rightarrow> string" where
  "stringOfBytes bs = map (\<lambda>b. char_of (unat b)) bs"

fun IndexByte :: "byte list \<Rightarrow> byte \<Rightarrow> nat option" where
  "IndexByte [] c = None"
| "IndexByte (b # bs) c = (if b = c then Some 0 else map_option Suc (IndexByte bs c))"

definition TrimRight :: "byte \<Rightarrow> byte list \<Rightarrow> byte list" where
  "TrimRight c bs = rev (dropWhile (\<lambda>b. b = c) (rev bs))"

section \<open>UTF-8\<close>

text \<open>\<open>utf8.ValidString\<close>: the well-formed byte sequences of the Unicode standard.\<close>

definition inRange :: "nat \<Rightarrow> nat \<Rightarrow> nat \<Rightarrow> bool" where
  "inRange lo hi b \<longleftrightarrow> lo \<le> b \<and> b \<le> hi"

definition utf8Three :: "nat \<Rightarrow> nat \<Rightarrow> nat \<Rightarrow> bool" where
  "utf8Three b0 b1 b2 \<longleftrightarrow>
     inRange 0xE0 0xEF b0 \<and>
     inRange (if b0 = 0xE0 then 0xA0 else 0x80) (if b0 = 0xED then 0x9F else 0xBF) b1 \<and>
     inRange 0x80 0xBF b2"

definition utf8Four :: "nat \<Rightarrow> nat \<Rightarrow> nat \<Rightarrow> nat \<Rightarrow> bool" where
  "utf8Four b0 b1 b2 b3 \<longleftrightarrow>
     inRange 0xF0 0xF4 b0 \<and>
     inRange (if b0 = 0xF0 then 0x90 else 0x80) (if b0 = 0xF4 then 0x8F else 0xBF) b1 \<and>
     inRange 0x80 0xBF b2 \<and> inRange 0x80 0xBF b3"

fun validUtf8 :: "nat list \<Rightarrow> bool" where
  "validUtf8 [] = True"
| "validUtf8 (b0 # bs) =
     (if b0 < 0x80 then validUtf8 bs
      else case bs of
          [] \<Rightarrow> False
        | b1 # cs \<Rightarrow>
            if inRange 0xC2 0xDF b0 \<and> inRange 0x80 0xBF b1 then validUtf8 cs
            else case cs of
                [] \<Rightarrow> False
              | b2 # ds \<Rightarrow>
                  if utf8Three b0 b1 b2 then validUtf8 ds
                  else case ds of
                      [] \<Rightarrow> False
                    | b3 # es \<Rightarrow> utf8Four b0 b1 b2 b3 \<and> validUtf8 es)"

definition ValidString :: "string \<Rightarrow> bool" where
  "ValidString s \<longleftrightarrow> validUtf8 (map of_char s)"

lemma ValidString_ascii: "(\<And>c. c \<in> set s \<Longrightarrow> of_char c < (0x80 :: nat)) \<Longrightarrow> ValidString s"
  unfolding ValidString_def by (induction s) auto

section \<open>Facts on decimal numbers\<close>

lemma of_char_digit: "d < 10 \<Longrightarrow> of_char (digit d) = (48 + d :: nat)"
  by (simp add: digit_def)

lemma isDigit_digit [simp]: "d < 10 \<Longrightarrow> isDigit (digit d)"
  by (simp add: isDigit_def of_char_digit)

lemma digitVal_digit [simp]: "d < 10 \<Longrightarrow> digitVal (digit d) = d"
  by (simp add: digitVal_def of_char_digit)

lemma natStr_not_Nil [simp]: "natStr n \<noteq> []"
  by (subst natStr.simps) simp

lemma natStr_digits: "c \<in> set (natStr n) \<Longrightarrow> isDigit c"
proof (induction n rule: natStr.induct)
  case (1 n)
  then show ?case
    by (cases "n < 10") (auto simp: natStr.simps [of n])
qed

lemma parseDigits_append:
  "parseDigits a (xs @ ys) = (case parseDigits a xs of None \<Rightarrow> None | Some b \<Rightarrow> parseDigits b ys)"
  by (induction xs arbitrary: a) auto

lemma parseDigits_natStr: "parseDigits 0 (natStr n) = Some n"
proof (induction n rule: natStr.induct)
  case (1 n)
  then show ?case
    by (cases "n < 10") (simp_all add: natStr.simps [of n] parseDigits_append)
qed

lemma parseUnsigned_natStr [simp]: "parseUnsigned (natStr n) = Some n"
  by (simp add: parseUnsigned_def parseDigits_natStr)

lemma sign_not_digit: "\<not> isDigit CHR ''-''" "\<not> isDigit CHR ''+''"
  by (simp_all add: isDigit_def)

lemma natStr_sign:
  "natStr n = c # cs \<Longrightarrow> c \<noteq> CHR ''-'' \<and> c \<noteq> CHR ''+''"
  using natStr_digits [of c n] sign_not_digit by auto

lemma inInt64_sint: "inInt64 (sint (w :: int64))"
  using sint_ge [of w] sint_lt [of w] by (simp add: inInt64_def)

lemma ParseInt_formatInt_int:
  assumes "inInt64 i"
  shows "ParseInt (formatInt i) = Some (word_of_int i)"
proof (cases "i < 0")
  case True
  with assms show ?thesis by (simp add: formatInt_def ParseInt_def)
next
  case False
  obtain c cs where s: "natStr (nat i) = c # cs"
    by (cases "natStr (nat i)") auto
  have "parseUnsigned (c # cs) = Some (nat i)"
    using parseUnsigned_natStr [of "nat i"] by (simp only: s)
  with False assms natStr_sign [OF s] show ?thesis
    by (simp add: formatInt_def ParseInt_def s)
qed

lemma ParseInt_formatInt: "ParseInt (formatInt (sint w)) = Some w"
  using ParseInt_formatInt_int [OF inInt64_sint, of w] by simp

lemma formatInt_not_Nil [simp]: "formatInt i \<noteq> []"
  by (simp add: formatInt_def)

lemma formatInt_chars:
  "c \<in> set (formatInt i) \<Longrightarrow> isDigit c \<or> c = CHR ''-''"
  by (auto simp: formatInt_def dest: natStr_digits split: if_splits)

section \<open>Facts on splitting and trimming\<close>

lemma Split_not_Nil [simp]: "Split c s \<noteq> []"
  by (cases s) (auto split: list.splits)

lemma Split_no_sep: "c \<notin> set s \<Longrightarrow> Split c s = [s]"
  by (induction s) auto

lemma Split_append_sep: "c \<notin> set s \<Longrightarrow> Split c (s @ c # t) = s # Split c t"
  by (induction s) auto

lemma IndexByte_None: "IndexByte bs c = None \<longleftrightarrow> c \<notin> set bs"
  by (induction bs) auto

lemma IndexByte_Some_take:
  "IndexByte bs c = Some n \<Longrightarrow> take n bs = takeWhile (\<lambda>b. b \<noteq> c) bs"
  by (induction bs arbitrary: n) (auto split: if_splits)

lemma TrimRight_append:
  "TrimRight c (bs @ replicate n c) = TrimRight c bs"
  unfolding TrimRight_def rev_append by (subst dropWhile_append2) auto

lemma TrimRight_id: "bs = [] \<or> last bs \<noteq> c \<Longrightarrow> TrimRight c bs = bs"
proof (cases bs rule: rev_cases)
  case (snoc ys y)
  assume "bs = [] \<or> last bs \<noteq> c"
  with snoc show ?thesis by (simp add: TrimRight_def)
qed (simp add: TrimRight_def)

end
