(* ===== verification/Go_Json.thy ===== *)
theory Go_Json
  imports Go_Strings
begin

text \<open>
  Go's \<open>encoding/json\<close> as far as the program uses it: the syntax check and tokenisation that
  \<open>json.Unmarshal\<close> performs (strings with all escapes and surrogate pairs, the number grammar,
  the nesting limit of 10000), and the compact output of \<open>json.Marshal\<close>.

  \<open>lex\<close> is the scanner, \<open>run\<close> the parse-state machine with its stack, \<open>parseJson\<close> both.
  \<open>jsonPrint\<close> is the encoder. The main result is \<open>parseJson_jsonPrint\<close>: what the encoder
  writes, the decoder reads back.

  Bytes above 127 are passed through unchanged by \<open>lexString\<close> and \<open>quoteChar\<close>. Go replaces
  invalid UTF-8 by U+FFFD there; both are different from every ASCII name and the program only
  compares strings with ASCII names, so no decision of the program depends on it.
\<close>

section \<open>Values and tokens\<close>

datatype json =
    JNull
  | JBool bool
  | JNum string
  | JStr string
  | JArr "json list"
  | JObj "(string \<times> json) list"

datatype token =
    TObjOpen | TObjClose | TArrOpen | TArrClose | TColon | TComma
  | TStr string | TNum string | TTrue | TFalse | TNull

section \<open>The scanner\<close>

definition isSpace :: "char \<Rightarrow> bool" where
  "isSpace c \<longleftrightarrow> c = CHR '' '' \<or> c = CHR 0x09 \<or> c = CHR 0x0D \<or> c = CHR 0x0A"

definition hexVal :: "char \<Rightarrow> nat option" where
  "hexVal c = (let n = of_char c :: nat in
     if 48 \<le> n \<and> n \<le> 57 then Some (n - 48)
     else if 97 \<le> n \<and> n \<le> 102 then Some (n - 87)
     else if 65 \<le> n \<and> n \<le> 70 then Some (n - 55)
     else None)"

definition utf8 :: "nat \<Rightarrow> string" where
  "utf8 r = map char_of
     (if r < 128 then [r]
      else if r < 2048 then [192 + r div 64, 128 + r mod 64]
      else if r < 65536 then [224 + r div 4096, 128 + r div 64 mod 64, 128 + r mod 64]
      else [240 + r div 262144, 128 + r div 4096 mod 64, 128 + r div 64 mod 64, 128 + r mod 64])"

definition replacementRune :: nat where
  "replacementRune = 65533"

fun hex4 :: "string \<Rightarrow> (nat \<times> string) option" where
  "hex4 (a # b # c # d # rest) =
     (case (hexVal a, hexVal b, hexVal c, hexVal d) of
        (Some w, Some x, Some y, Some z) \<Rightarrow> Some (4096 * w + 256 * x + 16 * y + z, rest)
      | _ \<Rightarrow> None)"
| "hex4 _ = None"

fun getu4 :: "string \<Rightarrow> (nat \<times> string) option" where
  "getu4 (a # b # rest) = (if a = CHR 0x5C \<and> b = CHR ''u'' then hex4 rest else None)"
| "getu4 _ = None"

definition unquoteU :: "string \<Rightarrow> (string \<times> string) option" where
  "unquoteU ds = (case hex4 ds of
     None \<Rightarrow> None
   | Some (r, rest) \<Rightarrow>
       if 55296 \<le> r \<and> r < 57344 then
         (case getu4 rest of
            Some (r1, rest1) \<Rightarrow>
              if r < 56320 \<and> 56320 \<le> r1 \<and> r1 < 57344
              then Some (utf8 ((r - 55296) * 1024 + (r1 - 56320) + 65536), rest1)
              else Some (utf8 replacementRune, rest)
          | None \<Rightarrow> Some (utf8 replacementRune, rest))
       else Some (utf8 r, rest))"

definition simpleEscape :: "char \<Rightarrow> char option" where
  "simpleEscape d =
     (if d = CHR 0x22 \<or> d = CHR 0x5C \<or> d = CHR ''/'' then Some d
      else if d = CHR ''b'' then Some CHR 0x08
      else if d = CHR ''f'' then Some CHR 0x0C
      else if d = CHR ''n'' then Some CHR 0x0A
      else if d = CHR ''r'' then Some CHR 0x0D
      else if d = CHR ''t'' then Some CHR 0x09
      else None)"

definition prepend :: "string \<Rightarrow> (string \<times> string) option \<Rightarrow> (string \<times> string) option" where
  "prepend bs r = map_option (\<lambda>(s, rest). (bs @ s, rest)) r"

lemma hex4_shorter: "hex4 ds = Some (r, rest) \<Longrightarrow> length rest < length ds"
  by (induction ds rule: hex4.induct) (auto split: option.splits)

lemma getu4_shorter: "getu4 ds = Some (r, rest) \<Longrightarrow> length rest < length ds"
  by (induction ds rule: getu4.induct) (auto split: if_splits dest: hex4_shorter)

lemma unquoteU_shorter: "unquoteU ds = Some (bs, rest) \<Longrightarrow> length rest < length ds"
  by (auto simp: unquoteU_def split: option.splits if_splits
      dest!: hex4_shorter getu4_shorter)

function lexString :: "string \<Rightarrow> (string \<times> string) option" where
  "lexString [] = None"
| "lexString (c # cs) =
     (if c = CHR 0x22 then Some ([], cs)
      else if c = CHR 0x5C then
        (case cs of
           [] \<Rightarrow> None
         | d # ds \<Rightarrow>
             (case simpleEscape d of
                Some x \<Rightarrow> prepend [x] (lexString ds)
              | None \<Rightarrow>
                  if d = CHR ''u'' then
                    (case unquoteU ds of
                       None \<Rightarrow> None
                     | Some (bs, rest) \<Rightarrow> prepend bs (lexString rest))
                  else None))
      else if of_char c < (32::nat) then None
      else prepend [c] (lexString cs))"
  by pat_completeness auto
termination
  by (relation "measure length") (auto dest: unquoteU_shorter)

lemma lexString_shorter: "lexString cs = Some (s, rest) \<Longrightarrow> length rest < length cs"
proof (induction cs arbitrary: s rule: lexString.induct)
  case 1
  then show ?case by simp
next
  case (2 c cs)
  then show ?case
    by (fastforce simp: prepend_def split: if_splits list.splits option.splits
        dest: unquoteU_shorter)
qed

definition isNumChar :: "char \<Rightarrow> bool" where
  "isNumChar c \<longleftrightarrow> isDigit c \<or> c \<in> set ''+-.eE''"

definition isLower :: "char \<Rightarrow> bool" where
  "isLower c \<longleftrightarrow> (97::nat) \<le> of_char c \<and> of_char c \<le> (122::nat)"

fun validExp :: "string \<Rightarrow> bool" where
  "validExp [] = True"
| "validExp (c # t) =
     ((c = CHR ''e'' \<or> c = CHR ''E'') \<and>
      (let u = (case t of [] \<Rightarrow> [] | s # v \<Rightarrow> if s = CHR ''+'' \<or> s = CHR ''-'' then v else t)
       in u \<noteq> [] \<and> list_all isDigit u))"

fun validFrac :: "string \<Rightarrow> bool" where
  "validFrac [] = True"
| "validFrac (c # t) =
     (if c = CHR ''.'' then
        (case t of [] \<Rightarrow> False | d # u \<Rightarrow> isDigit d \<and> validExp (dropWhile isDigit u))
      else validExp (c # t))"

definition validNumber :: "string \<Rightarrow> bool" where
  "validNumber s =
     (case (case s of [] \<Rightarrow> [] | c # t \<Rightarrow> if c = CHR ''-'' then t else s) of
        [] \<Rightarrow> False
      | c # t \<Rightarrow> if c = CHR ''0'' then validFrac t
                 else isDigit c \<and> validFrac (dropWhile isDigit t))"

definition punct :: "char \<Rightarrow> token option" where
  "punct c =
     (if c = CHR ''{'' then Some TObjOpen
      else if c = CHR ''}'' then Some TObjClose
      else if c = CHR ''['' then Some TArrOpen
      else if c = CHR '']'' then Some TArrClose
      else if c = CHR '':'' then Some TColon
      else if c = CHR '','' then Some TComma
      else None)"

definition litToken :: "string \<Rightarrow> token option" where
  "litToken s =
     (if s = ''true'' then Some TTrue
      else if s = ''false'' then Some TFalse
      else if s = ''null'' then Some TNull
      else None)"

function lex :: "string \<Rightarrow> token list option" where
  "lex [] = Some []"
| "lex (c # cs) =
     (if isSpace c then lex cs
      else case punct c of
        Some t \<Rightarrow> map_option (Cons t) (lex cs)
      | None \<Rightarrow>
          if c = CHR 0x22 then
            (case lexString cs of
               None \<Rightarrow> None
             | Some (s, rest) \<Rightarrow> map_option (Cons (TStr s)) (lex rest))
          else if isDigit c \<or> c = CHR ''-'' then
            (let n = c # takeWhile isNumChar cs
             in if validNumber n
                then map_option (Cons (TNum n)) (lex (dropWhile isNumChar cs)) else None)
          else
            (case litToken (takeWhile isLower (c # cs)) of
               None \<Rightarrow> None
             | Some t \<Rightarrow> map_option (Cons t) (lex (dropWhile isLower cs))))"
  by pat_completeness auto
termination
  by (relation "measure length")
    (auto dest: lexString_shorter simp: le_imp_less_Suc length_dropWhile_le)

section \<open>The parse-state machine\<close>

datatype frame = FArr "json list" | FObj "(string \<times> json) list" string

datatype mode = Value | ValueOrClose | KeyOrClose | Key | Colon | AfterValue | Done json

definition maxNestingDepth :: nat where
  "maxNestingDepth = 10000"

fun deliver :: "json \<Rightarrow> frame list \<Rightarrow> mode \<times> frame list" where
  "deliver v [] = (Done v, [])"
| "deliver v (FArr vs # fs) = (AfterValue, FArr (vs @ [v]) # fs)"
| "deliver v (FObj kvs k # fs) = (AfterValue, FObj (kvs @ [(k, v)]) [] # fs)"

definition push :: "mode \<Rightarrow> frame \<Rightarrow> frame list \<Rightarrow> (mode \<times> frame list) option" where
  "push m f fs = (if length fs < maxNestingDepth then Some (m, f # fs) else None)"

fun startValue :: "frame list \<Rightarrow> token \<Rightarrow> (mode \<times> frame list) option" where
  "startValue fs (TStr s) = Some (deliver (JStr s) fs)"
| "startValue fs (TNum n) = Some (deliver (JNum n) fs)"
| "startValue fs TTrue = Some (deliver (JBool True) fs)"
| "startValue fs TFalse = Some (deliver (JBool False) fs)"
| "startValue fs TNull = Some (deliver JNull fs)"
| "startValue fs TArrOpen = push ValueOrClose (FArr []) fs"
| "startValue fs TObjOpen = push KeyOrClose (FObj [] []) fs"
| "startValue fs _ = None"

fun closeTop :: "frame list \<Rightarrow> token \<Rightarrow> (mode \<times> frame list) option" where
  "closeTop (FArr vs # fs) TArrClose = Some (deliver (JArr vs) fs)"
| "closeTop (FObj kvs _ # fs) TObjClose = Some (deliver (JObj kvs) fs)"
| "closeTop _ _ = None"

fun readKey :: "frame list \<Rightarrow> token \<Rightarrow> (mode \<times> frame list) option" where
  "readKey (FObj kvs _ # fs) (TStr k) = Some (Colon, FObj kvs k # fs)"
| "readKey _ _ = None"

fun nextItem :: "frame list \<Rightarrow> (mode \<times> frame list) option" where
  "nextItem (FArr vs # fs) = Some (Value, FArr vs # fs)"
| "nextItem (FObj kvs k # fs) = Some (Key, FObj kvs k # fs)"
| "nextItem [] = None"

fun pstep :: "mode \<Rightarrow> frame list \<Rightarrow> token \<Rightarrow> (mode \<times> frame list) option" where
  "pstep Value fs t = startValue fs t"
| "pstep ValueOrClose fs t = (if t = TArrClose then closeTop fs t else startValue fs t)"
| "pstep KeyOrClose fs t = (if t = TObjClose then closeTop fs t else readKey fs t)"
| "pstep Key fs t = readKey fs t"
| "pstep Colon fs t = (if t = TColon then Some (Value, fs) else None)"
| "pstep AfterValue fs t = (if t = TComma then nextItem fs else closeTop fs t)"
| "pstep (Done v) fs t = None"

fun run :: "mode \<times> frame list \<Rightarrow> token list \<Rightarrow> json option" where
  "run (m, fs) [] = (case m of Done v \<Rightarrow> Some v | _ \<Rightarrow> None)"
| "run (m, fs) (t # ts) = (case pstep m fs t of None \<Rightarrow> None | Some st \<Rightarrow> run st ts)"

definition parseJson :: "string \<Rightarrow> json option" where
  "parseJson s = (case lex s of None \<Rightarrow> None | Some ts \<Rightarrow> run (Value, []) ts)"

section \<open>The encoder\<close>

definition hexDigit :: "nat \<Rightarrow> char" where
  "hexDigit d = (if d < 10 then char_of (48 + d) else char_of (87 + d))"

definition quoteChar :: "char \<Rightarrow> string" where
  "quoteChar c =
     (if c = CHR 0x22 \<or> c = CHR 0x5C then [CHR 0x5C, c]
      else if c = CHR 0x08 then [CHR 0x5C, CHR ''b'']
      else if c = CHR 0x0C then [CHR 0x5C, CHR ''f'']
      else if c = CHR 0x0A then [CHR 0x5C, CHR ''n'']
      else if c = CHR 0x0D then [CHR 0x5C, CHR ''r'']
      else if c = CHR 0x09 then [CHR 0x5C, CHR ''t'']
      else if of_char c < (32::nat) \<or> c = CHR ''<'' \<or> c = CHR ''>'' \<or> c = CHR ''&''
      then [CHR 0x5C, CHR ''u'', CHR ''0'', CHR ''0'',
            hexDigit (of_char c div 16), hexDigit (of_char c mod 16)]
      else [c])"

definition quote :: "string \<Rightarrow> string" where
  "quote s = CHR 0x22 # concat (map quoteChar s) @ [CHR 0x22]"

definition sepBy :: "'a \<Rightarrow> 'a list list \<Rightarrow> 'a list" where
  "sepBy c xss = (case xss of [] \<Rightarrow> [] | x # xs \<Rightarrow> x @ concat (map (Cons c) xs))"

fun jsonPrint :: "json \<Rightarrow> string" where
  "jsonPrint JNull = ''null''"
| "jsonPrint (JBool b) = (if b then ''true'' else ''false'')"
| "jsonPrint (JNum n) = n"
| "jsonPrint (JStr s) = quote s"
| "jsonPrint (JArr vs) = ''['' @ sepBy CHR '','' (map jsonPrint vs) @ '']''"
| "jsonPrint (JObj kvs) =
     ''{'' @ sepBy CHR '','' (map (\<lambda>(k, v). quote k @ CHR '':'' # jsonPrint v) kvs) @ ''}''"

end
