(* ===== verification/Go_Json_Roundtrip.thy ===== *)
theory Go_Json_Roundtrip
  imports Go_Json
begin

text \<open>
  The encoder and the decoder of \<open>Go_Json\<close> fit: \<open>lex_jsonPrint\<close> says that scanning an encoded
  value gives its tokens, \<open>run_toks\<close> that the stack machine rebuilds the value from them, and
  \<open>parseJson_jsonPrint\<close> composes the two for every well-formed value that respects the nesting
  limit. \<open>wf_json\<close> asks of number literals only what \<open>json.Marshal\<close> writes.
\<close>

section \<open>Reference tokens, well-formed values, nesting depth\<close>

fun toks :: "json \<Rightarrow> token list" where
  "toks JNull = [TNull]"
| "toks (JBool b) = [if b then TTrue else TFalse]"
| "toks (JNum n) = [TNum n]"
| "toks (JStr s) = [TStr s]"
| "toks (JArr vs) = TArrOpen # sepBy TComma (map toks vs) @ [TArrClose]"
| "toks (JObj kvs) =
     TObjOpen # sepBy TComma (map (\<lambda>(k, v). TStr k # TColon # toks v) kvs) @ [TObjClose]"

definition wf_number :: "string \<Rightarrow> bool" where
  "wf_number n \<longleftrightarrow>
     validNumber n \<and> list_all isNumChar n \<and> n \<noteq> [] \<and> (isDigit (hd n) \<or> hd n = CHR ''-'')"

fun wf_json :: "json \<Rightarrow> bool" where
  "wf_json (JNum n) = wf_number n"
| "wf_json (JArr vs) = list_all wf_json vs"
| "wf_json (JObj kvs) = list_all (\<lambda>(k, v). wf_json v) kvs"
| "wf_json _ = True"

fun jdepth :: "json \<Rightarrow> nat" where
  "jdepth (JArr vs) = Suc (foldr max (map jdepth vs) 0)"
| "jdepth (JObj kvs) = Suc (foldr max (map (\<lambda>(k, v). jdepth v) kvs) 0)"
| "jdepth _ = 0"

definition stops :: "string \<Rightarrow> bool" where
  "stops s \<longleftrightarrow> s = [] \<or> \<not> isNumChar (hd s) \<and> \<not> isLower (hd s)"

declare lex.simps(2) [simp del] lexString.simps(2) [simp del]

section \<open>Scanning what the encoder writes\<close>

lemma prepend_prepend [simp]: "prepend a (prepend b r) = prepend (a @ b) r"
  by (cases r) (auto simp: prepend_def)

lemma prepend_Nil [simp]: "prepend [] r = r"
  by (cases r) (auto simp: prepend_def)

lemma hexVal_hexDigit: "d < 16 \<Longrightarrow> hexVal (hexDigit d) = Some d"
  by (auto simp: hexVal_def hexDigit_def Let_def)

lemma unquoteU_quoted:
  assumes "of_char c < (128::nat)"
  shows "unquoteU (CHR ''0'' # CHR ''0'' # hexDigit (of_char c div 16) #
           hexDigit (of_char c mod 16) # r) = Some ([c], r)"
proof -
  have "hexVal (hexDigit (of_char c div 16)) = Some (of_char c div 16)"
    by (rule hexVal_hexDigit) (use assms in simp)
  moreover have "hexVal (hexDigit (of_char c mod 16)) = Some (of_char c mod 16)"
    by (rule hexVal_hexDigit) simp
  moreover have "hexVal CHR ''0'' = Some 0"
    by (simp add: hexVal_def)
  ultimately show ?thesis
    using assms by (simp add: unquoteU_def utf8_def)
qed

lemma lexString_quoteChar: "lexString (quoteChar c @ r) = prepend [c] (lexString r)"
proof (cases "of_char c < (32::nat) \<or> c = CHR ''<'' \<or> c = CHR ''>'' \<or> c = CHR ''&''")
  case True
  then have "of_char c < (128::nat)" by auto
  then show ?thesis
    by (auto simp: quoteChar_def lexString.simps(2) simpleEscape_def unquoteU_quoted)
next
  case False
  then show ?thesis
    by (auto simp: quoteChar_def lexString.simps(2) simpleEscape_def)
qed

lemma lexString_quoted:
  "lexString (concat (map quoteChar s) @ CHR 0x22 # r) = Some (s, r)"
proof (induction s)
  case Nil
  show ?case by (simp add: lexString.simps(2))
next
  case (Cons c s)
  then show ?case by (simp add: lexString_quoteChar prepend_def)
qed

lemma lex_quote: "lex (quote s @ r) = map_option (Cons (TStr s)) (lex r)"
  by (simp add: quote_def lex.simps(2) isSpace_def punct_def lexString_quoted)

lemma lex_punct: "punct c = Some t \<Longrightarrow> lex (c # cs) = map_option (Cons t) (lex cs)"
  by (auto simp: lex.simps(2) punct_def isSpace_def split: if_splits)

lemmas lex_puncts =
  lex_punct [of "CHR ''{''" TObjOpen] lex_punct [of "CHR ''}''" TObjClose]
  lex_punct [of "CHR ''[''" TArrOpen] lex_punct [of "CHR '']''" TArrClose]
  lex_punct [of "CHR '':''" TColon] lex_punct [of "CHR '',''" TComma]

lemma lex_puncts_simps [simp]:
  "lex (CHR ''{'' # cs) = map_option (Cons TObjOpen) (lex cs)"
  "lex (CHR ''}'' # cs) = map_option (Cons TObjClose) (lex cs)"
  "lex (CHR ''['' # cs) = map_option (Cons TArrOpen) (lex cs)"
  "lex (CHR '']'' # cs) = map_option (Cons TArrClose) (lex cs)"
  "lex (CHR '':'' # cs) = map_option (Cons TColon) (lex cs)"
  "lex (CHR '','' # cs) = map_option (Cons TComma) (lex cs)"
  using lex_puncts by (simp_all add: punct_def)

lemma stops_punct [simp]: "punct c = Some t \<Longrightarrow> stops (c # cs)"
  by (auto simp: stops_def punct_def isNumChar_def isDigit_def isLower_def split: if_splits)

lemma lex_number:
  assumes "wf_number n" "stops r"
  shows "lex (n @ r) = map_option (Cons (TNum n)) (lex r)"
proof -
  from assms(1) obtain c cs where n: "n = c # cs" and c: "isDigit c \<or> c = CHR ''-''"
    by (cases n) (auto simp: wf_number_def)
  from assms(1) n have num: "\<And>x. x \<in> set cs \<Longrightarrow> isNumChar x"
    by (auto simp: wf_number_def list_all_iff)
  from assms(2) have stop: "r = [] \<or> \<not> isNumChar (hd r)"
    by (auto simp: stops_def)
  have notspace: "\<not> isSpace c" and nopunct: "punct c = None" and noquote: "c \<noteq> CHR 0x22"
    using c by (auto simp: isSpace_def punct_def isDigit_def)
  have "takeWhile isNumChar (cs @ r) = cs" "dropWhile isNumChar (cs @ r) = r"
    by (rule takeWhile_append_stop dropWhile_append_stop; use num stop in simp)+
  then show ?thesis
    using assms(1) c notspace nopunct noquote
    by (simp add: n lex.simps(2) wf_number_def Let_def)
qed

lemma lex_word:
  assumes "litToken w = Some t" "stops r"
  shows "lex (w @ r) = map_option (Cons t) (lex r)"
proof -
  from assms(1) have "w \<noteq> []" "list_all isLower w"
    by (auto simp: litToken_def isLower_def split: if_splits)
  then obtain c cs where w: "w = c # cs" and low: "\<And>x. x \<in> set (c # cs) \<Longrightarrow> isLower x"
    by (cases w) (auto simp: list_all_iff)
  from assms(2) have stop: "r = [] \<or> \<not> isLower (hd r)"
    by (auto simp: stops_def)
  have "takeWhile isLower ((c # cs) @ r) = c # cs" "dropWhile isLower (cs @ r) = r"
    by (rule takeWhile_append_stop dropWhile_append_stop; use low stop in simp)+
  moreover have "\<not> isSpace c" "punct c = None" "c \<noteq> CHR 0x22" "\<not> isDigit c" "c \<noteq> CHR ''-''"
    using low [of c] by (auto simp: isSpace_def punct_def isDigit_def isLower_def)
  ultimately show ?thesis
    using assms(1) by (simp add: w lex.simps(2))
qed

lemma lex_items:
  assumes "\<And>x r. x \<in> set xs \<Longrightarrow> stops r \<Longrightarrow> lex (p x @ r) = map_option ((@) (t x)) (lex r)"
    and "stops r"
  shows "lex (concat (map (Cons CHR '','') (map p xs)) @ r) =
    map_option ((@) (concat (map (Cons TComma) (map t xs)))) (lex r)"
  using assms(1)
proof (induction xs)
  case Nil
  show ?case by (cases "lex r") simp_all
next
  case (Cons x xs)
  let ?rest = "concat (map (Cons CHR '','') (map p xs)) @ r"
  have "stops ?rest"
    using assms(2) by (cases xs) (simp_all add: punct_def)
  then have "lex (p x @ ?rest) = map_option ((@) (t x)) (lex ?rest)"
    using Cons.prems by simp
  with Cons show ?case
    by (cases "lex r") simp_all
qed

lemma lex_sepBy:
  assumes items: "\<And>x r. x \<in> set xs \<Longrightarrow> stops r \<Longrightarrow> lex (p x @ r) = map_option ((@) (t x)) (lex r)"
    and "stops r"
  shows "lex (sepBy CHR '','' (map p xs) @ r) = map_option ((@) (sepBy TComma (map t xs))) (lex r)"
proof (cases xs)
  case Nil
  then show ?thesis by (cases "lex r") (simp_all add: sepBy_def)
next
  case (Cons x ys)
  let ?rest = "concat (map (Cons CHR '','') (map p ys)) @ r"
  have "stops ?rest"
    using assms(2) by (cases ys) (simp_all add: punct_def)
  then have "lex (p x @ ?rest) = map_option ((@) (t x)) (lex ?rest)"
    using items [of x] Cons by simp
  moreover have "lex ?rest = map_option ((@) (concat (map (Cons TComma) (map t ys)))) (lex r)"
    by (rule lex_items) (use items Cons assms(2) in simp_all)
  ultimately show ?thesis
    using Cons by (cases "lex r") (simp_all add: sepBy_def)
qed

lemma map_option_append_Cons:
  "map_option (Cons t) (map_option ((@) ts) r) = map_option ((@) (t # ts)) r"
  by (cases r) simp_all

lemma lex_member:
  assumes "\<And>r. stops r \<Longrightarrow> lex (jsonPrint v @ r) = map_option ((@) (toks v)) (lex r)" "stops r"
  shows "lex ((quote k @ CHR '':'' # jsonPrint v) @ r) =
    map_option ((@) (TStr k # TColon # toks v)) (lex r)"
  using assms by (cases "lex r") (simp_all add: lex_quote)

lemma lex_jsonPrint:
  "wf_json j \<Longrightarrow> stops r \<Longrightarrow> lex (jsonPrint j @ r) = map_option ((@) (toks j)) (lex r)"
proof (induction j arbitrary: r rule: jsonPrint.induct)
  case 1
  then show ?case by (simp add: lex_word [of "''null''" TNull, simplified] litToken_def)
next
  case (2 b)
  then show ?case
    by (simp add: lex_word [of "''true''" TTrue, simplified]
        lex_word [of "''false''" TFalse, simplified] litToken_def)
next
  case (3 n)
  then show ?case by (simp add: lex_number)
next
  case (4 s)
  then show ?case by (simp add: lex_quote)
next
  case (5 vs)
  have "lex (sepBy CHR '','' (map jsonPrint vs) @ CHR '']'' # r) =
    map_option ((@) (sepBy TComma (map toks vs))) (lex (CHR '']'' # r))"
    by (rule lex_sepBy) (use 5 in \<open>auto simp: list_all_iff punct_def\<close>)
  then show ?case
    by (simp add: option.map_comp comp_def)
next
  case (6 kvs)
  have "lex (sepBy CHR '','' (map (\<lambda>(k, v). quote k @ CHR '':'' # jsonPrint v) kvs) @ CHR ''}'' # r) =
    map_option ((@) (sepBy TComma (map (\<lambda>(k, v). TStr k # TColon # toks v) kvs))) (lex (CHR ''}'' # r))"
  proof (rule lex_sepBy)
    fix x r' assume x: "x \<in> set kvs" and r': "stops r'"
    obtain k v where kv: "x = (k, v)" by (cases x)
    have "\<And>r. stops r \<Longrightarrow> lex (jsonPrint v @ r) = map_option ((@) (toks v)) (lex r)"
      using 6 x kv by (fastforce simp: list_all_iff)
    from lex_member [OF this r'] show
      "lex ((case x of (k, v) \<Rightarrow> quote k @ CHR '':'' # jsonPrint v) @ r') =
         map_option ((@) (case x of (k, v) \<Rightarrow> TStr k # TColon # toks v)) (lex r')"
      by (simp add: kv)
  qed (simp add: punct_def)
  then show ?case
    by (simp add: option.map_comp comp_def)
qed

section \<open>Rebuilding the value from its tokens\<close>

lemma foldr_max_le: "foldr max xs (0::nat) \<le> n \<longleftrightarrow> (\<forall>x\<in>set xs. x \<le> n)"
  by (induction xs) auto

definition opensValue :: "mode \<Rightarrow> bool" where
  "opensValue m \<longleftrightarrow> m = Value \<or> m = ValueOrClose"

lemma run_items:
  assumes "\<And>v m fs ts. v \<in> set vs \<Longrightarrow> opensValue m \<Longrightarrow> length fs + jdepth v \<le> maxNestingDepth \<Longrightarrow>
      run (m, fs) (toks v @ ts) = run (deliver v fs) ts"
    and "\<forall>v\<in>set vs. Suc (length fs) + jdepth v \<le> maxNestingDepth"
  shows "run (AfterValue, FArr ws # fs) (concat (map (Cons TComma) (map toks vs)) @ ts) =
    run (AfterValue, FArr (ws @ vs) # fs) ts"
  using assms
proof (induction vs arbitrary: ws)
  case (Cons v vs)
  have "run (Value, FArr ws # fs) (toks v @ rest) = run (AfterValue, FArr (ws @ [v]) # fs) rest" for rest
    using Cons.prems by (simp add: opensValue_def)
  moreover have "run (AfterValue, FArr (ws @ [v]) # fs) (concat (map (Cons TComma) (map toks vs)) @ ts) =
    run (AfterValue, FArr ((ws @ [v]) @ vs) # fs) ts"
    by (rule Cons.IH) (use Cons.prems in auto)
  ultimately show ?case by simp
qed simp

lemma run_members:
  assumes "\<And>k v m fs ts. (k, v) \<in> set kvs \<Longrightarrow> opensValue m \<Longrightarrow> length fs + jdepth v \<le> maxNestingDepth \<Longrightarrow>
      run (m, fs) (toks v @ ts) = run (deliver v fs) ts"
    and "\<forall>(k, v)\<in>set kvs. Suc (length fs) + jdepth v \<le> maxNestingDepth"
  shows "run (AfterValue, FObj ws [] # fs)
      (concat (map (Cons TComma) (map (\<lambda>(k, v). TStr k # TColon # toks v) kvs)) @ ts) =
    run (AfterValue, FObj (ws @ kvs) [] # fs) ts"
  using assms
proof (induction kvs arbitrary: ws)
  case (Cons x kvs)
  obtain k v where x: "x = (k, v)" by (cases x)
  have "run (Value, FObj ws k # fs) (toks v @ rest) = run (AfterValue, FObj (ws @ [(k, v)]) [] # fs) rest"
    for rest
    using Cons.prems(1) [of k v] Cons.prems(2) by (simp add: opensValue_def x)
  moreover have "run (AfterValue, FObj (ws @ [(k, v)]) [] # fs)
      (concat (map (Cons TComma) (map (\<lambda>(k, v). TStr k # TColon # toks v) kvs)) @ ts) =
    run (AfterValue, FObj ((ws @ [(k, v)]) @ kvs) [] # fs) ts"
  proof (rule Cons.IH)
    show "run (m, fs) (toks v @ ts) = run (deliver v fs) ts"
      if "(k, v) \<in> set kvs" "opensValue m" "length fs + jdepth v \<le> maxNestingDepth" for k v m fs ts
      by (rule Cons.prems(1) [of k]) (use that in simp_all)
  qed (use Cons.prems(2) in simp)
  ultimately show ?case by (simp add: x)
qed simp

lemma run_toks:
  "opensValue m \<Longrightarrow> length fs + jdepth j \<le> maxNestingDepth \<Longrightarrow>
   run (m, fs) (toks j @ ts) = run (deliver j fs) ts"
proof (induction j arbitrary: m fs ts rule: toks.induct)
  case (5 vs)
  have start: "run (m, fs) (TArrOpen # rest) = run (ValueOrClose, FArr [] # fs) rest" for rest
    using 5 by (auto simp: opensValue_def push_def)
  have deep: "\<forall>v\<in>set vs. Suc (length fs) + jdepth v \<le> maxNestingDepth"
    using 5 foldr_max_le [of "map jdepth vs" "maxNestingDepth - Suc (length fs)"] by fastforce
  show ?case
  proof (cases vs)
    case Nil
    with start show ?thesis by (simp add: sepBy_def)
  next
    case (Cons w ws)
    have "run (ValueOrClose, FArr [] # fs) (toks w @ rest) = run (AfterValue, FArr [w] # fs) rest" for rest
      using "5.IH" [of w ValueOrClose "FArr [] # fs"] deep Cons by (simp add: opensValue_def)
    moreover have "run (AfterValue, FArr [w] # fs)
        (concat (map (Cons TComma) (map toks ws)) @ TArrClose # ts) =
      run (AfterValue, FArr ([w] @ ws) # fs) (TArrClose # ts)"
      by (rule run_items) (use "5.IH" deep Cons in auto)
    ultimately show ?thesis
      using start Cons by (simp add: sepBy_def)
  qed
next
  case (6 kvs)
  have start: "run (m, fs) (TObjOpen # rest) = run (KeyOrClose, FObj [] [] # fs) rest" for rest
    using 6 by (auto simp: opensValue_def push_def)
  have deep: "\<forall>(k, v)\<in>set kvs. Suc (length fs) + jdepth v \<le> maxNestingDepth"
    using 6 foldr_max_le [of "map (\<lambda>(k, v). jdepth v) kvs" "maxNestingDepth - Suc (length fs)"]
    by fastforce
  show ?case
  proof (cases kvs)
    case Nil
    with start show ?thesis by (simp add: sepBy_def)
  next
    case (Cons x ws)
    obtain k v where x: "x = (k, v)" by (cases x)
    have "run (Value, FObj [] k # fs) (toks v @ rest) = run (AfterValue, FObj [(k, v)] [] # fs) rest" for rest
      by (subst "6.IH" [OF _ x [symmetric]]) (use deep Cons x in \<open>simp_all add: opensValue_def\<close>)
    moreover have "run (AfterValue, FObj [(k, v)] [] # fs)
        (concat (map (Cons TComma) (map (\<lambda>(k, v). TStr k # TColon # toks v) ws)) @ TObjClose # ts) =
      run (AfterValue, FObj ([(k, v)] @ ws) [] # fs) (TObjClose # ts)"
    proof (rule run_members)
      show "run (m, fs) (toks v @ ts) = run (deliver v fs) ts"
        if "(k, v) \<in> set ws" "opensValue m" "length fs + jdepth v \<le> maxNestingDepth"
        for k v m fs ts
        by (rule "6.IH" [of "(k, v)" k v]) (use that Cons in simp_all)
    qed (use deep Cons in simp)
    ultimately show ?thesis
      using start Cons x by (simp add: sepBy_def)
  qed
qed (auto simp: opensValue_def)

lemma parseJson_jsonPrint:
  assumes "wf_json j" "jdepth j \<le> maxNestingDepth"
  shows "parseJson (jsonPrint j) = Some j"
proof -
  have "lex (jsonPrint j) = Some (toks j)"
    using lex_jsonPrint [OF assms(1), of "[]"] by (simp add: stops_def)
  moreover have "run (Value, []) (toks j) = Some j"
    using run_toks [of Value "[]" j "[]"] assms(2) by (simp add: opensValue_def)
  ultimately show ?thesis by (simp add: parseJson_def)
qed

section \<open>Numbers the encoder writes\<close>

lemma natStr_head: "natStr n = c # cs \<Longrightarrow> c \<noteq> CHR ''0'' \<or> cs = []"
proof (induction n arbitrary: c cs rule: natStr.induct)
  case (1 n)
  show ?case
  proof (cases "n < 10")
    case True
    with 1 show ?thesis by (simp add: natStr.simps [of n])
  next
    case False
    obtain d ds where d: "natStr (n div 10) = d # ds"
      by (cases "natStr (n div 10)") auto
    show ?thesis
    proof (cases "n div 10 < 10")
      case True
      have "digit (n div 10) \<noteq> CHR ''0''"
        using True False of_char_digit [of "n div 10"] by auto
      with True False 1 show ?thesis
        by (simp add: natStr.simps [of n] natStr.simps [of "n div 10"])
    next
      case big: False
      have "ds \<noteq> []"
        using d big natStr_not_Nil [of "n div 10 div 10"]
        by (auto simp: natStr.simps [of "n div 10"] Cons_eq_append_conv)
      with "1.IH" [OF False d] False "1.prems" d show ?thesis
        by (simp add: natStr.simps [of n])
    qed
  qed
qed

lemma validNumber_digits:
  assumes "\<And>x. x \<in> set (c # cs) \<Longrightarrow> isDigit x" "c \<noteq> CHR ''0'' \<or> cs = []"
  shows "validNumber (c # cs)" "validNumber (CHR ''-'' # c # cs)"
proof -
  have "dropWhile isDigit cs = []"
    using assms(1) by (simp add: dropWhile_eq_Nil_conv)
  then have "validFrac (dropWhile isDigit cs)"
    by (simp only: validFrac.simps)
  moreover have "isDigit c" "c \<noteq> CHR ''-''"
    using assms(1) [of c] sign_not_digit by auto
  ultimately show "validNumber (c # cs)" "validNumber (CHR ''-'' # c # cs)"
    using assms(2) by (auto simp: validNumber_def)
qed

lemma wf_number_formatInt [simp]: "wf_number (formatInt i)"
proof -
  obtain c cs where s: "natStr (nat \<bar>i\<bar>) = c # cs"
    by (cases "natStr (nat \<bar>i\<bar>)") auto
  have dig: "\<And>x. x \<in> set (c # cs) \<Longrightarrow> isDigit x"
    using natStr_digits [of _ "nat \<bar>i\<bar>"] by (simp add: s)
  note valid = validNumber_digits [OF dig natStr_head [OF s]]
  have num: "list_all isNumChar (c # cs)" "isNumChar CHR ''-''"
    using dig by (auto simp: list_all_iff isNumChar_def)
  show ?thesis
  proof (cases "i < 0")
    case True
    then have "formatInt i = CHR ''-'' # c # cs" using s by (simp add: formatInt_def)
    with valid num show ?thesis by (simp add: wf_number_def)
  next
    case False
    then have "formatInt i = c # cs" using s by (simp add: formatInt_def)
    with valid num dig show ?thesis by (simp add: wf_number_def)
  qed
qed

end
