(* ===== verification/Api_Types.thy ===== *)
theory Api_Types
  imports Go_Json_Roundtrip
begin

text \<open>
  The \<open>ComputeSentryPolicy\<close> API (\<open>operator/api/v1/computesentrypolicy_types.go\<close>) and the JSON form
  of \<open>GovernanceConfig\<close>, the configuration that the operator writes into a pod annotation and the
  agent reads back.

  Pointers to optional fds are \<open>option\<close> values here; sharing between copies is the subject of
  \<open>Deep_Copy\<close>. A field whose Go name is already taken by a type or by another struct carries the
  suffix \<open>F\<close> or the prefix \<open>gc\<close>. \<open>metav1.LabelSelector\<close> and \<open>metav1.Condition\<close> are the public
  Kubernetes types; how a selector is compiled and matched is library code and a parameter of the
  theories that use it.
\<close>

section \<open>The policy types\<close>

record LabelSelectorRequirement =
  ReqKey :: string
  ReqOperator :: string
  ReqValues :: "string list"

record LabelSelector =
  MatchLabels :: "(string, string) gomap"
  MatchExpressions :: "LabelSelectorRequirement list"

record SpyConfig =
  Enabled :: bool

record Thresholds =
  MaxNCCLLatencyUs :: int64
  MaxJitterUs :: int64
  MinP2PBandwidthGbps :: int64
  MinHbmBandwidthGbps :: int64

record EvalConfig =
  WindowSize :: int64
  ErrorCountLimit :: int64

record GovernanceConfig =
  gcThresholds :: Thresholds
  gcEvalConfig :: EvalConfig

record NodeTaintThreshold =
  MinUnhealthyPodsCount :: "int32 option"
  MinUnhealthyPodsPercentage :: "int32 option"

record Actions =
  EnableTaint :: bool
  EnableEvict :: bool
  NodeTaintThresholdF :: "NodeTaintThreshold option"

record ComputeSentryPolicySpec =
  Selector :: LabelSelector
  SpyConfigF :: SpyConfig
  ThresholdsF :: Thresholds
  EvalConfigF :: EvalConfig
  ActionsF :: Actions

record ComputeSentryPolicy =
  PolicyName :: string
  PolicyNamespace :: string
  Spec :: ComputeSentryPolicySpec

section \<open>Struct decoding by \<open>encoding/json\<close>\<close>

text \<open>
  A key selects the field with exactly that name, else the first field whose name folds to the
  same string; unknown keys are skipped. \<open>foldName\<close> maps ASCII letters to upper case and the two
  non-ASCII runes that fold to ASCII letters (U+017F to S, U+212A to K). Every decoding step returns
  the updated struct and whether no type error was recorded; decoding goes on after a type error, as
  Go's decoder does, and the error is reported at the end.
\<close>

fun foldName :: "string \<Rightarrow> string" where
  "foldName [] = []"
| "foldName (c # cs) =
     (case cs of
        b # ds \<Rightarrow>
          if c = CHR 0xC5 \<and> b = CHR 0xBF then CHR ''S'' # foldName ds
          else (case ds of
              a # es \<Rightarrow> if c = CHR 0xE2 \<and> b = CHR 0x84 \<and> a = CHR 0xAA then CHR ''K'' # foldName es
                         else (if isLower c then char_of (of_char c - 32 :: nat) else c) # foldName cs
            | [] \<Rightarrow> (if isLower c then char_of (of_char c - 32 :: nat) else c) # foldName cs)
      | [] \<Rightarrow> [if isLower c then char_of (of_char c - 32 :: nat) else c])"

type_synonym 's decoder = "json \<Rightarrow> 's \<Rightarrow> 's \<times> bool"

definition lookupField :: "(string \<times> 'a) list \<Rightarrow> string \<Rightarrow> 'a option" where
  "lookupField fds k =
     (case map_of fds k of
        Some d \<Rightarrow> Some d
      | None \<Rightarrow> map_option snd (List.find (\<lambda>(n, _). foldName n = foldName k) fds))"

fun decodeMembers :: "(string \<times> 's decoder) list \<Rightarrow> (string \<times> json) list \<Rightarrow> 's \<Rightarrow> 's \<times> bool" where
  "decodeMembers fds [] s = (s, True)"
| "decodeMembers fds ((k, v) # kvs) s =
     (let (s1, ok1) = (case lookupField fds k of None \<Rightarrow> (s, True) | Some d \<Rightarrow> d v s);
          (s2, ok2) = decodeMembers fds kvs s1
      in (s2, ok1 \<and> ok2))"

definition decodeStruct :: "(string \<times> 's decoder) list \<Rightarrow> 's decoder" where
  "decodeStruct fds j s =
     (case j of
        JNull \<Rightarrow> (s, True)
      | JObj kvs \<Rightarrow> decodeMembers fds kvs s
      | _ \<Rightarrow> (s, False))"

definition decodeInt64 :: "int64 decoder" where
  "decodeInt64 j old =
     (case j of
        JNull \<Rightarrow> (old, True)
      | JNum n \<Rightarrow> (case ParseInt n of Some w \<Rightarrow> (w, True) | None \<Rightarrow> (old, False))
      | _ \<Rightarrow> (old, False))"

definition onField :: "('s \<Rightarrow> 'a) \<Rightarrow> (('a \<Rightarrow> 'a) \<Rightarrow> 's \<Rightarrow> 's) \<Rightarrow> 'a decoder \<Rightarrow> 's decoder" where
  "onField get upd d j s = (let (v, ok) = d j (get s) in (upd (\<lambda>_. v) s, ok))"

section \<open>The JSON form of \<open>GovernanceConfig\<close>\<close>

definition thresholdsFields :: "(string \<times> Thresholds decoder) list" where
  "thresholdsFields =
     [(''maxNcclLatencyUs'', onField MaxNCCLLatencyUs MaxNCCLLatencyUs_update decodeInt64),
      (''maxJitterUs'', onField MaxJitterUs MaxJitterUs_update decodeInt64),
      (''minP2PBandwidthGbps'', onField MinP2PBandwidthGbps MinP2PBandwidthGbps_update decodeInt64),
      (''minHbmBandwidthGbps'', onField MinHbmBandwidthGbps MinHbmBandwidthGbps_update decodeInt64)]"

definition evalConfigFields :: "(string \<times> EvalConfig decoder) list" where
  "evalConfigFields =
     [(''windowSize'', onField WindowSize WindowSize_update decodeInt64),
      (''errorCountLimit'', onField ErrorCountLimit ErrorCountLimit_update decodeInt64)]"

definition governanceFields :: "(string \<times> GovernanceConfig decoder) list" where
  "governanceFields =
     [(''thresholds'', onField gcThresholds gcThresholds_update (decodeStruct thresholdsFields)),
      (''evalConfig'', onField gcEvalConfig gcEvalConfig_update (decodeStruct evalConfigFields))]"

definition zeroThresholds :: Thresholds where
  "zeroThresholds = \<lparr>MaxNCCLLatencyUs = 0, MaxJitterUs = 0, MinP2PBandwidthGbps = 0,
     MinHbmBandwidthGbps = 0\<rparr>"

definition zeroEvalConfig :: EvalConfig where
  "zeroEvalConfig = \<lparr>WindowSize = 0, ErrorCountLimit = 0\<rparr>"

definition zeroGovernanceConfig :: GovernanceConfig where
  "zeroGovernanceConfig = \<lparr>gcThresholds = zeroThresholds, gcEvalConfig = zeroEvalConfig\<rparr>"

definition unmarshalGovernance :: "string \<Rightarrow> GovernanceConfig option" where
  "unmarshalGovernance s =
     (case parseJson s of
        None \<Rightarrow> None
      | Some j \<Rightarrow>
          (let (c, ok) = decodeStruct governanceFields j zeroGovernanceConfig
           in if ok then Some c else None))"

definition omitEmpty :: "(string \<times> int64) list \<Rightarrow> (string \<times> json) list" where
  "omitEmpty fs = map (\<lambda>(k, w). (k, JNum (formatInt (sint w)))) (filter (\<lambda>(_, w). w \<noteq> 0) fs)"

definition jsonThresholds :: "Thresholds \<Rightarrow> json" where
  "jsonThresholds t = JObj (omitEmpty
     [(''maxNcclLatencyUs'', MaxNCCLLatencyUs t),
      (''maxJitterUs'', MaxJitterUs t),
      (''minP2PBandwidthGbps'', MinP2PBandwidthGbps t),
      (''minHbmBandwidthGbps'', MinHbmBandwidthGbps t)])"

definition jsonEvalConfig :: "EvalConfig \<Rightarrow> json" where
  "jsonEvalConfig e = JObj (omitEmpty
     [(''windowSize'', WindowSize e), (''errorCountLimit'', ErrorCountLimit e)])"

definition jsonGovernance :: "GovernanceConfig \<Rightarrow> json" where
  "jsonGovernance c = JObj
     [(''thresholds'', jsonThresholds (gcThresholds c)),
      (''evalConfig'', jsonEvalConfig (gcEvalConfig c))]"

definition marshalGovernance :: "GovernanceConfig \<Rightarrow> string" where
  "marshalGovernance c = jsonPrint (jsonGovernance c)"

section \<open>Marshalling and unmarshalling fit\<close>

lemma wf_omitEmpty: "list_all (\<lambda>(k, v). wf_json v) (omitEmpty fs)"
  by (auto simp: omitEmpty_def list_all_iff)

lemma wf_jsonGovernance: "wf_json (jsonGovernance c)"
  by (simp add: jsonGovernance_def jsonThresholds_def jsonEvalConfig_def wf_omitEmpty)

lemma jdepth_omitEmpty: "foldr max (map (\<lambda>(k, v). jdepth v) (omitEmpty fs)) 0 = 0"
  by (induction fs) (auto simp: omitEmpty_def)

lemma jdepth_jsonGovernance: "jdepth (jsonGovernance c) = 2"
  by (simp add: jsonGovernance_def jsonThresholds_def jsonEvalConfig_def jdepth_omitEmpty)

lemma parseJson_marshalGovernance: "parseJson (marshalGovernance c) = Some (jsonGovernance c)"
  unfolding marshalGovernance_def
  by (rule parseJson_jsonPrint)
    (simp_all add: wf_jsonGovernance jdepth_jsonGovernance maxNestingDepth_def)

lemma decodeInt64_formatInt [simp]: "decodeInt64 (JNum (formatInt (sint w))) old = (w, True)"
  by (simp add: decodeInt64_def ParseInt_formatInt)

lemma lookupField_exact: "map_of fds k = Some d \<Longrightarrow> lookupField fds k = Some d"
  by (simp add: lookupField_def)

lemma decodeMembers_Cons_exact:
  assumes "map_of fds k = Some d" "d v s = (s', True)"
  shows "decodeMembers fds ((k, v) # kvs) s = decodeMembers fds kvs s'"
  using assms by (simp add: lookupField_exact split: prod.splits)

lemma omitEmpty_Cons:
  "omitEmpty ((k, w) # fs) = (if w = 0 then omitEmpty fs else (k, JNum (formatInt (sint w))) # omitEmpty fs)"
  "omitEmpty [] = []"
  by (simp_all add: omitEmpty_def)

text \<open>One member of the zero struct's decoding: an omitted zero leaves the zero that is there.\<close>

lemma decodeMembers_omitEmpty:
  assumes "map_of fds k = Some (onField get upd decodeInt64)"
    and "w = 0 \<Longrightarrow> upd (\<lambda>_. 0) s = s"
  shows "decodeMembers fds (omitEmpty ((k, w) # fs)) s = decodeMembers fds (omitEmpty fs) (upd (\<lambda>_. w) s)"
proof (cases "w = 0")
  case True
  with assms(2) show ?thesis by (simp add: omitEmpty_Cons)
next
  case False
  have "onField get upd decodeInt64 (JNum (formatInt (sint w))) s = (upd (\<lambda>_. w) s, True)"
    by (simp add: onField_def)
  with False assms(1) show ?thesis
    by (simp add: omitEmpty_Cons decodeMembers_Cons_exact del: decodeMembers.simps(2))
qed

lemma decode_jsonThresholds:
  "decodeStruct thresholdsFields (jsonThresholds t) zeroThresholds = (t, True)"
  by (simp add: decodeStruct_def jsonThresholds_def thresholdsFields_def zeroThresholds_def
      decodeMembers_omitEmpty omitEmpty_Cons(2))

lemma decode_jsonEvalConfig:
  "decodeStruct evalConfigFields (jsonEvalConfig e) zeroEvalConfig = (e, True)"
  by (simp add: decodeStruct_def jsonEvalConfig_def evalConfigFields_def zeroEvalConfig_def
      decodeMembers_omitEmpty omitEmpty_Cons(2))

lemma decodeStruct_JObj: "decodeStruct fds (JObj kvs) s = decodeMembers fds kvs s"
  by (simp add: decodeStruct_def)

lemma unmarshal_marshal: "unmarshalGovernance (marshalGovernance c) = Some c"
proof -
  have "decodeStruct governanceFields (jsonGovernance c) zeroGovernanceConfig = (c, True)"
    by (simp add: jsonGovernance_def governanceFields_def decodeStruct_JObj
        zeroGovernanceConfig_def decodeMembers_Cons_exact onField_def
        decode_jsonThresholds decode_jsonEvalConfig lookupField_exact)
  then show ?thesis
    by (simp add: unmarshalGovernance_def parseJson_marshalGovernance)
qed

end
