(* ===== verification/Kube_Types.thy ===== *)
theory Kube_Types
  imports Prelude
begin

text \<open>
  The Kubernetes objects the program reads and writes (\<open>k8s.io/api/core/v1\<close>), with the fields its
  code touches. A nil annotation map is \<open>None\<close>: reading it gives no value, writing it would panic.
  Sources of environment variables and volumes other than the ones the operator creates are opaque.
\<close>

datatype EnvVarSource = FieldRef string | OtherSource string

record EnvVar =
  EnvName :: string
  EnvValue :: string
  EnvValueFrom :: "EnvVarSource option"

record VolumeMount =
  VmName :: string
  MountPath :: string
  ReadOnly :: bool

datatype VolumeSource = HostPath string | OtherVolume string

record Volume =
  VolName :: string
  VolSource :: VolumeSource

record Container =
  CName :: string
  Image :: string
  Command :: "string list"
  CEnv :: "EnvVar list"
  Limits :: "(string, string) gomap"
  VolumeMounts :: "VolumeMount list"

record Pod =
  Name :: string
  Namespace :: string
  Labels :: "(string, string) gomap"
  Annotations :: "(string, string) gomap option"
  NodeName :: string
  Containers :: "Container list"
  InitContainers :: "Container list"
  Volumes :: "Volume list"

record Taint =
  TaintKey :: string
  TaintValue :: string
  TaintEffect :: string

record Node =
  NName :: string
  NLabels :: "(string, string) gomap"
  Taints :: "Taint list"

definition annotation :: "Pod \<Rightarrow> string \<Rightarrow> string option" where
  "annotation pod k = (case Annotations pod of None \<Rightarrow> None | Some m \<Rightarrow> map_of m k)"

definition setAnnotation :: "string \<Rightarrow> string \<Rightarrow> Pod \<Rightarrow> Pod" where
  "setAnnotation k v pod =
     pod\<lparr>Annotations := Some (AList.update k v (case Annotations pod of None \<Rightarrow> [] | Some m \<Rightarrow> m))\<rparr>"

lemma annotation_setAnnotation:
  "annotation (setAnnotation k v pod) k' = (if k' = k then Some v else annotation pod k')"
  by (simp add: annotation_def setAnnotation_def go_map_simps split: option.split)

lemma setAnnotation_frame [simp]:
  "Name (setAnnotation k v pod) = Name pod"
  "Namespace (setAnnotation k v pod) = Namespace pod"
  "Labels (setAnnotation k v pod) = Labels pod"
  "NodeName (setAnnotation k v pod) = NodeName pod"
  "Containers (setAnnotation k v pod) = Containers pod"
  "InitContainers (setAnnotation k v pod) = InitContainers pod"
  "Volumes (setAnnotation k v pod) = Volumes pod"
  by (simp_all add: setAnnotation_def)

lemma annotation_frame [simp]:
  "annotation (pod\<lparr>Volumes := vs\<rparr>) k = annotation pod k"
  "annotation (pod\<lparr>Containers := cs\<rparr>) k = annotation pod k"
  "annotation (pod\<lparr>InitContainers := cs\<rparr>) k = annotation pod k"
  by (simp_all add: annotation_def)

end
