(* ===== verification/Go_Action.thy ===== *)
theory Go_Action
  imports Prelude
begin

text \<open>
  Operations on the state of a service that the program calls (the API server, the file system): a
  function of the service's state that returns an error or a result and the new state. The state's
  type is a parameter, so that nothing is assumed about what else changes it. \<open>handling\<close> is Go's
  \<open>if err != nil\<close>. \<open>hoare\<close> is a triple for such operations and \<open>keeps\<close> the preservation of a
  predicate, with one rule per construct.
\<close>

section \<open>Actions\<close>

type_synonym ('c, 'a) action = "'c \<Rightarrow> (goError + 'a) \<times> 'c"

definition return :: "'a \<Rightarrow> ('c, 'a) action" where
  "return a s = (Inr a, s)"

definition fail :: "goError \<Rightarrow> ('c, 'a) action" where
  "fail err s = (Inl err, s)"

definition handling ::
  "('c, 'a) action \<Rightarrow> (goError \<Rightarrow> ('c, 'b) action) \<Rightarrow> ('a \<Rightarrow> ('c, 'b) action) \<Rightarrow> ('c, 'b) action" where
  "handling m onErr f s = (case m s of (Inl err, s') \<Rightarrow> onErr err s' | (Inr a, s') \<Rightarrow> f a s')"

section \<open>Triples\<close>

definition hoare :: "('c \<Rightarrow> bool) \<Rightarrow> ('c, 'a) action \<Rightarrow> (goError + 'a \<Rightarrow> 'c \<Rightarrow> bool) \<Rightarrow> bool" where
  "hoare P m Q \<longleftrightarrow> (\<forall>s. P s \<longrightarrow> (case m s of (r, s') \<Rightarrow> Q r s'))"

lemma hoareD: "hoare P m Q \<Longrightarrow> P s \<Longrightarrow> m s = (r, s') \<Longrightarrow> Q r s'"
  by (auto simp: hoare_def)

lemma hoare_weaken:
  "hoare P m Q \<Longrightarrow> (\<And>s. P' s \<Longrightarrow> P s) \<Longrightarrow> (\<And>r s. Q r s \<Longrightarrow> Q' r s) \<Longrightarrow> hoare P' m Q'"
  by (fastforce simp: hoare_def)

lemma hoare_return: "(\<And>s. P s \<Longrightarrow> Q (Inr a) s) \<Longrightarrow> hoare P (return a) Q"
  by (simp add: hoare_def return_def)

lemma hoare_fail: "(\<And>s. P s \<Longrightarrow> Q (Inl e) s) \<Longrightarrow> hoare P (fail e) Q"
  by (simp add: hoare_def fail_def)

lemma hoare_handling:
  assumes "hoare P m R" "\<And>e. hoare (R (Inl e)) (h e) Q" "\<And>a. hoare (R (Inr a)) (f a) Q"
  shows "hoare P (handling m h f) Q"
  unfolding hoare_def
proof (intro allI impI)
  fix s assume "P s"
  obtain x s' where m: "m s = (x, s')" by fastforce
  with assms(1) \<open>P s\<close> have "R x s'" by (rule hoareD)
  with m assms(2,3) show "case handling m h f s of (r, s') \<Rightarrow> Q r s'"
    by (cases x) (auto simp: handling_def hoare_def)
qed

lemma hoare_if:
  "(b \<Longrightarrow> hoare P m Q) \<Longrightarrow> (\<not> b \<Longrightarrow> hoare P k Q) \<Longrightarrow> hoare P (if b then m else k) Q"
  by simp

lemma hoare_option:
  "(x = None \<Longrightarrow> hoare P n Q) \<Longrightarrow> (\<And>a. x = Some a \<Longrightarrow> hoare P (f a) Q) \<Longrightarrow>
   hoare P (case x of None \<Rightarrow> n | Some a \<Rightarrow> f a) Q"
  by (cases x) simp_all

text \<open>Preservation of a predicate, whatever the outcome.\<close>

definition keeps :: "('c \<Rightarrow> bool) \<Rightarrow> ('c, 'a) action \<Rightarrow> bool" where
  "keeps I m \<longleftrightarrow> hoare I m (\<lambda>_. I)"

lemma keepsD: "keeps I m \<Longrightarrow> I s \<Longrightarrow> I (snd (m s))"
  unfolding keeps_def hoare_def by (cases "m s") auto

lemma keeps_return: "keeps I (return a)"
  and keeps_fail: "keeps I (fail e)"
  by (simp_all add: keeps_def hoare_return hoare_fail)

lemma keeps_handling:
  "keeps I m \<Longrightarrow> (\<And>e. keeps I (h e)) \<Longrightarrow> (\<And>a. keeps I (f a)) \<Longrightarrow> keeps I (handling m h f)"
  unfolding keeps_def by (rule hoare_handling)

lemma keeps_if: "(b \<Longrightarrow> keeps I m) \<Longrightarrow> (\<not> b \<Longrightarrow> keeps I k) \<Longrightarrow> keeps I (if b then m else k)"
  by simp

lemma keeps_option:
  "(x = None \<Longrightarrow> keeps I n) \<Longrightarrow> (\<And>a. x = Some a \<Longrightarrow> keeps I (f a)) \<Longrightarrow>
   keeps I (case x of None \<Rightarrow> n | Some a \<Rightarrow> f a)"
  by (cases x) simp_all

lemmas keeps_intros = keeps_return keeps_fail keeps_handling keeps_if keeps_option

end
