(* ===== verification/Collector.thy ===== *)
theory Collector
  imports Go_Strings Go_Action
begin

text \<open>
  \<open>agent/collector/collector.go\<close>: the metric event, its 184-byte little-endian wire format as
  \<open>binary.Read\<close> decodes it, and one turn of the \<open>listen\<close> loop. The sender's side is the memory
  layout of the C++ struct in \<open>spy/include/queue.h\<close>, whose four padding bytes are arbitrary.

  The locale \<open>fixed_codec\<close> is the contract of a fixed-width field: what is encoded decodes to
  itself, whatever follows. It is interpreted on the two integer widths and the three arrays of the
  struct, and the event's round trip is assembled from these interpretations.
\<close>

section \<open>The event\<close>

definition NCCL_ALL_REDUCE :: int32 where "NCCL_ALL_REDUCE = 0"
definition CUDA_MALLOC :: int32 where "CUDA_MALLOC = 1"
definition CUDA_MEMCPY :: int32 where "CUDA_MEMCPY = 2"

record MetricEvent =
  EvType :: int32
  GPUModel :: "byte list"
  PodName :: "byte list"
  PodNamespace :: "byte list"
  DurationUs :: int64
  Count :: uint64

definition wf_event :: "MetricEvent \<Rightarrow> bool" where
  "wf_event ev \<longleftrightarrow>
     length (GPUModel ev) = 32 \<and> length (PodName ev) = 64 \<and> length (PodNamespace ev) = 64"

section \<open>Little-endian fields\<close>

fun leNat :: "byte list \<Rightarrow> nat" where
  "leNat [] = 0"
| "leNat (b # bs) = unat b + 256 * leNat bs"

fun natLe :: "nat \<Rightarrow> nat \<Rightarrow> byte list" where
  "natLe 0 k = []"
| "natLe (Suc n) k = of_nat k # natLe n (k div 256)"

definition getU32 :: "byte list \<Rightarrow> int32" where "getU32 bs = of_nat (leNat bs)"
definition getU64 :: "byte list \<Rightarrow> uint64" where "getU64 bs = of_nat (leNat bs)"
definition putU32 :: "int32 \<Rightarrow> byte list" where "putU32 w = natLe 4 (unat w)"
definition putU64 :: "uint64 \<Rightarrow> byte list" where "putU64 w = natLe 8 (unat w)"

definition slice :: "nat \<Rightarrow> nat \<Rightarrow> byte list \<Rightarrow> byte list" where
  "slice off n bs = take n (drop off bs)"

definition eventSize :: nat where
  "eventSize = 184"

definition binaryRead :: "byte list \<Rightarrow> goError + MetricEvent" where
  "binaryRead bs =
     (if bs = [] then Inl (Errorf ''EOF'')
      else if length bs < eventSize then Inl (Errorf ''unexpected EOF'')
      else Inr \<lparr>EvType = getU32 (slice 0 4 bs),
                GPUModel = slice 4 32 bs,
                PodName = slice 36 64 bs,
                PodNamespace = slice 100 64 bs,
                DurationUs = getU64 (slice 168 8 bs),
                Count = getU64 (slice 176 8 bs)\<rparr>)"

section \<open>The listen loop\<close>

definition bufSize :: nat where
  "bufSize = 1024"

definition listenOnce :: "goError + byte list \<Rightarrow> MetricEvent option" where
  "listenOnce r =
     (case r of
        Inl _ \<Rightarrow> None
      | Inr dgram \<Rightarrow>
          (let buf = take bufSize dgram in
           if length buf < 24 then None
           else (case binaryRead buf of Inl _ \<Rightarrow> None | Inr ev \<Rightarrow> Some ev)))"

fun listen :: "(goError + byte list) list \<Rightarrow> MetricEvent list" where
  "listen [] = []"
| "listen (r # rs) = (case listenOnce r of None \<Rightarrow> listen rs | Some ev \<Rightarrow> ev # listen rs)"

section \<open>Opening the socket\<close>

text \<open>
  The system calls of \<open>Start\<close> are a parameter; the goroutine it launches is the reader of
  \<open>Agent_Main\<close>. The mode \<open>0777\<close> is 511.
\<close>

record Collector =
  socketPath :: string
  MetricsChan :: "MetricEvent list"

definition NewCollector :: "string \<Rightarrow> Collector" where
  "NewCollector path = \<lparr>socketPath = path, MetricsChan = []\<rparr>"

definition collectorChanCap :: nat where
  "collectorChanCap = 1000"

record 'o SocketOs =
  StatPath :: "string \<Rightarrow> ('o, unit) action"
  RemovePath :: "string \<Rightarrow> ('o, unit) action"
  ResolveUnixAddr :: "string \<Rightarrow> ('o, string) action"
  ListenUnixgram :: "string \<Rightarrow> ('o, unit) action"
  ChmodPath :: "string \<Rightarrow> nat \<Rightarrow> ('o, unit) action"

definition StartCollector :: "'o SocketOs \<Rightarrow> Collector \<Rightarrow> ('o, unit) action" where
  "StartCollector os c =
     handling (handling (StatPath os (socketPath c)) (\<lambda>_. return ())
         (\<lambda>_. handling (RemovePath os (socketPath c)) (\<lambda>_. return ()) return)) fail
       (\<lambda>_. handling (ResolveUnixAddr os (socketPath c)) fail
          (\<lambda>addr. handling (ListenUnixgram os addr) fail
             (\<lambda>_. handling (ChmodPath os (socketPath c) 511) fail return)))"

section \<open>The sender's layout\<close>

definition spyBytes :: "byte list \<Rightarrow> MetricEvent \<Rightarrow> byte list" where
  "spyBytes pad ev =
     putU32 (EvType ev) @ GPUModel ev @ PodName ev @ PodNamespace ev @ pad @
     putU64 (DurationUs ev) @ putU64 (Count ev)"

text \<open>A name in a fixed array: its characters, then NUL bytes.\<close>

definition bytesOf :: "nat \<Rightarrow> string \<Rightarrow> byte list" where
  "bytesOf n s = map (\<lambda>c. of_nat (of_char c)) s @ replicate (n - length s) 0"

section \<open>Fixed-width fields: the contract and its instances\<close>

locale fixed_codec =
  fixes enc :: "'a \<Rightarrow> byte list"
    and dec :: "byte list \<Rightarrow> 'a"
    and width :: nat
    and valid :: "'a \<Rightarrow> bool"
  assumes enc_length: "valid x \<Longrightarrow> length (enc x) = width"
    and dec_enc: "valid x \<Longrightarrow> dec (enc x) = x"
    and enc_dec: "length bs = width \<Longrightarrow> enc (dec bs) = bs"
    and dec_valid: "length bs = width \<Longrightarrow> valid (dec bs)"
begin

lemma dec_at: "valid x \<Longrightarrow> off = length pre \<Longrightarrow> n = width \<Longrightarrow> dec (slice off n (pre @ enc x @ post)) = x"
  by (simp add: slice_def enc_length dec_enc)

lemma dec_at_end: "valid x \<Longrightarrow> off = length pre \<Longrightarrow> n = width \<Longrightarrow> dec (slice off n (pre @ enc x)) = x"
  using dec_at [of x off pre n "[]"] by simp

lemma enc_inj: "valid x \<Longrightarrow> valid y \<Longrightarrow> enc x = enc y \<Longrightarrow> x = y"
  using dec_enc by metis

end

lemma length_natLe [simp]: "length (natLe n k) = n"
  by (induction n arbitrary: k) simp_all

lemma leNat_natLe: "leNat (natLe n k) = k mod 256 ^ n"
proof (induction n arbitrary: k)
  case (Suc n)
  have "leNat (natLe (Suc n) k) = k mod 256 + 256 * (k div 256 mod 256 ^ n)"
    by (simp add: Suc unat_of_nat)
  also have "\<dots> = k mod (256 * 256 ^ n)"
    by (simp add: mod_mult2_eq)
  finally show ?case by simp
qed simp

lemma leNat_bound: "leNat bs < 256 ^ length bs"
proof (induction bs)
  case (Cons b bs)
  have "unat b < 256" using unat_lt [of b] by simp
  with Cons show ?case by simp
qed simp

lemma natLe_leNat: "length bs = n \<Longrightarrow> natLe n (leNat bs) = bs"
proof (induction bs arbitrary: n)
  case (Cons b bs)
  have "unat b < 256" using unat_lt [of b] by simp
  moreover have "(256 :: byte) = 0" by simp
  then have "(of_nat (unat b + 256 * leNat bs) :: byte) = b"
    by (simp only: of_nat_add of_nat_mult of_nat_numeral mult_zero_left) simp
  ultimately show ?case using Cons by auto
qed simp

lemma get_put32 [simp]: "getU32 (putU32 w) = w"
  using unat_lt [of w] by (simp add: getU32_def putU32_def leNat_natLe)

lemma get_put64 [simp]: "getU64 (putU64 w) = w"
  using unat_lt [of w] by (simp add: getU64_def putU64_def leNat_natLe)

lemma put_get32: "length bs = 4 \<Longrightarrow> putU32 (getU32 bs) = bs"
  using leNat_bound [of bs] by (simp add: getU32_def putU32_def unat_of_nat natLe_leNat)

lemma put_get64: "length bs = 8 \<Longrightarrow> putU64 (getU64 bs) = bs"
  using leNat_bound [of bs] by (simp add: getU64_def putU64_def unat_of_nat natLe_leNat)

lemma length_put [simp]: "length (putU32 w) = 4" "length (putU64 v) = 8"
  by (simp_all add: putU32_def putU64_def)

interpretation u32: fixed_codec putU32 getU32 4 "\<lambda>_. True"
  by unfold_locales (simp_all add: put_get32)

interpretation u64: fixed_codec putU64 getU64 8 "\<lambda>_. True"
  by unfold_locales (simp_all add: put_get64)

interpretation arr32: fixed_codec "\<lambda>bs. bs" "\<lambda>bs. bs" 32 "\<lambda>bs. length bs = 32"
  by unfold_locales simp_all

interpretation arr64: fixed_codec "\<lambda>bs. bs" "\<lambda>bs. bs" 64 "\<lambda>bs. length bs = 64"
  by unfold_locales simp_all

section \<open>Names\<close>

lemma unat_byte_of_char: "unat (of_nat (of_char c) :: byte) = of_char c"
  using nat_of_char_less_256 [of c] by (simp only: unat_of_nat) simp

lemma stringOfBytes_roundtrip: "stringOfBytes (map (\<lambda>c. of_nat (of_char c)) s) = s"
  by (simp only: stringOfBytes_def map_map comp_def unat_byte_of_char char_of_char map_ident)

lemma of_nat_of_char_zero: "(of_nat (of_char c) :: byte) = 0 \<longleftrightarrow> c = CHR 0x00"
proof -
  have "(of_nat (of_char c) :: byte) = 0 \<longleftrightarrow> of_char c = (0::nat)"
    by (simp only: unat_eq_0 [symmetric] unat_byte_of_char)
  also have "\<dots> \<longleftrightarrow> c = CHR 0x00"
    using of_char_eq_iff [where 'a = nat, of c "CHR 0x00"] by simp
  finally show ?thesis .
qed

section \<open>Round trip\<close>

lemma length_spyBytes:
  "wf_event ev \<Longrightarrow> length pad = 4 \<Longrightarrow> length (spyBytes pad ev) = eventSize"
  by (simp add: spyBytes_def wf_event_def eventSize_def)

lemma binaryRead_spyBytes:
  assumes "wf_event ev" "length pad = 4"
  shows "binaryRead (spyBytes pad ev @ extra) = Inr ev"
proof -
  let ?bs = "spyBytes pad ev @ extra"
  note len = assms [unfolded wf_event_def]
  have "getU32 (slice 0 4 ?bs) = EvType ev"
    using u32.dec_at [where x = "EvType ev" and off = 0 and pre = "[]" and n = 4] by (simp add: spyBytes_def)
  moreover have "slice 4 32 ?bs = GPUModel ev"
    using arr32.dec_at [where x = "GPUModel ev" and off = 4 and
        pre = "putU32 (EvType ev)" and n = 32] len by (simp add: spyBytes_def)
  moreover have "slice 36 64 ?bs = PodName ev"
    using arr64.dec_at [where x = "PodName ev" and off = 36 and
        pre = "putU32 (EvType ev) @ GPUModel ev" and n = 64] len
    by (simp add: spyBytes_def)
  moreover have "slice 100 64 ?bs = PodNamespace ev"
    using arr64.dec_at [where x = "PodNamespace ev" and off = 100 and
        pre = "putU32 (EvType ev) @ GPUModel ev @ PodName ev" and n = 64] len
    by (simp add: spyBytes_def)
  moreover have "getU64 (slice 168 8 ?bs) = DurationUs ev"
    using u64.dec_at [where x = "DurationUs ev" and off = 168 and
        pre = "putU32 (EvType ev) @ GPUModel ev @ PodName ev @ PodNamespace ev @ pad" and n = 8] len
    by (simp add: spyBytes_def)
  moreover have "getU64 (slice 176 8 ?bs) = Count ev"
    using u64.dec_at [where x = "Count ev" and off = 176 and
        pre = "putU32 (EvType ev) @ GPUModel ev @ PodName ev @ PodNamespace ev @ pad @ putU64 (DurationUs ev)" and n = 8] len
    by (simp add: spyBytes_def)
  moreover have "eventSize \<le> length ?bs" "?bs \<noteq> []"
    using length_spyBytes [OF assms] by (auto simp: eventSize_def)
  ultimately show ?thesis
    by (simp add: binaryRead_def)
qed

lemma binaryRead_wf: "binaryRead bs = Inr ev \<Longrightarrow> wf_event ev"
  by (auto simp: binaryRead_def wf_event_def slice_def eventSize_def split: if_splits)

lemma listenOnce_Some_iff:
  "listenOnce (Inr d) = Some ev \<longleftrightarrow> eventSize \<le> length d \<and> binaryRead (take bufSize d) = Inr ev"
  by (auto simp: listenOnce_def Let_def binaryRead_def eventSize_def bufSize_def split: sum.splits if_splits)

lemma listen_append: "listen (rs @ qs) = listen rs @ listen qs"
  by (induction rs) (auto split: option.splits)

end
