(* ===== verification/Go_Time.thy ===== *)
theory Go_Time
  imports Prelude
begin

text \<open>
  Go's \<open>time\<close> package as far as the agent uses it. A \<open>time.Time\<close> is the number of nanoseconds
  since the zero \<open>Time\<close> (1 January of year 1), an unbounded integer; a \<open>time.Duration\<close> is an
  \<open>int64\<close> count of nanoseconds, kept at its width because the products
  \<open>time.Duration(sec) * time.Second\<close> and \<open>-windowSize * RecoveryMultiplier\<close> wrap around.
\<close>

type_synonym Time = int
type_synonym Duration = int64

definition Second :: Duration where
  "Second = 1000000000"

definition zeroTime :: Time where
  "zeroTime = 0"

definition Add :: "Time \<Rightarrow> Duration \<Rightarrow> Time" where
  "Add t d = t + sint d"

definition After :: "Time \<Rightarrow> Time \<Rightarrow> bool" where
  "After t u \<longleftrightarrow> u < t"

definition Before :: "Time \<Rightarrow> Time \<Rightarrow> bool" where
  "Before t u \<longleftrightarrow> t < u"

definition IsZero :: "Time \<Rightarrow> bool" where
  "IsZero t \<longleftrightarrow> t = zeroTime"

definition seconds :: "int64 \<Rightarrow> Duration" where
  "seconds s = s * Second"

lemmas time_defs = zeroTime_def Add_def After_def Before_def IsZero_def

text \<open>
  The products are exact up to 9223372036 seconds (292 years), and a window of up to 3074457345
  seconds (97 years) can be tripled and negated without wrapping.
\<close>

lemma sint_word_of_int_exact:
  assumes "- (2 ^ 63) \<le> i" "i < 2 ^ 63"
  shows "sint (word_of_int i :: int64) = i"
  using assms by (simp add: signed_of_int signed_take_bit_int_eq_self)

lemma sint_mult_exact:
  fixes a b :: int64
  assumes "- (2 ^ 63) \<le> sint a * sint b" "sint a * sint b < 2 ^ 63"
  shows "sint (a * b) = sint a * sint b"
proof -
  have "a * b = word_of_int (sint a * sint b)" by simp
  with sint_word_of_int_exact [OF assms] show ?thesis by metis
qed

lemma sint_uminus_exact:
  fixes a :: int64
  assumes "- (2 ^ 63) < sint a"
  shows "sint (- a) = - sint a"
proof -
  have "- a = word_of_int (- sint a)" by simp
  moreover have "- (2 ^ 63) \<le> - sint a" "- sint a < 2 ^ 63"
    using assms sint_lt [of a] by simp_all
  ultimately show ?thesis using sint_word_of_int_exact by metis
qed

lemma sint_Second [simp]: "sint Second = 1000000000"
  by (simp add: Second_def)

lemma sint_seconds:
  assumes "0 \<le> sint s" "sint s \<le> 9223372036"
  shows "sint (seconds s) = sint s * 1000000000"
  using sint_mult_exact [of s Second] assms by (simp add: seconds_def)

end
