(* ===== verification/Evaluator.thy ===== *)
theory Evaluator
  imports Api_Types Kube_Types Collector Go_Time
begin

text \<open>
  \<open>agent/collector/evaluator.go\<close>: the sliding-window health evaluator of the agent.

  The record \<open>HealthEvaluator\<close> is the Go struct. The Kubernetes API server is a parameter: an
  \<open>AgentApi\<close> holds the answers it gives while one operation runs, and the patches the agent sends
  are returned as a list of \<open>PatchPod\<close> calls (the code only logs their outcome). Every call of
  \<open>time.Now()\<close> is an argument. \<open>processEvent\<close> is written as the composition of its three critical
  sections \<open>peBegin\<close>, \<open>peFetch\<close>, \<open>peEval\<close>, so that \<open>Evaluator_Runs\<close> can interleave the
  synchronisation goroutine between them. Log output is not modelled.
\<close>

section \<open>State\<close>

definition RecoveryMultiplier :: Duration where
  "RecoveryMultiplier = 3"

definition GovernanceConfigAnnotation :: string where
  "GovernanceConfigAnnotation = ''compute-sentry.aiguard.io/governance-config''"

definition HealthAnnotation :: string where
  "HealthAnnotation = ''compute-sentry.aiguard.io/health''"

record HealthEvaluator =
  windowSize :: Duration
  errorCountLimit :: int64
  thresholdUs :: int64
  violationTimes :: "(string, Time list) gomap"
  lastSeenTimes :: "(string, Time) gomap"
  unhealthyPods :: "(string, bool) gomap"
  podConfigs :: "(string, GovernanceConfig) gomap"
  k8sClient :: bool
  nodeName :: string
  metricsChan :: "MetricEvent list"
  stopChan :: bool

text \<open>
  \<open>k8sClient\<close> says whether the client pointer is non-nil, \<open>stopChan\<close> whether the channel was closed.
\<close>

record AgentApi =
  apiGetPod :: "string \<Rightarrow> string \<Rightarrow> goError + Pod"
  apiListPods :: "string \<Rightarrow> goError + Pod list"

datatype PatchCall = PatchPod string string string

definition NewHealthEvaluator :: "int64 \<Rightarrow> int64 \<Rightarrow> int64 \<Rightarrow> HealthEvaluator" where
  "NewHealthEvaluator windowSizeSec limit threshold =
     \<lparr>windowSize = seconds windowSizeSec, errorCountLimit = limit, thresholdUs = threshold,
      violationTimes = [], lastSeenTimes = [], unhealthyPods = [], podConfigs = [],
      k8sClient = False, nodeName = [], metricsChan = [], stopChan = False\<rparr>"

definition metricsChanCap :: nat where
  "metricsChanCap = 1000"

section \<open>Helpers\<close>

definition bytesToString :: "byte list \<Rightarrow> string" where
  "bytesToString b =
     (case IndexByte b 0 of None \<Rightarrow> stringOfBytes b | Some n \<Rightarrow> stringOfBytes (take n b))"

definition podKeyOf :: "string \<Rightarrow> string \<Rightarrow> string" where
  "podKeyOf podNamespace podName = podNamespace @ ''/'' @ podName"

definition healthPatch :: "string \<Rightarrow> string" where
  "healthPatch status = jsonPrint
     (JObj [(''metadata'', JObj [(''annotations'', JObj [(HealthAnnotation, JStr status)])])])"

definition markPodStatus :: "HealthEvaluator \<Rightarrow> string \<Rightarrow> string \<Rightarrow> string \<Rightarrow> PatchCall list" where
  "markPodStatus e podName podNamespace status =
     (if \<not> k8sClient e \<or> podName = '''' \<or> podName = ''unknown'' then []
      else [PatchPod podNamespace podName (healthPatch status)])"

fun countAfter :: "Time \<Rightarrow> Time list \<Rightarrow> nat" where
  "countAfter cutoff [] = 0"
| "countAfter cutoff (t # ts) = (if After t cutoff then 1 else 0) + countAfter cutoff ts"

definition countViolationsLocked :: "Time \<Rightarrow> string \<Rightarrow> Duration \<Rightarrow> HealthEvaluator \<Rightarrow> nat" where
  "countViolationsLocked now podKey window e =
     countAfter (Add now (- window)) (mapIndex [] (violationTimes e) podKey)"

section \<open>Governance configuration cache\<close>

definition fetchAndCachePodConfig ::
  "AgentApi \<Rightarrow> string \<Rightarrow> string \<Rightarrow> HealthEvaluator \<Rightarrow> GovernanceConfig option \<times> HealthEvaluator" where
  "fetchAndCachePodConfig api podNamespace podName e =
     (if \<not> k8sClient e then (None, e)
      else case apiGetPod api podNamespace podName of
        Inl _ \<Rightarrow> (None, e)
      | Inr pod \<Rightarrow>
          (case annotation pod GovernanceConfigAnnotation of
             None \<Rightarrow> (None, e)
           | Some configStr \<Rightarrow>
               (case unmarshalGovernance configStr of
                  None \<Rightarrow> (None, e)
                | Some config \<Rightarrow>
                    (Some config,
                     e\<lparr>podConfigs := AList.update (podKeyOf podNamespace podName) config (podConfigs e)\<rparr>))))"

fun syncPods :: "Pod list \<Rightarrow> (string, GovernanceConfig) gomap \<Rightarrow> (string, GovernanceConfig) gomap" where
  "syncPods [] m = m"
| "syncPods (pod # pods) m =
     syncPods pods
       (case annotation pod GovernanceConfigAnnotation of
          None \<Rightarrow> m
        | Some configStr \<Rightarrow>
            (case unmarshalGovernance configStr of
               None \<Rightarrow> m
             | Some config \<Rightarrow> AList.update (podKeyOf (Namespace pod) (Name pod)) config m))"

definition syncNodePods :: "AgentApi \<Rightarrow> HealthEvaluator \<Rightarrow> HealthEvaluator" where
  "syncNodePods api e =
     (if \<not> k8sClient e \<or> nodeName e = '''' \<or> nodeName e = ''unknown'' then e
      else case apiListPods api (''spec.nodeName='' @ nodeName e) of
        Inl _ \<Rightarrow> e
      | Inr pods \<Rightarrow> e\<lparr>podConfigs := syncPods pods (podConfigs e)\<rparr>)"

section \<open>Processing one event\<close>

definition evaluates :: "MetricEvent \<Rightarrow> bool" where
  "evaluates event \<longleftrightarrow>
     EvType event = NCCL_ALL_REDUCE \<and>
     bytesToString (PodName event) \<noteq> '''' \<and> bytesToString (PodName event) \<noteq> ''unknown''"

definition eventKey :: "MetricEvent \<Rightarrow> string" where
  "eventKey event = podKeyOf (bytesToString (PodNamespace event)) (bytesToString (PodName event))"

definition peBegin ::
  "Time \<Rightarrow> MetricEvent \<Rightarrow> HealthEvaluator \<Rightarrow> GovernanceConfig option \<times> HealthEvaluator" where
  "peBegin now event e =
     (map_of (podConfigs e) (eventKey event),
      e\<lparr>lastSeenTimes := AList.update (eventKey event) now (lastSeenTimes e)\<rparr>)"

definition peFetch ::
  "AgentApi \<Rightarrow> MetricEvent \<Rightarrow> GovernanceConfig option \<Rightarrow> HealthEvaluator \<Rightarrow>
   GovernanceConfig option \<times> HealthEvaluator" where
  "peFetch api event cached e =
     (case cached of
        Some config \<Rightarrow> (Some config, e)
      | None \<Rightarrow> fetchAndCachePodConfig api (bytesToString (PodNamespace event))
                  (bytesToString (PodName event)) e)"

definition limits ::
  "GovernanceConfig option \<Rightarrow> HealthEvaluator \<Rightarrow> int64 \<times> Duration \<times> int64" where
  "limits config e =
     (case config of
        None \<Rightarrow> (thresholdUs e, windowSize e, errorCountLimit e)
      | Some c \<Rightarrow> (MaxNCCLLatencyUs (gcThresholds c), seconds (WindowSize (gcEvalConfig c)),
                   ErrorCountLimit (gcEvalConfig c)))"

definition peEval ::
  "Time \<Rightarrow> Time \<Rightarrow> MetricEvent \<Rightarrow> GovernanceConfig option \<Rightarrow> HealthEvaluator \<Rightarrow>
   HealthEvaluator \<times> PatchCall list" where
  "peEval now now2 event config e =
     (let podKey = eventKey event; (threshold, window, limit) = limits config e in
      if sint threshold < sint (DurationUs event) then
        (let e1 = e\<lparr>violationTimes := AList.update podKey
                       (mapIndex [] (violationTimes e) podKey @ [now]) (violationTimes e)\<rparr>;
             violations = countViolationsLocked now2 podKey window e1
         in if sint limit < int violations \<and> \<not> mapIndex False (unhealthyPods e1) podKey
            then (e1\<lparr>unhealthyPods := AList.update podKey True (unhealthyPods e1)\<rparr>,
                  markPodStatus e1 (bytesToString (PodName event))
                    (bytesToString (PodNamespace event)) ''unhealthy'')
            else (e1, []))
      else (e, []))"

definition processEvent ::
  "AgentApi \<Rightarrow> Time \<Rightarrow> Time \<Rightarrow> MetricEvent \<Rightarrow> HealthEvaluator \<Rightarrow> HealthEvaluator \<times> PatchCall list" where
  "processEvent api now now2 event e =
     (if \<not> evaluates event then (e, [])
      else (let (cached, e1) = peBegin now event e;
                (config, e2) = peFetch api event cached e1
            in peEval now now2 event config e2))"

section \<open>Recovery and cleanup\<close>

definition podWindow :: "HealthEvaluator \<Rightarrow> string \<Rightarrow> Duration" where
  "podWindow e podKey =
     (case map_of (podConfigs e) podKey of
        None \<Rightarrow> windowSize e
      | Some config \<Rightarrow> seconds (WindowSize (gcEvalConfig config)))"

definition cutoff :: "Time \<Rightarrow> Duration \<Rightarrow> Time" where
  "cutoff now window = Add now (- window)"

definition recoveryCutoff :: "Time \<Rightarrow> Duration \<Rightarrow> Time" where
  "recoveryCutoff now window = Add now (- window * RecoveryMultiplier)"

fun scanTimes :: "Time \<Rightarrow> Time list \<Rightarrow> Time list \<Rightarrow> Time \<Rightarrow> Time list \<times> Time" where
  "scanTimes co [] valid latest = (valid, latest)"
| "scanTimes co (t # ts) valid latest =
     scanTimes co ts (if After t co then valid @ [t] else valid)
       (if After t latest then t else latest)"

fun cleanViolations ::
  "Time \<Rightarrow> HealthEvaluator \<Rightarrow> (string \<times> Time list) list \<Rightarrow>
   (string, Time list) gomap \<Rightarrow> string list \<Rightarrow> (string, Time list) gomap \<times> string list" where
  "cleanViolations now e [] m rec = (m, rec)"
| "cleanViolations now e ((podKey, ts) # rest) m rec =
     (let w = podWindow e podKey;
          (valid, latest) = scanTimes (cutoff now w) ts [] zeroTime
      in if valid = [] then
           cleanViolations now e rest (AList.delete podKey m)
             (if mapIndex False (unhealthyPods e) podKey \<and>
                 (IsZero latest \<or> Before latest (recoveryCutoff now w))
              then rec @ [podKey] else rec)
         else cleanViolations now e rest (AList.update podKey valid m) rec)"

fun cleanStale :: "Time \<Rightarrow> (string \<times> Time) list \<Rightarrow> HealthEvaluator \<Rightarrow> HealthEvaluator" where
  "cleanStale now [] e = e"
| "cleanStale now ((podKey, lastSeen) # rest) e =
     cleanStale now rest
       (if Before lastSeen (recoveryCutoff now (podWindow e podKey))
        then e\<lparr>lastSeenTimes := AList.delete podKey (lastSeenTimes e),
               unhealthyPods := AList.delete podKey (unhealthyPods e),
               podConfigs := AList.delete podKey (podConfigs e)\<rparr>
        else e)"

fun recoverPods :: "string list \<Rightarrow> HealthEvaluator \<Rightarrow> HealthEvaluator \<times> PatchCall list" where
  "recoverPods [] e = (e, [])"
| "recoverPods (podKey # rest) e =
     (case Split CHR ''/'' podKey of
        [ns, name] \<Rightarrow>
          (let ps = markPodStatus e name ns ''healthy'';
               (e', qs) = recoverPods rest (e\<lparr>unhealthyPods := AList.delete podKey (unhealthyPods e)\<rparr>)
           in (e', ps @ qs))
      | _ \<Rightarrow> recoverPods rest e)"

text \<open>The first critical section of a tick; it returns the pods to recover.\<close>

definition cleanupSection :: "Time \<Rightarrow> HealthEvaluator \<Rightarrow> string list \<times> HealthEvaluator" where
  "cleanupSection now e =
     (let (m, podsToRecover) = cleanViolations now e (violationTimes e) (violationTimes e) [];
          e1 = e\<lparr>violationTimes := m\<rparr>
      in (podsToRecover, cleanStale now (lastSeenTimes e1) e1))"

definition checkRecoveryAndCleanup ::
  "Time \<Rightarrow> HealthEvaluator \<Rightarrow> HealthEvaluator \<times> PatchCall list" where
  "checkRecoveryAndCleanup now e =
     (let (podsToRecover, e') = cleanupSection now e in recoverPods podsToRecover e')"

section \<open>Starting, stopping and setters\<close>

text \<open>
  \<open>Start\<close> takes the outcomes of \<open>rest.InClusterConfig\<close> and \<open>kubernetes.NewForConfig\<close>; launching
  the two goroutines is the initial state of \<open>Evaluator_Runs\<close>.
\<close>

definition Start ::
  "goError option \<Rightarrow> goError option \<Rightarrow> AgentApi \<Rightarrow> string \<Rightarrow> HealthEvaluator \<Rightarrow>
   goError option \<times> HealthEvaluator" where
  "Start inClusterConfig newForConfig api node e =
     (let e1 = e\<lparr>nodeName := node\<rparr> in
      case inClusterConfig of
        Some err \<Rightarrow> (Some (Formatv ''failed to get in-cluster config: '' err), e1)
      | None \<Rightarrow>
          (case newForConfig of
             Some err \<Rightarrow> (Some (Formatv ''failed to create clientset: '' err), e1)
           | None \<Rightarrow> (None, syncNodePods api (e1\<lparr>k8sClient := True\<rparr>))))"

text \<open>Closing a channel a second time panics.\<close>

definition Stop :: "HealthEvaluator \<Rightarrow> HealthEvaluator option" where
  "Stop e = (if stopChan e then None else Some (e\<lparr>stopChan := True\<rparr>))"

definition SetK8sClient :: "bool \<Rightarrow> HealthEvaluator \<Rightarrow> HealthEvaluator" where
  "SetK8sClient c e = e\<lparr>k8sClient := c\<rparr>"

definition SetNodeName :: "string \<Rightarrow> HealthEvaluator \<Rightarrow> HealthEvaluator" where
  "SetNodeName n e = e\<lparr>nodeName := n\<rparr>"

end
