(* ===== verification/Evaluator_Facts.thy ===== *)
theory Evaluator_Facts
  imports Evaluator
begin

text \<open>
  What each operation of the health evaluator computes, stated over lookups so that the order in
  which Go visits its maps does not matter: the loops of \<open>checkRecoveryAndCleanup\<close> are reduced to
  filters (\<open>prune\<close>, \<open>recovers\<close>, \<open>stale\<close>), the three sections of \<open>processEvent\<close> to one equation per
  field. The runs of \<open>Evaluator_Runs\<close> and the properties rest on these facts.
\<close>

section \<open>Reference forms of the loops\<close>

definition prune :: "Time \<Rightarrow> Duration \<Rightarrow> Time list \<Rightarrow> Time list" where
  "prune now w ts = filter (\<lambda>t. After t (cutoff now w)) ts"

definition latestOf :: "Time list \<Rightarrow> Time" where
  "latestOf ts = fold max ts zeroTime"

definition recovers :: "Time \<Rightarrow> HealthEvaluator \<Rightarrow> string \<Rightarrow> Time list \<Rightarrow> bool" where
  "recovers now e k ts \<longleftrightarrow>
     prune now (podWindow e k) ts = [] \<and> mapIndex False (unhealthyPods e) k \<and>
     (IsZero (latestOf ts) \<or> Before (latestOf ts) (recoveryCutoff now (podWindow e k)))"

definition stale :: "Time \<Rightarrow> HealthEvaluator \<Rightarrow> string \<Rightarrow> bool" where
  "stale now e k \<longleftrightarrow>
     (case map_of (lastSeenTimes e) k of
        None \<Rightarrow> False
      | Some ls \<Rightarrow> Before ls (recoveryCutoff now (podWindow e k)))"

definition recovering :: "Time \<Rightarrow> HealthEvaluator \<Rightarrow> string list" where
  "recovering now e = map fst (filter (\<lambda>(k, ts). recovers now e k ts) (violationTimes e))"

definition wf_evaluator :: "HealthEvaluator \<Rightarrow> bool" where
  "wf_evaluator e \<longleftrightarrow>
     wf_map (violationTimes e) \<and> wf_map (lastSeenTimes e) \<and>
     wf_map (unhealthyPods e) \<and> wf_map (podConfigs e)"

definition healthyPatches :: "HealthEvaluator \<Rightarrow> string \<Rightarrow> PatchCall list" where
  "healthyPatches e k =
     (case Split CHR ''/'' k of [ns, name] \<Rightarrow> markPodStatus e name ns ''healthy'' | _ \<Rightarrow> [])"

section \<open>Scanning and counting\<close>

lemma scanTimes_eq:
  "scanTimes co ts valid latest = (valid @ filter (\<lambda>t. After t co) ts, fold max ts latest)"
proof (induction ts arbitrary: valid latest)
  case (Cons t ts)
  have "(if After t latest then t else latest) = max t latest"
    by (simp add: After_def max_def)
  with Cons show ?case by simp
qed simp

lemma countAfter_eq: "countAfter co ts = length (filter (\<lambda>t. After t co) ts)"
  by (induction ts) simp_all

lemma countViolations_prune:
  "countViolationsLocked now k w e = length (prune now w (mapIndex [] (violationTimes e) k))"
  by (simp add: countViolationsLocked_def countAfter_eq prune_def cutoff_def)

lemma prune_append: "prune now w (xs @ ys) = prune now w xs @ prune now w ys"
  by (simp add: prune_def)

lemma prune_prune: "now \<le> now2 \<Longrightarrow> prune now2 w (prune now w ts) = prune now2 w ts"
  by (auto simp: prune_def cutoff_def time_defs intro!: filter_cong)

lemma prune_subset: "set (prune now w ts) \<subseteq> set ts"
  by (auto simp: prune_def)

lemma latestOf_ge: "t \<in> set ts \<Longrightarrow> t \<le> latestOf ts"
proof -
  have "t \<in> set ts \<Longrightarrow> t \<le> fold max ts z" and "z \<le> fold max ts z" for z
    by (induction ts arbitrary: z) (auto intro: order_trans [OF max.cobounded2] order_trans [OF max.cobounded1])
  then show "t \<in> set ts \<Longrightarrow> t \<le> latestOf ts" by (simp add: latestOf_def)
qed

lemma latestOf_in: "latestOf ts = zeroTime \<or> latestOf ts \<in> set ts"
proof -
  have "fold max ts z = z \<or> fold max ts z \<in> set ts" for z :: Time
  proof (induction ts arbitrary: z)
    case (Cons t ts)
    from Cons [of "max t z"] show ?case by (auto simp: max_def)
  qed simp
  then show ?thesis by (simp add: latestOf_def)
qed

section \<open>One tick\<close>

lemma cleanViolations_fst:
  "wf_map xs \<Longrightarrow>
   map_of (fst (cleanViolations now e xs m rec)) k =
     (case map_of xs k of
        None \<Rightarrow> map_of m k
      | Some ts \<Rightarrow> (let v = prune now (podWindow e k) ts in if v = [] then None else Some v))"
  by (induction xs arbitrary: m rec)
    (auto simp: scanTimes_eq prune_def Let_def go_map_simps split: option.splits)

lemma cleanViolations_snd:
  "snd (cleanViolations now e xs m rec) = rec @ map fst (filter (\<lambda>(k, ts). recovers now e k ts) xs)"
  by (induction xs arbitrary: m rec)
    (auto simp: scanTimes_eq recovers_def prune_def latestOf_def Let_def)

lemma cleanViolations_wf: "wf_map m \<Longrightarrow> wf_map (fst (cleanViolations now e xs m rec))"
  by (induction xs arbitrary: m rec) (auto simp: Let_def wf_intros split: prod.splits)

lemma podWindow_cong:
  "windowSize e = windowSize e' \<Longrightarrow> map_of (podConfigs e) k = map_of (podConfigs e') k \<Longrightarrow>
   podWindow e k = podWindow e' k"
  by (simp add: podWindow_def cong: option.case_cong)

lemma podWindow_frame [simp]:
  "podWindow (e\<lparr>violationTimes := v\<rparr>) k = podWindow e k"
  "podWindow (e\<lparr>unhealthyPods := u\<rparr>) k = podWindow e k"
  "podWindow (e\<lparr>lastSeenTimes := l\<rparr>) k = podWindow e k"
  "podWindow (e\<lparr>metricsChan := c\<rparr>) k = podWindow e k"
  by (simp_all add: podWindow_def cong: option.case_cong)

definition dropPod :: "string \<Rightarrow> HealthEvaluator \<Rightarrow> HealthEvaluator" where
  "dropPod k e = e\<lparr>lastSeenTimes := AList.delete k (lastSeenTimes e),
                   unhealthyPods := AList.delete k (unhealthyPods e),
                   podConfigs := AList.delete k (podConfigs e)\<rparr>"

lemma dropPod_sel:
  "map_of (lastSeenTimes (dropPod k e)) k' = (if k' = k then None else map_of (lastSeenTimes e) k')"
  "map_of (unhealthyPods (dropPod k e)) k' = (if k' = k then None else map_of (unhealthyPods e) k')"
  "map_of (podConfigs (dropPod k e)) k' = (if k' = k then None else map_of (podConfigs e) k')"
  "violationTimes (dropPod k e) = violationTimes e"
  "windowSize (dropPod k e) = windowSize e"
  "k' \<noteq> k \<Longrightarrow> podWindow (dropPod k e) k' = podWindow e k'"
  by (simp_all add: dropPod_def podWindow_def go_map_simps cong: option.case_cong)

definition isStale :: "Time \<Rightarrow> (string \<times> Time) list \<Rightarrow> HealthEvaluator \<Rightarrow> string \<Rightarrow> bool" where
  "isStale now xs e k \<longleftrightarrow>
     (case map_of xs k of None \<Rightarrow> False | Some ls \<Rightarrow> Before ls (recoveryCutoff now (podWindow e k)))"

lemma cleanStale_Cons:
  "cleanStale now ((k, ls) # xs) e =
   cleanStale now xs (if Before ls (recoveryCutoff now (podWindow e k)) then dropPod k e else e)"
  by (simp add: dropPod_def)

lemma isStale_dropPod:
  "map_of xs k = None \<Longrightarrow> isStale now xs (dropPod k e) k' = isStale now xs e k'"
  by (cases "k' = k") (auto simp: isStale_def dropPod_sel cong: option.case_cong)

lemma isStale_Cons:
  "isStale now ((k, ls) # xs) e k' =
   (if k' = k then Before ls (recoveryCutoff now (podWindow e k)) else isStale now xs e k')"
  by (simp add: isStale_def)

lemma isStale_absent: "map_of xs k = None \<Longrightarrow> \<not> isStale now xs e k"
  by (simp add: isStale_def)

lemma cleanStale_sel:
  assumes "wf_map xs"
  shows "map_of (lastSeenTimes (cleanStale now xs e)) k =
           (if isStale now xs e k then None else map_of (lastSeenTimes e) k)"
    and "map_of (unhealthyPods (cleanStale now xs e)) k =
           (if isStale now xs e k then None else map_of (unhealthyPods e) k)"
    and "map_of (podConfigs (cleanStale now xs e)) k =
           (if isStale now xs e k then None else map_of (podConfigs e) k)"
  using assms
proof (induction xs arbitrary: e)
  case Nil
  { case 1 then show ?case by (simp add: isStale_def) }
  { case 2 then show ?case by (simp add: isStale_def) }
  { case 3 then show ?case by (simp add: isStale_def) }
next
  case (Cons x xs)
  obtain a ls where x: "x = (a, ls)" by (cases x)
  note simps = x cleanStale_Cons isStale_Cons isStale_dropPod isStale_absent dropPod_sel
  { case 1 then show ?case using Cons.IH(1) by (simp add: simps del: cleanStale.simps) }
  { case 2 then show ?case using Cons.IH(2) by (simp add: simps del: cleanStale.simps) }
  { case 3 then show ?case using Cons.IH(3) by (simp add: simps del: cleanStale.simps) }
qed

lemma cleanStale_frame [simp]:
  "violationTimes (cleanStale now xs e) = violationTimes e"
  "windowSize (cleanStale now xs e) = windowSize e"
  "errorCountLimit (cleanStale now xs e) = errorCountLimit e"
  "thresholdUs (cleanStale now xs e) = thresholdUs e"
  "k8sClient (cleanStale now xs e) = k8sClient e"
  "nodeName (cleanStale now xs e) = nodeName e"
  "metricsChan (cleanStale now xs e) = metricsChan e"
  "stopChan (cleanStale now xs e) = stopChan e"
  by (induction now xs e rule: cleanStale.induct) simp_all

lemma cleanStale_wf:
  "wf_map (lastSeenTimes e) \<Longrightarrow> wf_map (lastSeenTimes (cleanStale now xs e))"
  "wf_map (unhealthyPods e) \<Longrightarrow> wf_map (unhealthyPods (cleanStale now xs e))"
  "wf_map (podConfigs e) \<Longrightarrow> wf_map (podConfigs (cleanStale now xs e))"
  by (induction now xs e rule: cleanStale.induct) (simp_all add: wf_intros)

lemma markPodStatus_frame [simp]:
  "markPodStatus (e\<lparr>unhealthyPods := u\<rparr>) = markPodStatus e"
  "markPodStatus (e\<lparr>violationTimes := v\<rparr>) = markPodStatus e"
  "markPodStatus (cleanStale now xs e) = markPodStatus e"
  by (simp_all add: markPodStatus_def fun_eq_iff)

lemma healthyPatches_frame [simp]:
  "healthyPatches (e\<lparr>unhealthyPods := u\<rparr>) = healthyPatches e"
  "healthyPatches (e\<lparr>violationTimes := v\<rparr>) = healthyPatches e"
  "healthyPatches (cleanStale now xs e) = healthyPatches e"
  by (simp_all add: healthyPatches_def fun_eq_iff split: list.split)

definition twoParts :: "string \<Rightarrow> bool" where
  "twoParts k \<longleftrightarrow> length (Split CHR ''/'' k) = 2"

lemma recoverPods_Cons:
  "recoverPods (k # ks) e =
     (let (e', qs) = recoverPods ks
            (if twoParts k then e\<lparr>unhealthyPods := AList.delete k (unhealthyPods e)\<rparr> else e)
      in (e', healthyPatches e k @ qs))"
  by (auto simp: twoParts_def healthyPatches_def Let_def length_Suc_conv split: list.split)

lemma recoverPods_patches: "snd (recoverPods ks e) = concat (map (healthyPatches e) ks)"
  by (induction ks arbitrary: e) (simp_all add: recoverPods_Cons split_beta del: recoverPods.simps(2))

lemma recoverPods_unhealthy:
  "map_of (unhealthyPods (fst (recoverPods ks e))) k =
   (if k \<in> set ks \<and> twoParts k then None else map_of (unhealthyPods e) k)"
  by (induction ks arbitrary: e)
    (auto simp: recoverPods_Cons split_beta go_map_simps simp del: recoverPods.simps(2))

lemma recoverPods_frame [simp]:
  "violationTimes (fst (recoverPods ks e)) = violationTimes e"
  "lastSeenTimes (fst (recoverPods ks e)) = lastSeenTimes e"
  "podConfigs (fst (recoverPods ks e)) = podConfigs e"
  "windowSize (fst (recoverPods ks e)) = windowSize e"
  "errorCountLimit (fst (recoverPods ks e)) = errorCountLimit e"
  "thresholdUs (fst (recoverPods ks e)) = thresholdUs e"
  "k8sClient (fst (recoverPods ks e)) = k8sClient e"
  "nodeName (fst (recoverPods ks e)) = nodeName e"
  "metricsChan (fst (recoverPods ks e)) = metricsChan e"
  "stopChan (fst (recoverPods ks e)) = stopChan e"
  by (induction ks arbitrary: e) (simp_all add: recoverPods_Cons split_beta del: recoverPods.simps(2))

lemma recoverPods_wf:
  "wf_map (unhealthyPods e) \<Longrightarrow> wf_map (unhealthyPods (fst (recoverPods ks e)))"
  by (induction ks arbitrary: e)
    (simp_all add: recoverPods_Cons split_beta wf_intros del: recoverPods.simps(2))

lemma stale_isStale: "isStale now (lastSeenTimes e) (e\<lparr>violationTimes := m\<rparr>) k = stale now e k"
  by (simp add: isStale_def stale_def cong: option.case_cong)

lemmas tick_defs = checkRecoveryAndCleanup_def cleanupSection_def

text \<open>The first critical section of a tick, and the whole tick, field by field.\<close>

lemma section_unhealthy:
  assumes "wf_evaluator e"
  shows "map_of (unhealthyPods (snd (cleanupSection now e))) k =
     (if stale now e k then None else map_of (unhealthyPods e) k)"
  using assms by (simp add: cleanupSection_def split_beta Let_def cleanStale_sel stale_isStale wf_evaluator_def)

lemma section_tick:
  "violationTimes (snd (cleanupSection now e)) = violationTimes (fst (checkRecoveryAndCleanup now e))"
  "lastSeenTimes (snd (cleanupSection now e)) = lastSeenTimes (fst (checkRecoveryAndCleanup now e))"
  "metricsChan (snd (cleanupSection now e)) = metricsChan e"
  "stopChan (snd (cleanupSection now e)) = stopChan e"
  by (simp_all add: tick_defs split_beta Let_def)

lemma section_wf: "wf_evaluator e \<Longrightarrow> wf_evaluator (snd (cleanupSection now e))"
  by (simp add: wf_evaluator_def cleanupSection_def split_beta Let_def cleanViolations_wf cleanStale_wf)

lemma tick_patches:
  "snd (checkRecoveryAndCleanup now e) = concat (map (healthyPatches e) (recovering now e))"
  by (simp add: tick_defs split_beta Let_def recoverPods_patches
      cleanViolations_snd recovering_def)

lemma tick_violations:
  assumes "wf_evaluator e"
  shows "map_of (violationTimes (fst (checkRecoveryAndCleanup now e))) k =
     (case map_of (violationTimes e) k of
        None \<Rightarrow> None
      | Some ts \<Rightarrow> (let v = prune now (podWindow e k) ts in if v = [] then None else Some v))"
  using assms
  by (simp add: tick_defs split_beta Let_def cleanViolations_fst wf_evaluator_def
      split: option.split)

lemma tick_lastSeen:
  assumes "wf_evaluator e"
  shows "map_of (lastSeenTimes (fst (checkRecoveryAndCleanup now e))) k =
     (if stale now e k then None else map_of (lastSeenTimes e) k)"
  using assms
  by (simp add: tick_defs split_beta Let_def cleanStale_sel stale_isStale wf_evaluator_def)

lemma tick_podConfigs:
  assumes "wf_evaluator e"
  shows "map_of (podConfigs (fst (checkRecoveryAndCleanup now e))) k =
     (if stale now e k then None else map_of (podConfigs e) k)"
  using assms
  by (simp add: tick_defs split_beta Let_def cleanStale_sel stale_isStale wf_evaluator_def)

lemma tick_unhealthy:
  assumes "wf_evaluator e"
  shows "map_of (unhealthyPods (fst (checkRecoveryAndCleanup now e))) k =
     (if stale now e k \<or> k \<in> set (recovering now e) \<and> twoParts k then None
      else map_of (unhealthyPods e) k)"
  using assms
  by (simp add: tick_defs split_beta Let_def cleanStale_sel stale_isStale
      recoverPods_unhealthy cleanViolations_snd recovering_def wf_evaluator_def)

lemma tick_frame [simp]:
  "windowSize (fst (checkRecoveryAndCleanup now e)) = windowSize e"
  "errorCountLimit (fst (checkRecoveryAndCleanup now e)) = errorCountLimit e"
  "thresholdUs (fst (checkRecoveryAndCleanup now e)) = thresholdUs e"
  "k8sClient (fst (checkRecoveryAndCleanup now e)) = k8sClient e"
  "nodeName (fst (checkRecoveryAndCleanup now e)) = nodeName e"
  "metricsChan (fst (checkRecoveryAndCleanup now e)) = metricsChan e"
  "stopChan (fst (checkRecoveryAndCleanup now e)) = stopChan e"
  by (simp_all add: tick_defs split_beta Let_def)

lemma tick_wf: "wf_evaluator e \<Longrightarrow> wf_evaluator (fst (checkRecoveryAndCleanup now e))"
  by (simp add: wf_evaluator_def tick_defs split_beta Let_def
      cleanViolations_wf cleanStale_wf recoverPods_wf)

lemma recovering_iff:
  assumes "wf_evaluator e"
  shows "k \<in> set (recovering now e) \<longleftrightarrow>
    (\<exists>ts. map_of (violationTimes e) k = Some ts \<and> recovers now e k ts)"
proof -
  have "map_of (violationTimes e) k = Some ts \<longleftrightarrow> (k, ts) \<in> set (violationTimes e)" for ts
    using assms wf_map_lookup [of "violationTimes e" k ts] map_of_SomeD [of "violationTimes e" k ts]
    by (auto simp only: wf_evaluator_def)
  moreover have "k \<in> set (recovering now e) \<longleftrightarrow>
    (\<exists>ts. (k, ts) \<in> set (violationTimes e) \<and> recovers now e k ts)"
    by (auto simp: recovering_def image_iff)
  ultimately show ?thesis by simp
qed

section \<open>Configuration cache\<close>

lemma syncPods_wf: "wf_map m \<Longrightarrow> wf_map (syncPods pods m)"
  by (induction pods arbitrary: m) (auto simp: wf_intros split: option.split)

lemma syncNodePods_frame [simp]:
  "violationTimes (syncNodePods api e) = violationTimes e"
  "lastSeenTimes (syncNodePods api e) = lastSeenTimes e"
  "unhealthyPods (syncNodePods api e) = unhealthyPods e"
  "windowSize (syncNodePods api e) = windowSize e"
  "errorCountLimit (syncNodePods api e) = errorCountLimit e"
  "thresholdUs (syncNodePods api e) = thresholdUs e"
  "k8sClient (syncNodePods api e) = k8sClient e"
  "nodeName (syncNodePods api e) = nodeName e"
  "metricsChan (syncNodePods api e) = metricsChan e"
  "stopChan (syncNodePods api e) = stopChan e"
  by (auto simp: syncNodePods_def split: sum.split)

lemma syncNodePods_wf: "wf_evaluator e \<Longrightarrow> wf_evaluator (syncNodePods api e)"
  by (auto simp: wf_evaluator_def syncNodePods_def syncPods_wf split: sum.split)

lemma fetch_frame [simp]:
  "violationTimes (snd (fetchAndCachePodConfig api ns name e)) = violationTimes e"
  "lastSeenTimes (snd (fetchAndCachePodConfig api ns name e)) = lastSeenTimes e"
  "unhealthyPods (snd (fetchAndCachePodConfig api ns name e)) = unhealthyPods e"
  "windowSize (snd (fetchAndCachePodConfig api ns name e)) = windowSize e"
  "errorCountLimit (snd (fetchAndCachePodConfig api ns name e)) = errorCountLimit e"
  "thresholdUs (snd (fetchAndCachePodConfig api ns name e)) = thresholdUs e"
  "k8sClient (snd (fetchAndCachePodConfig api ns name e)) = k8sClient e"
  "metricsChan (snd (fetchAndCachePodConfig api ns name e)) = metricsChan e"
  "stopChan (snd (fetchAndCachePodConfig api ns name e)) = stopChan e"
  by (auto simp: fetchAndCachePodConfig_def split: sum.split option.split)

lemma fetch_wf: "wf_evaluator e \<Longrightarrow> wf_evaluator (snd (fetchAndCachePodConfig api ns name e))"
  by (auto simp: wf_evaluator_def fetchAndCachePodConfig_def wf_intros split: sum.split option.split)

lemma fetch_podConfigs:
  "map_of (podConfigs (snd (fetchAndCachePodConfig api ns name e))) k =
   (case fst (fetchAndCachePodConfig api ns name e) of
      None \<Rightarrow> map_of (podConfigs e) k
    | Some c \<Rightarrow> if k = podKeyOf ns name then Some c else map_of (podConfigs e) k)"
  by (auto simp: fetchAndCachePodConfig_def go_map_simps split: sum.split option.split)

section \<open>One event\<close>

lemma peFetch_frame [simp]:
  "violationTimes (snd (peFetch api ev c e)) = violationTimes e"
  "lastSeenTimes (snd (peFetch api ev c e)) = lastSeenTimes e"
  "unhealthyPods (snd (peFetch api ev c e)) = unhealthyPods e"
  "windowSize (snd (peFetch api ev c e)) = windowSize e"
  "errorCountLimit (snd (peFetch api ev c e)) = errorCountLimit e"
  "thresholdUs (snd (peFetch api ev c e)) = thresholdUs e"
  "k8sClient (snd (peFetch api ev c e)) = k8sClient e"
  "metricsChan (snd (peFetch api ev c e)) = metricsChan e"
  "stopChan (snd (peFetch api ev c e)) = stopChan e"
  by (simp_all add: peFetch_def split: option.split)

lemma peFetch_wf: "wf_evaluator e \<Longrightarrow> wf_evaluator (snd (peFetch api ev c e))"
  by (simp add: peFetch_def fetch_wf split: option.split)

lemma peBegin_wf: "wf_evaluator e \<Longrightarrow> wf_evaluator (snd (peBegin now ev e))"
  by (simp add: peBegin_def wf_evaluator_def wf_intros)

lemma peEval_wf: "wf_evaluator e \<Longrightarrow> wf_evaluator (fst (peEval now now2 ev c e))"
  by (auto simp: peEval_def wf_evaluator_def wf_intros Let_def split: prod.split)

lemma peEval_frame [simp]:
  "lastSeenTimes (fst (peEval now now2 ev c e)) = lastSeenTimes e"
  "podConfigs (fst (peEval now now2 ev c e)) = podConfigs e"
  "windowSize (fst (peEval now now2 ev c e)) = windowSize e"
  "errorCountLimit (fst (peEval now now2 ev c e)) = errorCountLimit e"
  "thresholdUs (fst (peEval now now2 ev c e)) = thresholdUs e"
  "k8sClient (fst (peEval now now2 ev c e)) = k8sClient e"
  "metricsChan (fst (peEval now now2 ev c e)) = metricsChan e"
  "stopChan (fst (peEval now now2 ev c e)) = stopChan e"
  by (auto simp: peEval_def Let_def split: prod.split)

lemma peEval_violations:
  "map_of (violationTimes (fst (peEval now now2 ev c e))) k =
   (if k = eventKey ev \<and> sint (fst (limits c e)) < sint (DurationUs ev)
    then Some (mapIndex [] (violationTimes e) k @ [now]) else map_of (violationTimes e) k)"
  by (auto simp: peEval_def Let_def go_map_simps split: prod.split)

text \<open>When the third section marks the pod.\<close>

definition exceeds ::
  "Time \<Rightarrow> Time \<Rightarrow> MetricEvent \<Rightarrow> GovernanceConfig option \<Rightarrow> HealthEvaluator \<Rightarrow> bool" where
  "exceeds now now2 ev c e \<longleftrightarrow>
     (let (threshold, window, limit) = limits c e in
      sint threshold < sint (DurationUs ev) \<and>
      sint limit < int (length (prune now2 window (mapIndex [] (violationTimes e) (eventKey ev) @ [now]))))"

lemma peEval_unhealthy:
  "map_of (unhealthyPods (fst (peEval now now2 ev c e))) k =
   (if k = eventKey ev \<and> exceeds now now2 ev c e \<and> \<not> mapIndex False (unhealthyPods e) k
    then Some True else map_of (unhealthyPods e) k)"
  by (auto simp: peEval_def exceeds_def Let_def go_map_simps countViolations_prune split: prod.split)

lemma peEval_patches:
  "snd (peEval now now2 ev c e) =
   (if exceeds now now2 ev c e \<and> \<not> mapIndex False (unhealthyPods e) (eventKey ev)
    then markPodStatus e (bytesToString (PodName ev)) (bytesToString (PodNamespace ev)) ''unhealthy''
    else [])"
  by (auto simp: peEval_def exceeds_def Let_def go_map_simps countViolations_prune split: prod.split)

lemma processEvent_sections:
  "evaluates ev \<Longrightarrow>
   processEvent api now now2 ev e =
     (let b = peBegin now ev e; f = peFetch api ev (fst b) (snd b)
      in peEval now now2 ev (fst f) (snd f))"
  by (simp add: processEvent_def split_beta Let_def)

lemma peBegin_sel [simp]:
  "fst (peBegin now ev e) = map_of (podConfigs e) (eventKey ev)"
  "violationTimes (snd (peBegin now ev e)) = violationTimes e"
  "unhealthyPods (snd (peBegin now ev e)) = unhealthyPods e"
  "podConfigs (snd (peBegin now ev e)) = podConfigs e"
  "windowSize (snd (peBegin now ev e)) = windowSize e"
  "errorCountLimit (snd (peBegin now ev e)) = errorCountLimit e"
  "thresholdUs (snd (peBegin now ev e)) = thresholdUs e"
  "k8sClient (snd (peBegin now ev e)) = k8sClient e"
  "metricsChan (snd (peBegin now ev e)) = metricsChan e"
  "stopChan (snd (peBegin now ev e)) = stopChan e"
  "lastSeenTimes (snd (peBegin now ev e)) = AList.update (eventKey ev) now (lastSeenTimes e)"
  by (simp_all add: peBegin_def)

section \<open>Keys\<close>

lemma Split_podKeyOf:
  assumes "CHR ''/'' \<notin> set ns" "CHR ''/'' \<notin> set name"
  shows "Split CHR ''/'' (podKeyOf ns name) = [ns, name]"
  using assms Split_append_sep [of "CHR ''/''" ns name] by (simp add: podKeyOf_def Split_no_sep)

lemma twoParts_podKeyOf:
  "CHR ''/'' \<notin> set ns \<Longrightarrow> CHR ''/'' \<notin> set name \<Longrightarrow> twoParts (podKeyOf ns name)"
  by (simp add: twoParts_def Split_podKeyOf)

lemma podKeyOf_inject:
  assumes "CHR ''/'' \<notin> set ns" "CHR ''/'' \<notin> set name" "CHR ''/'' \<notin> set ns'" "CHR ''/'' \<notin> set name'"
    and "podKeyOf ns name = podKeyOf ns' name'"
  shows "ns = ns' \<and> name = name'"
proof -
  have "[ns, name] = Split CHR ''/'' (podKeyOf ns name)"
    by (rule Split_podKeyOf [OF assms(1,2), symmetric])
  also have "\<dots> = Split CHR ''/'' (podKeyOf ns' name')"
    by (simp only: assms(5))
  also have "\<dots> = [ns', name']"
    by (rule Split_podKeyOf [OF assms(3,4)])
  finally show ?thesis by simp
qed

end
