(* ===== verification/Evaluator_Runs.thy ===== *)
theory Evaluator_Runs
  imports Evaluator_Facts Transition
begin

text \<open>
  The evaluator as it runs: the loop goroutine (\<open>runLoop\<close>), the synchronisation goroutine
  (\<open>periodicSync\<close>) and the main goroutine that feeds the channel, interleaved at the granularity of
  the mutex: a step of the loop is one critical section, with the patch that goes with it (no other
  goroutine sends patches). A tick is a first section and one more for every pod that recovers. \<open>loopPc\<close> is the program counter of the loop goroutine; the two pods-list and pod-get
  requests happen between critical sections, with whatever the API server answers at that moment.
  \<open>runSteps\<close> is the same machine driven by an explicit sequence of operations.
\<close>

section \<open>The machine\<close>

datatype loopPc =
    LIdle
  | LFetch MetricEvent Time "GovernanceConfig option"
  | LEval MetricEvent Time "GovernanceConfig option"
  | LRecover "string list"
  | LExited

datatype syncPc = SyncRunning | SyncExited

inductive periodicSync :: "syncPc \<times> HealthEvaluator \<Rightarrow> syncPc \<times> HealthEvaluator \<Rightarrow> bool" where
  sync_tick: "periodicSync (SyncRunning, e) (SyncRunning, syncNodePods api e)"
| sync_exit: "stopChan e \<Longrightarrow> periodicSync (SyncRunning, e) (SyncExited, e)"

inductive_cases periodicSync_cases: "periodicSync (p, e) (p', e')"

record sys =
  clock :: Time
  hev :: HealthEvaluator
  loop :: loopPc
  syncer :: syncPc
  patches :: "PatchCall list"

inductive sys_step :: "sys \<Rightarrow> sys \<Rightarrow> bool" where
  time_passes: "clock s \<le> t \<Longrightarrow> sys_step s (s\<lparr>clock := t\<rparr>)"
| enqueue: "length (metricsChan (hev s)) < metricsChanCap \<Longrightarrow>
    sys_step s (s\<lparr>hev := (hev s)\<lparr>metricsChan := metricsChan (hev s) @ [ev]\<rparr>\<rparr>)"
| sync: "periodicSync (syncer s, hev s) (p, e') \<Longrightarrow> sys_step s (s\<lparr>hev := e', syncer := p\<rparr>)"
| stop: "Stop (hev s) = Some e' \<Longrightarrow> sys_step s (s\<lparr>hev := e'\<rparr>)"
| loop_exit: "loop s = LIdle \<Longrightarrow> stopChan (hev s) \<Longrightarrow> sys_step s (s\<lparr>loop := LExited\<rparr>)"
| loop_skip: "loop s = LIdle \<Longrightarrow> metricsChan (hev s) = ev # rest \<Longrightarrow> \<not> evaluates ev \<Longrightarrow>
    sys_step s (s\<lparr>hev := (hev s)\<lparr>metricsChan := rest\<rparr>\<rparr>)"
| loop_begin: "loop s = LIdle \<Longrightarrow> metricsChan (hev s) = ev # rest \<Longrightarrow> evaluates ev \<Longrightarrow>
    peBegin (clock s) ev ((hev s)\<lparr>metricsChan := rest\<rparr>) = (cached, e') \<Longrightarrow>
    sys_step s (s\<lparr>hev := e', loop := LFetch ev (clock s) cached\<rparr>)"
| loop_fetch: "loop s = LFetch ev now cached \<Longrightarrow> peFetch api ev cached (hev s) = (config, e') \<Longrightarrow>
    sys_step s (s\<lparr>hev := e', loop := LEval ev now config\<rparr>)"
| loop_eval: "loop s = LEval ev now config \<Longrightarrow>
    peEval now (clock s) ev config (hev s) = (e', ps) \<Longrightarrow>
    sys_step s (s\<lparr>hev := e', loop := LIdle, patches := patches s @ ps\<rparr>)"
| loop_tick: "loop s = LIdle \<Longrightarrow> cleanupSection (clock s) (hev s) = (podsToRecover, e') \<Longrightarrow>
    sys_step s (s\<lparr>hev := e', loop := LRecover podsToRecover\<rparr>)"
| loop_recover: "loop s = LRecover (podKey # rest) \<Longrightarrow> recoverPods [podKey] (hev s) = (e', ps) \<Longrightarrow>
    sys_step s (s\<lparr>hev := e', loop := LRecover rest, patches := patches s @ ps\<rparr>)"
| loop_ticked: "loop s = LRecover [] \<Longrightarrow> sys_step s (s\<lparr>loop := LIdle\<rparr>)"

inductive_cases sys_step_cases: "sys_step s t"

definition sys_init :: "sys \<Rightarrow> bool" where
  "sys_init s \<longleftrightarrow>
     0 < clock s \<and> loop s = LIdle \<and> syncer s = SyncRunning \<and> patches s = [] \<and>
     (\<exists>win lim thr node.
        hev s = SetK8sClient True (SetNodeName node (NewHealthEvaluator win lim thr)))"

section \<open>The invariant\<close>

definition times_ok :: "Time \<Rightarrow> HealthEvaluator \<Rightarrow> bool" where
  "times_ok now e \<longleftrightarrow>
     (\<forall>k ts. map_of (violationTimes e) k = Some ts \<longrightarrow>
        ts \<noteq> [] \<and> sorted ts \<and> (\<forall>t\<in>set ts. 0 < t \<and> t \<le> now)) \<and>
     (\<forall>k t. map_of (lastSeenTimes e) k = Some t \<longrightarrow> t \<le> now)"

definition flags_ok :: "HealthEvaluator \<Rightarrow> bool" where
  "flags_ok e \<longleftrightarrow>
     (\<forall>k b. map_of (unhealthyPods e) k = Some b \<longrightarrow> b \<and> map_of (lastSeenTimes e) k \<noteq> None)"

definition loop_ok :: "sys \<Rightarrow> bool" where
  "loop_ok s \<longleftrightarrow>
     (case loop s of
        LFetch ev now c \<Rightarrow> evaluates ev \<and> 0 < now \<and> times_ok now (hev s) \<and> now \<le> clock s \<and>
          map_of (lastSeenTimes (hev s)) (eventKey ev) \<noteq> None
      | LEval ev now c \<Rightarrow> evaluates ev \<and> 0 < now \<and> times_ok now (hev s) \<and> now \<le> clock s \<and>
          map_of (lastSeenTimes (hev s)) (eventKey ev) \<noteq> None
      | _ \<Rightarrow> True)"

definition patch_ok :: "PatchCall \<Rightarrow> bool" where
  "patch_ok p \<longleftrightarrow>
     (case p of PatchPod ns name body \<Rightarrow>
        name \<noteq> '''' \<and> name \<noteq> ''unknown'' \<and>
        (body = healthPatch ''healthy'' \<or> body = healthPatch ''unhealthy''))"

definition sys_inv :: "sys \<Rightarrow> bool" where
  "sys_inv s \<longleftrightarrow>
     0 < clock s \<and> wf_evaluator (hev s) \<and> times_ok (clock s) (hev s) \<and> flags_ok (hev s) \<and> loop_ok s \<and>
     length (metricsChan (hev s)) \<le> metricsChanCap \<and> list_all patch_ok (patches s)"

section \<open>Every operation keeps it\<close>

lemma times_ok_mono: "times_ok now e \<Longrightarrow> now \<le> now' \<Longrightarrow> times_ok now' e"
  by (fastforce simp: times_ok_def)

lemma times_ok_cong:
  "violationTimes e = violationTimes e' \<Longrightarrow> lastSeenTimes e = lastSeenTimes e' \<Longrightarrow>
   times_ok now e = times_ok now e'"
  by (simp add: times_ok_def)

lemma flags_ok_cong:
  "unhealthyPods e = unhealthyPods e' \<Longrightarrow> lastSeenTimes e = lastSeenTimes e' \<Longrightarrow>
   flags_ok e = flags_ok e'"
  by (simp add: flags_ok_def)

lemma times_ok_peBegin:
  "times_ok now e \<Longrightarrow> times_ok now (snd (peBegin now ev e))"
  by (auto simp: times_ok_def go_map_simps)

lemma flags_ok_peBegin: "flags_ok e \<Longrightarrow> flags_ok (snd (peBegin now ev e))"
  by (auto simp: flags_ok_def go_map_simps)

lemma times_ok_peEval:
  assumes "times_ok now e" "0 < now"
  shows "times_ok now (fst (peEval now now2 ev c e))"
proof -
  have "sorted (mapIndex [] (violationTimes e) k @ [now]) \<and>
      (\<forall>t\<in>set (mapIndex [] (violationTimes e) k @ [now]). 0 < t \<and> t \<le> now)" for k
    using assms by (cases "map_of (violationTimes e) k")
      (auto simp: times_ok_def mapIndex_def sorted_append)
  then show ?thesis
    using assms(1) by (auto simp: times_ok_def peEval_violations split: if_splits)
qed

lemma flags_ok_peEval:
  assumes "flags_ok e" "map_of (lastSeenTimes e) (eventKey ev) \<noteq> None"
  shows "flags_ok (fst (peEval now now2 ev c e))"
  using assms by (auto simp: flags_ok_def peEval_unhealthy split: if_splits)

lemma times_ok_section:
  assumes "wf_evaluator e" "times_ok now e"
  shows "times_ok now (snd (cleanupSection now e))"
  using assms
  by (auto simp: times_ok_def section_tick tick_violations tick_lastSeen Let_def prune_def sorted_wrt_filter
      split: option.splits if_splits)

lemma flags_ok_section:
  assumes "wf_evaluator e" "flags_ok e"
  shows "flags_ok (snd (cleanupSection now e))"
  using assms by (auto simp: flags_ok_def section_unhealthy section_tick tick_lastSeen split: if_splits)

lemma flags_ok_recover: "flags_ok e \<Longrightarrow> flags_ok (fst (recoverPods ks e))"
  by (auto simp: flags_ok_def recoverPods_unhealthy split: if_splits)

lemma recoverPods_wf_evaluator: "wf_evaluator e \<Longrightarrow> wf_evaluator (fst (recoverPods ks e))"
  by (simp add: wf_evaluator_def recoverPods_wf)

lemma patch_ok_mark:
  "status = ''healthy'' \<or> status = ''unhealthy'' \<Longrightarrow> list_all patch_ok (markPodStatus e name ns status)"
  by (auto simp: markPodStatus_def patch_ok_def)

lemma patch_ok_recover: "list_all patch_ok (snd (recoverPods ks e))"
  by (auto simp: recoverPods_patches list_all_iff healthyPatches_def split: list.splits
      dest!: patch_ok_mark [of "''healthy''", unfolded list_all_iff, rule_format, rotated])

lemma patch_ok_peEval: "list_all patch_ok (snd (peEval now now2 ev c e))"
  by (simp add: peEval_patches patch_ok_mark)

lemmas sys_inv_defs = sys_inv_def loop_ok_def

lemma sys_inv_init: "sys_init s \<Longrightarrow> sys_inv s"
  by (auto simp: sys_init_def sys_inv_defs NewHealthEvaluator_def SetK8sClient_def SetNodeName_def
      wf_evaluator_def times_ok_def flags_ok_def)

lemma loop_ok_hev:
  assumes "loop_ok s" "violationTimes e = violationTimes (hev s)" "lastSeenTimes e = lastSeenTimes (hev s)"
  shows "loop_ok (s\<lparr>hev := e\<rparr>)"
  using assms times_ok_cong [of e "hev s"] by (auto simp: loop_ok_def split: loopPc.splits)

lemma sys_inv_keep:
  assumes "sys_inv s" "wf_evaluator e" "violationTimes e = violationTimes (hev s)"
    and "lastSeenTimes e = lastSeenTimes (hev s)" "unhealthyPods e = unhealthyPods (hev s)"
    and "length (metricsChan e) \<le> metricsChanCap"
  shows "sys_inv (s\<lparr>hev := e\<rparr>)"
  using assms loop_ok_hev [of s e] times_ok_cong [of e "hev s"] flags_ok_cong [of e "hev s"]
  by (simp add: sys_inv_def)

lemma wf_evaluator_frame [simp]:
  "wf_evaluator (e\<lparr>metricsChan := c\<rparr>) = wf_evaluator e"
  "wf_evaluator (e\<lparr>stopChan := b\<rparr>) = wf_evaluator e"
  by (simp_all add: wf_evaluator_def)

lemma sys_inv_syncer [simp]: "sys_inv (s\<lparr>syncer := p\<rparr>) = sys_inv s"
  by (simp add: sys_inv_defs split: loopPc.split)

lemma sys_inv_sync:
  assumes "periodicSync (p, hev s) (p', e')" "sys_inv s"
  shows "sys_inv (s\<lparr>hev := e', syncer := p'\<rparr>)"
proof -
  have "sys_inv (s\<lparr>hev := syncNodePods api (hev s)\<rparr>)" for api
    by (rule sys_inv_keep [OF assms(2)]) (use assms(2) in \<open>simp_all add: sys_inv_def syncNodePods_wf\<close>)
  with assms have "sys_inv (s\<lparr>hev := e'\<rparr>)" by (auto elim: periodicSync_cases)
  then show ?thesis using sys_inv_syncer [of p' "s\<lparr>hev := e'\<rparr>"] by simp
qed

lemma sys_inv_begin:
  assumes "sys_inv s" "metricsChan (hev s) = ev # rest" "evaluates ev"
    and "peBegin (clock s) ev ((hev s)\<lparr>metricsChan := rest\<rparr>) = (cached, e')"
  shows "sys_inv (s\<lparr>hev := e', loop := LFetch ev (clock s) cached\<rparr>)"
proof -
  let ?e = "(hev s)\<lparr>metricsChan := rest\<rparr>"
  have e': "e' = snd (peBegin (clock s) ev ?e)" using assms(4) by simp
  have "wf_evaluator ?e" "times_ok (clock s) ?e" "flags_ok ?e" "length rest \<le> metricsChanCap"
    using assms(1,2) times_ok_cong [of ?e "hev s"] flags_ok_cong [of ?e "hev s"]
    by (auto simp: sys_inv_def)
  then have "wf_evaluator e'" "times_ok (clock s) e'" "flags_ok e'" "length (metricsChan e') \<le> metricsChanCap"
    by (simp_all add: e' peBegin_wf times_ok_peBegin flags_ok_peBegin)
  moreover have "map_of (lastSeenTimes e') (eventKey ev) \<noteq> None"
    by (simp add: e' go_map_simps)
  ultimately show ?thesis
    using assms(1,3) by (simp add: sys_inv_defs)
qed

lemma sys_inv_fetch:
  assumes "sys_inv s" "loop s = LFetch ev now cached" "peFetch api ev cached (hev s) = (config, e')"
  shows "sys_inv (s\<lparr>hev := e', loop := LEval ev now config\<rparr>)"
proof -
  have e': "e' = snd (peFetch api ev cached (hev s))" using assms(3) by simp
  have "sys_inv (s\<lparr>hev := e'\<rparr>)"
    by (rule sys_inv_keep [OF assms(1)]) (use assms(1) in \<open>simp_all add: e' sys_inv_def peFetch_wf\<close>)
  with assms(2) show ?thesis by (simp add: sys_inv_defs)
qed

lemma sys_inv_eval:
  assumes "sys_inv s" "loop s = LEval ev now config"
    and "peEval now (clock s) ev config (hev s) = (e', ps)"
  shows "sys_inv (s\<lparr>hev := e', loop := LIdle, patches := patches s @ ps\<rparr>)"
proof -
  have e': "e' = fst (peEval now (clock s) ev config (hev s))"
    and ps: "ps = snd (peEval now (clock s) ev config (hev s))" using assms(3) by simp_all
  have "0 < now" "times_ok now (hev s)" "now \<le> clock s"
      "map_of (lastSeenTimes (hev s)) (eventKey ev) \<noteq> None"
    using assms(1,2) by (simp_all add: sys_inv_defs)
  then have "times_ok (clock s) e'" "flags_ok e'"
    using assms(1) times_ok_peEval [of now "hev s"] times_ok_mono flags_ok_peEval [of "hev s" ev]
    unfolding e' sys_inv_def by blast+
  then show ?thesis
    using assms(1) by (simp add: sys_inv_defs e' ps peEval_wf patch_ok_peEval)
qed

lemma sys_inv_tick:
  assumes "sys_inv s" "cleanupSection (clock s) (hev s) = (podsToRecover, e')"
  shows "sys_inv (s\<lparr>hev := e', loop := LRecover podsToRecover\<rparr>)"
proof -
  have e': "e' = snd (cleanupSection (clock s) (hev s))" using assms(2) by simp
  show ?thesis using assms(1)
    by (simp add: sys_inv_defs e' section_wf section_tick(3) times_ok_section flags_ok_section)
qed

lemma sys_inv_recover:
  assumes "sys_inv s" "recoverPods [podKey] (hev s) = (e', ps)"
  shows "sys_inv (s\<lparr>hev := e', loop := LRecover rest, patches := patches s @ ps\<rparr>)"
proof -
  have e': "e' = fst (recoverPods [podKey] (hev s))" and ps: "ps = snd (recoverPods [podKey] (hev s))"
    using assms(2) by simp_all
  have "times_ok now e' = times_ok now (hev s)" for now
    by (rule times_ok_cong) (simp_all only: e' recoverPods_frame)
  moreover have "metricsChan e' = metricsChan (hev s)" by (simp only: e' recoverPods_frame)
  moreover have "wf_evaluator e'" "flags_ok e'" "list_all patch_ok ps"
    using assms(1) flags_ok_recover recoverPods_wf_evaluator patch_ok_recover
    unfolding e' ps sys_inv_def by blast+
  ultimately show ?thesis using assms(1) by (simp add: sys_inv_defs)
qed

lemma sys_inv_step: "sys_step s t \<Longrightarrow> sys_inv s \<Longrightarrow> sys_inv t"
proof (induction rule: sys_step.induct)
  case (time_passes s t)
  then have "times_ok t (hev s)" using times_ok_mono [of "clock s"] by (simp add: sys_inv_def)
  with time_passes show ?case
    by (auto simp: sys_inv_defs split: loopPc.splits)
next
  case (enqueue s ev)
  show ?case
    by (rule sys_inv_keep [OF enqueue.prems]) (use enqueue in \<open>simp_all add: sys_inv_def\<close>)
next
  case (sync s p e')
  then show ?case by (blast intro: sys_inv_sync)
next
  case (stop s e')
  show ?case
    by (rule sys_inv_keep [OF stop.prems]) (use stop in \<open>auto simp: sys_inv_def Stop_def split: if_splits\<close>)
next
  case (loop_exit s)
  then show ?case by (simp add: sys_inv_defs)
next
  case (loop_skip s ev rest)
  show ?case
    by (rule sys_inv_keep [OF loop_skip.prems]) (use loop_skip in \<open>simp_all add: sys_inv_def\<close>)
next
  case (loop_begin s ev rest cached e')
  then show ?case by (blast intro: sys_inv_begin)
next
  case (loop_fetch s ev now cached api config e')
  then show ?case by (blast intro: sys_inv_fetch)
next
  case (loop_eval s ev now config e' ps)
  then show ?case by (blast intro: sys_inv_eval)
next
  case (loop_tick s podsToRecover e')
  then show ?case by (blast intro: sys_inv_tick)
next
  case (loop_recover s podKey rest e' ps)
  then show ?case by (blast intro: sys_inv_recover)
next
  case (loop_ticked s)
  then show ?case by (simp add: sys_inv_defs)
qed

interpretation evaluator: invariant_system sys_init sys_step sys_inv
  by unfold_locales (auto intro: sys_inv_init sys_inv_step)

text \<open>Without an interruption the sections of a tick do what \<open>checkRecoveryAndCleanup\<close> does.\<close>

lemma recover_steps:
  "loop s = LRecover ks \<Longrightarrow>
   sys_step\<^sup>*\<^sup>* s (s\<lparr>hev := fst (recoverPods ks (hev s)), loop := LIdle,
     patches := patches s @ snd (recoverPods ks (hev s))\<rparr>)"
proof (induction ks arbitrary: s)
  case Nil
  then show ?case using sys_step.loop_ticked [of s] by simp
next
  case (Cons k ks)
  obtain e' ps where one: "recoverPods [k] (hev s) = (e', ps)" by fastforce
  let ?s = "s\<lparr>hev := e', loop := LRecover ks, patches := patches s @ ps\<rparr>"
  have "recoverPods (k # ks) (hev s) = (fst (recoverPods ks e'), ps @ snd (recoverPods ks e'))"
    using one by (auto simp: recoverPods_Cons split_beta Let_def simp del: recoverPods.simps(2))
  with sys_step.loop_recover [OF Cons.prems one] Cons.IH [of ?s] show ?case
    by (simp add: converse_rtranclp_into_rtranclp)
qed

lemma tick_steps:
  assumes "loop s = LIdle"
  shows "sys_step\<^sup>*\<^sup>* s (s\<lparr>hev := fst (checkRecoveryAndCleanup (clock s) (hev s)),
     patches := patches s @ snd (checkRecoveryAndCleanup (clock s) (hev s))\<rparr>)"
proof -
  obtain ks e' where sec: "cleanupSection (clock s) (hev s) = (ks, e')" by fastforce
  then have "checkRecoveryAndCleanup (clock s) (hev s) = recoverPods ks e'"
    by (simp add: checkRecoveryAndCleanup_def)
  moreover have "s\<lparr>hev := h, patches := p\<rparr> = s\<lparr>hev := h, loop := LIdle, patches := p\<rparr>" for h p
    using assms by simp
  ultimately show ?thesis
    using sys_step.loop_tick [OF assms sec] recover_steps [of "s\<lparr>hev := e', loop := LRecover ks\<rparr>" ks]
    by (simp add: converse_rtranclp_into_rtranclp)
qed

end
