(* ===== verification/Evaluator_Props.thy ===== *)
theory Evaluator_Props
  imports Evaluator_Runs "HOL-Library.Multiset"
begin

text \<open>
  The properties of the health evaluator: when a pod is flagged, that pruning does not change later
  decisions, that map order does not matter, what the recovery path does, and the invariant of the
  interleaved machine. \<open>runSteps\<close> drives the evaluator by an explicit sequence of operations;
  \<open>regular\<close> bounds the time between the ticks of such a sequence by the pod's windows.
\<close>

section \<open>Sequences of operations\<close>

datatype evStep =
    DoEvent AgentApi Time Time MetricEvent
  | DoTick Time
  | DoSync AgentApi

fun doStep :: "evStep \<Rightarrow> HealthEvaluator \<Rightarrow> HealthEvaluator \<times> PatchCall list" where
  "doStep (DoEvent api now now2 ev) e = processEvent api now now2 ev e"
| "doStep (DoTick now) e = checkRecoveryAndCleanup now e"
| "doStep (DoSync api) e = (syncNodePods api e, [])"

fun runSteps :: "evStep list \<Rightarrow> HealthEvaluator \<Rightarrow> HealthEvaluator \<times> PatchCall list" where
  "runSteps [] e = (e, [])"
| "runSteps (s # ss) e =
     (let (e1, ps) = doStep s e; (e2, qs) = runSteps ss e1 in (e2, ps @ qs))"

text \<open>
  \<open>regular k lastTick lastWin now steps e\<close>: the clock does not go back from \<open>now\<close>, and at every tick the
  window of pod \<open>k\<close> is positive, its triple is a 64-bit duration, and the time since the previous tick
  and the window at that tick are together at most three windows. With a constant window the ticks are
  thus at most two windows apart; a synchronisation may enlarge the window, and reduce it as long as
  the bound holds.
\<close>

fun regular :: "string \<Rightarrow> Time \<Rightarrow> int \<Rightarrow> Time \<Rightarrow> evStep list \<Rightarrow> HealthEvaluator \<Rightarrow> bool" where
  "regular k lastTick lastWin now [] e = True"
| "regular k lastTick lastWin now (s # ss) e =
     (case s of
        DoEvent api t t2 ev \<Rightarrow>
          now \<le> t \<and> t \<le> t2 \<and> regular k lastTick lastWin t2 ss (fst (doStep s e))
      | DoTick t \<Rightarrow>
          (let w = sint (podWindow e k) in
           now \<le> t \<and> 0 < w \<and> 3 * w < 2 ^ 63 \<and> (t - lastTick) + lastWin \<le> 3 * w \<and>
           regular k t w t ss (fst (doStep s e)))
      | DoSync api \<Rightarrow> regular k lastTick lastWin now ss (fst (doStep s e)))"

section \<open>Sample data for witnesses\<close>

definition sampleEvent :: "int64 \<Rightarrow> MetricEvent" where
  "sampleEvent d =
     \<lparr>EvType = NCCL_ALL_REDUCE, GPUModel = bytesOf 32 ''A100'', PodName = bytesOf 64 ''w0'',
      PodNamespace = bytesOf 64 ''ns'', DurationUs = d, Count = 1\<rparr>"

definition noApi :: AgentApi where
  "noApi = \<lparr>apiGetPod = (\<lambda>_ _. Inl (NotFoundError ''pods'')), apiListPods = (\<lambda>_. Inr [])\<rparr>"

definition sampleEvaluator :: HealthEvaluator where
  "sampleEvaluator = SetK8sClient True (NewHealthEvaluator 10 0 500)"

section \<open>C strings\<close>

lemma bytesToString_takeWhile: "bytesToString b = stringOfBytes (takeWhile (\<lambda>x. x \<noteq> 0) b)"
proof (cases "IndexByte b 0")
  case None
  then have "takeWhile (\<lambda>x. x \<noteq> 0) b = b"
    by (auto simp: IndexByte_None takeWhile_eq_all_conv)
  then show ?thesis by (simp only: bytesToString_def None option.case)
next
  case (Some n)
  then show ?thesis by (simp add: bytesToString_def IndexByte_Some_take)
qed

lemma bytesToString_bytesOf:
  assumes "CHR 0x00 \<notin> set s"
  shows "bytesToString (bytesOf n s) = s"
proof -
  let ?b = "map (\<lambda>c. of_nat (of_char c) :: byte) s"
  have "takeWhile (\<lambda>x. x \<noteq> 0) (?b @ replicate m 0) = ?b" for m
  proof (rule takeWhile_append_stop)
    show "x \<noteq> 0" if "x \<in> set ?b" for x
      using that assms by (auto simp only: set_map image_iff of_nat_of_char_zero)
  qed (cases m; simp)
  then show ?thesis
    by (simp only: bytesToString_takeWhile bytesOf_def stringOfBytes_roundtrip)
qed

section \<open>Joining what was split\<close>

lemma Split_two: "Split c s = [a, b] \<Longrightarrow> s = a @ c # b"
proof (induction s arbitrary: a b)
  case (Cons x s)
  show ?case
  proof (cases "x = c")
    case True
    with Cons.prems have "a = []" "Split c s = [b]" by auto
    moreover have "Split c t = [y] \<Longrightarrow> t = y" for t y
      by (induction t arbitrary: y) (auto split: if_splits list.splits)
    ultimately show ?thesis using True by simp
  next
    case False
    with Cons.prems obtain a' where "a = x # a'" "Split c s = [a', b]"
      by (auto split: list.splits)
    with Cons.IH show ?thesis by simp
  qed
qed simp

lemma healthyPatches_in:
  "PatchPod ns name body \<in> set (healthyPatches e k) \<Longrightarrow> k = podKeyOf ns name"
  by (auto simp: healthyPatches_def markPodStatus_def podKeyOf_def split: list.splits if_splits
      intro!: Split_two)

lemma healthPatch_distinct: "healthPatch ''unhealthy'' \<noteq> healthPatch ''healthy''"
  by (simp add: healthPatch_def quote_def quoteChar_def sepBy_def HealthAnnotation_def)

section \<open>Flagging a pod\<close>

definition effectiveConfig :: "AgentApi \<Rightarrow> MetricEvent \<Rightarrow> HealthEvaluator \<Rightarrow> GovernanceConfig option" where
  "effectiveConfig api ev e =
     (case map_of (podConfigs e) (eventKey ev) of
        Some c \<Rightarrow> Some c
      | None \<Rightarrow> fst (fetchAndCachePodConfig api (bytesToString (PodNamespace ev))
                  (bytesToString (PodName ev)) e))"

lemma fetch_fst_cong:
  "k8sClient e = k8sClient e' \<Longrightarrow>
   fst (fetchAndCachePodConfig api ns name e) = fst (fetchAndCachePodConfig api ns name e')"
  by (simp add: fetchAndCachePodConfig_def split: sum.split option.split)

lemma peFetch_effective:
  "fst (peFetch api ev (map_of (podConfigs e) (eventKey ev)) (snd (peBegin now ev e))) =
   effectiveConfig api ev e"
  using fetch_fst_cong [of "snd (peBegin now ev e)" e]
  by (simp add: peFetch_def effectiveConfig_def split: option.split)

lemma limits_cong:
  "thresholdUs e = thresholdUs e' \<Longrightarrow> windowSize e = windowSize e' \<Longrightarrow>
   errorCountLimit e = errorCountLimit e' \<Longrightarrow> limits c e = limits c e'"
  by (simp add: limits_def split: option.split)

lemma exceeds_cong:
  assumes "thresholdUs e = thresholdUs e'" "windowSize e = windowSize e'"
    and "errorCountLimit e = errorCountLimit e'" "violationTimes e = violationTimes e'"
  shows "exceeds now now2 ev c e = exceeds now now2 ev c e'"
  using limits_cong [OF assms(1-3), of c] assms(4) by (simp add: exceeds_def)

lemma markPodStatus_evaluates:
  "evaluates ev \<Longrightarrow> markPodStatus e (bytesToString (PodName ev)) ns status =
   (if k8sClient e then [PatchPod ns (bytesToString (PodName ev)) (healthPatch status)] else [])"
  by (simp add: markPodStatus_def evaluates_def)

lemma processEvent_patches:
  "evaluates ev \<Longrightarrow>
   snd (processEvent api now now2 ev e) =
     (if k8sClient e \<and> \<not> mapIndex False (unhealthyPods e) (eventKey ev) \<and>
         exceeds now now2 ev (effectiveConfig api ev e) e
      then [PatchPod (bytesToString (PodNamespace ev)) (bytesToString (PodName ev))
              (healthPatch ''unhealthy'')] else [])"
  using exceeds_cong [of "snd (peFetch api ev (map_of (podConfigs e) (eventKey ev)) (snd (peBegin now ev e)))" e]
  by (simp add: processEvent_sections Let_def peEval_patches peFetch_effective markPodStatus_evaluates)

lemma processEvent_violations:
  "map_of (violationTimes (fst (processEvent api now now2 ev e))) k =
   (if evaluates ev \<and> k = eventKey ev \<and>
       sint (fst (limits (effectiveConfig api ev e) e)) < sint (DurationUs ev)
    then Some (mapIndex [] (violationTimes e) k @ [now]) else map_of (violationTimes e) k)"
proof (cases "evaluates ev")
  case True
  let ?e2 = "snd (peFetch api ev (map_of (podConfigs e) (eventKey ev)) (snd (peBegin now ev e)))"
  have "limits c ?e2 = limits c e" for c
    by (rule limits_cong) simp_all
  with True show ?thesis
    by (simp add: processEvent_sections Let_def peEval_violations peFetch_effective)
next
  case False
  then show ?thesis by (simp add: processEvent_def)
qed

lemma processEvent_wf: "wf_evaluator e \<Longrightarrow> wf_evaluator (fst (processEvent api now now2 ev e))"
proof (cases "evaluates ev")
  case True
  assume "wf_evaluator e"
  then show ?thesis
    unfolding processEvent_sections [OF True] Let_def
    by (intro peEval_wf peFetch_wf peBegin_wf)
qed (simp add: processEvent_def)

text \<open>
  C1. One event makes the agent send a patch exactly when the event is an NCCL all-reduce of a named
  pod, the client is set, the pod is not already flagged, its duration exceeds the threshold of the
  pod's configuration (the cached one, else the one just fetched, else the agent's defaults), and the
  violations of that pod inside the window, this one included, are more than the limit (exactly the
  limit is not enough, although the policy type documents the limit as the number that triggers).
  The patch then sets the pod's health annotation to "unhealthy".
\<close>

theorem processEvent_flags:
  "snd (processEvent api now now2 ev e) =
     (let (threshold, window, limit) = limits (effectiveConfig api ev e) e in
      if evaluates ev \<and> k8sClient e \<and> \<not> mapIndex False (unhealthyPods e) (eventKey ev) \<and>
         sint threshold < sint (DurationUs ev) \<and>
         sint limit < int (length (filter (\<lambda>t. cutoff now2 window < t)
                                     (mapIndex [] (violationTimes e) (eventKey ev) @ [now])))
      then [PatchPod (bytesToString (PodNamespace ev)) (bytesToString (PodName ev))
              (healthPatch ''unhealthy'')]
      else [])"
proof (cases "evaluates ev")
  case True
  then show ?thesis
    by (auto simp: processEvent_patches exceeds_def prune_def After_def Let_def split: prod.split)
next
  case False
  then show ?thesis by (simp add: processEvent_def split: prod.split)
qed

text \<open>
  An event of one pod leaves every other pod alone: its recorded violations, the time it was last
  seen, its health flag and its cached configuration are what they were.
\<close>

theorem processEvent_isolates:
  assumes "k \<noteq> eventKey ev" and "processEvent api now now2 ev e = (e', ps)"
  shows "map_of (violationTimes e') k = map_of (violationTimes e) k \<and>
    map_of (lastSeenTimes e') k = map_of (lastSeenTimes e) k \<and>
    map_of (unhealthyPods e') k = map_of (unhealthyPods e) k \<and>
    map_of (podConfigs e') k = map_of (podConfigs e) k"
proof -
  have e': "e' = fst (processEvent api now now2 ev e)" using assms(2) by simp
  have "map_of (podConfigs (snd (peFetch api ev c e1))) k = map_of (podConfigs e1) k" for c e1
    using assms(1) by (auto simp: peFetch_def fetch_podConfigs eventKey_def split: option.split)
  then have "map_of (podConfigs e') k = map_of (podConfigs e) k"
    by (simp add: e' processEvent_def split_beta)
  moreover have "map_of (lastSeenTimes e') k = map_of (lastSeenTimes e) k"
    using assms(1) by (simp add: e' processEvent_def split_beta go_map_simps)
  moreover have "map_of (unhealthyPods e') k = map_of (unhealthyPods e) k"
    using assms(1) by (simp add: e' processEvent_def split_beta peEval_unhealthy)
  ultimately show ?thesis
    using assms(1) by (simp add: e' processEvent_violations)
qed

lemma eventKey_sample: "eventKey (sampleEvent d) = ''ns/w0''"
  by (simp add: eventKey_def sampleEvent_def bytesToString_bytesOf podKeyOf_def)

lemma sample_names [simp]:
  "bytesToString (PodName (sampleEvent d)) = ''w0''"
  "bytesToString (PodNamespace (sampleEvent d)) = ''ns''"
  "evaluates (sampleEvent d)"
  "DurationUs (sampleEvent d) = d"
  by (simp_all add: sampleEvent_def bytesToString_bytesOf evaluates_def)

theorem processEvent_isolates_witness:
  "''ns/w1'' \<noteq> eventKey (sampleEvent 900) \<and>
   (let e = sampleEvaluator\<lparr>violationTimes := [(''ns/w1'', [5])]\<rparr>;
        e' = fst (processEvent noApi 7 7 (sampleEvent 900) e)
    in map_of (violationTimes e') ''ns/w1'' = Some [5] \<and>
       map_of (violationTimes e') ''ns/w0'' = Some [7])"
proof -
  let ?e = "sampleEvaluator\<lparr>violationTimes := [(''ns/w1'', [5])]\<rparr>"
  have k: "''ns/w1'' \<noteq> eventKey (sampleEvent 900)" by (simp add: eventKey_sample)
  obtain e' ps where r: "processEvent noApi 7 7 (sampleEvent 900) ?e = (e', ps)" by fastforce
  have "map_of (violationTimes (fst (processEvent noApi 7 7 (sampleEvent 900) ?e))) ''ns/w0'' = Some [7]"
    by (simp add: processEvent_violations eventKey_sample limits_def effectiveConfig_def noApi_def
        fetchAndCachePodConfig_def sampleEvaluator_def SetK8sClient_def NewHealthEvaluator_def mapIndex_def)
  with processEvent_isolates [OF k r] show ?thesis
    by (simp add: k r eventKey_sample Let_def)
qed

section \<open>Windows without wrap-around\<close>

lemma cutoff_exact: "0 < sint w \<Longrightarrow> cutoff now w = now - sint w"
  by (simp add: cutoff_def Add_def sint_uminus_exact)

lemma recoveryCutoff_exact:
  assumes "0 < sint w" "3 * sint w < 2 ^ 63"
  shows "recoveryCutoff now w = now - 3 * sint w"
proof -
  have "sint (- w) = - sint w" by (rule sint_uminus_exact) (use assms in simp)
  moreover have "sint RecoveryMultiplier = 3" by (simp add: RecoveryMultiplier_def)
  ultimately have "sint (- w * RecoveryMultiplier) = - sint w * 3"
    using assms sint_mult_exact [of "- w" RecoveryMultiplier] by simp
  then show ?thesis by (simp add: recoveryCutoff_def Add_def)
qed

section \<open>Pruning\<close>

text \<open>
  The cleanup of old violations is invisible to later decisions: counting the violations of a pod
  inside its window at any time after a tick gives the same number as if the tick had removed
  nothing.
\<close>

theorem prune_preserves_counts:
  assumes "wf_evaluator e" and "now \<le> now2"
    and "checkRecoveryAndCleanup now e = (e', ps)"
  shows "countViolationsLocked now2 k (podWindow e k) e' = countViolationsLocked now2 k (podWindow e k) e"
proof -
  have e': "e' = fst (checkRecoveryAndCleanup now e)" using assms(3) by simp
  show ?thesis
  proof (cases "map_of (violationTimes e) k")
    case None
    then show ?thesis
      by (simp add: e' countViolations_prune mapIndex_def tick_violations [OF assms(1)])
  next
    case (Some ts)
    have "prune now2 w (prune now w ts) = prune now2 w ts" for w
      by (rule prune_prune [OF assms(2)])
    moreover have "prune now2 w [] = []" for w by (simp add: prune_def)
    ultimately show ?thesis using Some
      by (auto simp: e' countViolations_prune mapIndex_def tick_violations [OF assms(1)] Let_def
          split: if_splits) metis
  qed
qed

definition flaggedEvaluator :: HealthEvaluator where
  "flaggedEvaluator = sampleEvaluator
     \<lparr>violationTimes := [(''ns/w0'', [1000000000, 5000000000])],
      lastSeenTimes := [(''ns/w0'', 5000000000)],
      unhealthyPods := [(''ns/w0'', True)]\<rparr>"

lemma flagged_simps [simp]:
  "wf_evaluator flaggedEvaluator"
  "violationTimes flaggedEvaluator = [(''ns/w0'', [1000000000, 5000000000])]"
  "lastSeenTimes flaggedEvaluator = [(''ns/w0'', 5000000000)]"
  "unhealthyPods flaggedEvaluator = [(''ns/w0'', True)]"
  "podConfigs flaggedEvaluator = []"
  "k8sClient flaggedEvaluator"
  "podWindow flaggedEvaluator k = 10000000000"
  by (simp_all add: flaggedEvaluator_def sampleEvaluator_def SetK8sClient_def NewHealthEvaluator_def
      wf_evaluator_def podWindow_def seconds_def Second_def)

theorem prune_preserves_counts_witness:
  "let e = flaggedEvaluator; e' = fst (checkRecoveryAndCleanup 12000000000 e) in
   violationTimes e' = [(''ns/w0'', [5000000000])] \<and>
   countViolationsLocked 13000000000 ''ns/w0'' (podWindow e ''ns/w0'') e' = 1 \<and>
   countViolationsLocked 13000000000 ''ns/w0'' (podWindow e ''ns/w0'') e = 1"
proof -
  let ?t = "checkRecoveryAndCleanup 12000000000 flaggedEvaluator"
  have "countViolationsLocked 13000000000 ''ns/w0'' (podWindow flaggedEvaluator ''ns/w0'') (fst ?t) =
    countViolationsLocked 13000000000 ''ns/w0'' (podWindow flaggedEvaluator ''ns/w0'') flaggedEvaluator"
    by (rule prune_preserves_counts [where now = 12000000000 and ps = "snd ?t"]) simp_all
  moreover have "countViolationsLocked 13000000000 ''ns/w0'' (podWindow flaggedEvaluator ''ns/w0'') flaggedEvaluator = 1"
    by (simp add: countViolationsLocked_def mapIndex_def time_defs)
  moreover have "violationTimes (fst ?t) = [(''ns/w0'', [5000000000])]"
    by (simp add: tick_defs cutoff_def time_defs Let_def)
  ultimately show ?thesis by (simp add: Let_def)
qed

section \<open>Order of iteration\<close>

definition same_maps :: "HealthEvaluator \<Rightarrow> HealthEvaluator \<Rightarrow> bool" where
  "same_maps e e' \<longleftrightarrow>
     map_of (violationTimes e) = map_of (violationTimes e') \<and>
     map_of (lastSeenTimes e) = map_of (lastSeenTimes e') \<and>
     map_of (unhealthyPods e) = map_of (unhealthyPods e') \<and>
     map_of (podConfigs e) = map_of (podConfigs e')"

lemma same_maps_perm:
  assumes "wf_evaluator e" "wf_evaluator e'" "same_maps e e'"
  shows "mset (violationTimes e) = mset (violationTimes e')"
proof -
  have "distinct (violationTimes e)" "distinct (violationTimes e')"
    using assms(1,2) by (simp_all add: wf_evaluator_def wf_map_def distinct_map)
  moreover have "set (violationTimes e) = set (violationTimes e')"
    using assms map_of_inject_set [of "violationTimes e" "violationTimes e'"]
    by (simp add: wf_evaluator_def wf_map_def same_maps_def)
  ultimately show ?thesis by (simp add: set_eq_iff_mset_eq_distinct)
qed

lemma mset_concat_filter_cong:
  assumes "mset xs = mset ys" "\<And>x. x \<in> set xs \<Longrightarrow> P x = Q x" "\<And>x. x \<in> set xs \<Longrightarrow> f x = g x"
  shows "mset (concat (map f (filter P xs))) = mset (concat (map g (filter Q ys)))"
proof -
  have "map f (filter P xs) = map g (filter Q xs)"
    using assms(2,3) by (induction xs) simp_all
  moreover have "mset (map g (filter Q xs)) = mset (map g (filter Q ys))"
    using assms(1) by simp
  ultimately show ?thesis
    by (simp only: mset_concat) (metis mset_map sum_mset_sum_list)
qed

text \<open>
  C27. Go visits maps in an unspecified order. A tick does not depend on it: from two representations
  of the same maps it produces the same maps, and the same patches up to their order.
\<close>

theorem tick_order_independent:
  assumes "wf_evaluator e" and "wf_evaluator e'" and "same_maps e e'"
    and "windowSize e = windowSize e'" and "k8sClient e = k8sClient e'"
  shows "same_maps (fst (checkRecoveryAndCleanup now e)) (fst (checkRecoveryAndCleanup now e')) \<and>
    mset (snd (checkRecoveryAndCleanup now e)) = mset (snd (checkRecoveryAndCleanup now e'))"
proof -
  have win: "podWindow e k = podWindow e' k" for k
    by (rule podWindow_cong) (use assms in \<open>simp_all add: same_maps_def\<close>)
  have rec: "recovers now e k ts = recovers now e' k ts" for k ts
    using assms(3) by (simp add: recovers_def win mapIndex_def same_maps_def)
  have st: "stale now e k = stale now e' k" for k
    using assms(3) by (simp add: stale_def win same_maps_def cong: option.case_cong)
  have hp: "healthyPatches e k = healthyPatches e' k" for k
    using assms(5) by (simp add: healthyPatches_def markPodStatus_def split: list.split)
  have "k \<in> set (recovering now e) \<longleftrightarrow> k \<in> set (recovering now e')" for k
    using assms(3) by (simp add: recovering_iff assms(1,2) rec same_maps_def)
  then have "same_maps (fst (checkRecoveryAndCleanup now e)) (fst (checkRecoveryAndCleanup now e'))"
    using assms(3) unfolding same_maps_def fun_eq_iff
    by (simp add: tick_violations tick_lastSeen tick_unhealthy tick_podConfigs assms(1,2) win st
        cong: option.case_cong)
  moreover have "mset (snd (checkRecoveryAndCleanup now e)) = mset (snd (checkRecoveryAndCleanup now e'))"
    unfolding tick_patches recovering_def map_map
    by (rule mset_concat_filter_cong [OF same_maps_perm [OF assms(1-3)]]) (auto simp: rec hp)
  ultimately show ?thesis by simp
qed

definition twoPods :: "string \<Rightarrow> string \<Rightarrow> HealthEvaluator" where
  "twoPods a b = sampleEvaluator\<lparr>violationTimes := [(a, [1]), (b, [1])],
     lastSeenTimes := [(a, 1), (b, 1)], unhealthyPods := [(a, True), (b, True)]\<rparr>"

theorem tick_order_independent_witness:
  "let e = twoPods ''ns/a'' ''ns/b''; e' = twoPods ''ns/b'' ''ns/a'' in
   violationTimes e \<noteq> violationTimes e' \<and>
   same_maps (fst (checkRecoveryAndCleanup 40000000000 e)) (fst (checkRecoveryAndCleanup 40000000000 e')) \<and>
   mset (snd (checkRecoveryAndCleanup 40000000000 e)) = mset (snd (checkRecoveryAndCleanup 40000000000 e'))"
proof -
  have wf: "wf_evaluator (twoPods ''ns/a'' ''ns/b'')" "wf_evaluator (twoPods ''ns/b'' ''ns/a'')"
    by (simp_all add: twoPods_def wf_evaluator_def sampleEvaluator_def SetK8sClient_def NewHealthEvaluator_def)
  have same: "same_maps (twoPods ''ns/a'' ''ns/b'') (twoPods ''ns/b'' ''ns/a'')"
    by (auto simp: same_maps_def twoPods_def sampleEvaluator_def SetK8sClient_def NewHealthEvaluator_def fun_eq_iff)
  have "windowSize (twoPods a b) = windowSize (twoPods b a)" "k8sClient (twoPods a b) = k8sClient (twoPods b a)" for a b
    by (simp_all add: twoPods_def)
  from tick_order_independent [OF wf same this] show ?thesis
    by (simp add: Let_def) (simp add: twoPods_def)
qed

section \<open>Recovery\<close>

definition fresh_since :: "string \<Rightarrow> Time \<Rightarrow> int \<Rightarrow> HealthEvaluator \<Rightarrow> bool" where
  "fresh_since k lastTick w e \<longleftrightarrow>
     (\<forall>ts. map_of (violationTimes e) k = Some ts \<longrightarrow>
        ts \<noteq> [] \<and> (\<forall>t\<in>set ts. 0 < t \<and> lastTick - w < t))"

lemma fresh_not_recovers:
  assumes "fresh_since k lastTick lastWin e" "map_of (violationTimes e) k = Some ts"
    and "(t - lastTick) + lastWin \<le> 3 * w" "sint (podWindow e k) = w" "0 < w" "3 * w < 2 ^ 63"
  shows "\<not> recovers t e k ts"
proof -
  from assms(1,2) have ts: "ts \<noteq> []" and fresh: "\<And>x. x \<in> set ts \<Longrightarrow> 0 < x \<and> lastTick - lastWin < x"
    by (auto simp: fresh_since_def)
  then obtain x where x: "x \<in> set ts" by (cases ts) auto
  with fresh latestOf_ge [OF x] have "0 < latestOf ts" "lastTick - lastWin < latestOf ts" by fastforce+
  moreover have "recoveryCutoff t (podWindow e k) = t - 3 * w"
    using recoveryCutoff_exact [of "podWindow e k" t] assms(4-6) by simp
  ultimately show ?thesis
    using assms(3) by (simp add: recovers_def time_defs)
qed

lemma fresh_tick:
  assumes "wf_evaluator e" "fresh_since k lastTick lastWin e" "sint (podWindow e k) = w" "0 < w"
  shows "fresh_since k t w (fst (checkRecoveryAndCleanup t e))"
  using assms cutoff_exact [of "podWindow e k" t]
  by (auto simp: fresh_since_def tick_violations Let_def prune_def After_def
      split: option.splits if_splits)

lemma fresh_event:
  assumes "fresh_since k lastTick w e" "lastTick \<le> t" "0 < t" "0 < w"
  shows "fresh_since k lastTick w (fst (processEvent api t t2 ev e))"
  using assms by (cases "map_of (violationTimes e) k")
    (auto simp: fresh_since_def processEvent_violations mapIndex_def split: if_splits)

lemma no_healthy_patch_event:
  "PatchPod ns name (healthPatch ''healthy'') \<notin> set (snd (processEvent api t t2 ev e))"
proof (cases "evaluates ev")
  case True
  then show ?thesis using healthPatch_distinct by (auto simp: processEvent_patches)
qed (simp add: processEvent_def)

lemma no_healthy_patch_tick:
  assumes "wf_evaluator e" "fresh_since (podKeyOf ns name) lastTick lastWin e" "(t - lastTick) + lastWin \<le> 3 * w"
    and "sint (podWindow e (podKeyOf ns name)) = w" "0 < w" "3 * w < 2 ^ 63"
  shows "PatchPod ns name body \<notin> set (snd (checkRecoveryAndCleanup t e))"
proof
  assume "PatchPod ns name body \<in> set (snd (checkRecoveryAndCleanup t e))"
  then obtain k where k: "k \<in> set (recovering t e)" "PatchPod ns name body \<in> set (healthyPatches e k)"
    by (auto simp: tick_patches)
  from healthyPatches_in [OF k(2)] k(1) obtain ts
    where "map_of (violationTimes e) (podKeyOf ns name) = Some ts" "recovers t e (podKeyOf ns name) ts"
    by (auto simp: recovering_iff assms(1))
  with fresh_not_recovers [OF assms(2) _ assms(3-6)] show False by blast
qed

lemma doStep_wf: "wf_evaluator e \<Longrightarrow> wf_evaluator (fst (doStep s e))"
  by (cases s) (simp_all add: processEvent_wf tick_wf syncNodePods_wf)

lemma fresh_sync: "fresh_since k lastTick w e \<Longrightarrow> fresh_since k lastTick w (syncNodePods api e)"
  by (simp add: fresh_since_def)

lemma runSteps_no_recovery:
  assumes "wf_evaluator e" "fresh_since (podKeyOf ns name) lastTick lastWin e"
    and "regular (podKeyOf ns name) lastTick lastWin now steps e"
    and "lastTick \<le> now" "0 < now" "0 < lastWin"
  shows "PatchPod ns name (healthPatch ''healthy'') \<notin> set (snd (runSteps steps e))"
  using assms
proof (induction steps arbitrary: lastTick lastWin now e)
  case (Cons s ss)
  note wf' = doStep_wf [OF Cons.prems(1), of s]
  show ?case
  proof (cases s)
    case (DoEvent api t t2 ev)
    with Cons.prems have t: "now \<le> t" "t \<le> t2"
        and reg: "regular (podKeyOf ns name) lastTick lastWin t2 ss (fst (doStep s e))" by simp_all
    moreover have "fresh_since (podKeyOf ns name) lastTick lastWin (fst (doStep s e))"
      using fresh_event [OF Cons.prems(2), of t] Cons.prems t DoEvent by simp
    ultimately have "PatchPod ns name (healthPatch ''healthy'') \<notin> set (snd (runSteps ss (fst (doStep s e))))"
      using Cons.prems by (intro Cons.IH [OF wf', of lastTick lastWin t2]) auto
    with DoEvent no_healthy_patch_event show ?thesis by (simp add: split_beta)
  next
    case (DoTick t)
    let ?w = "sint (podWindow e (podKeyOf ns name))"
    from DoTick Cons.prems have t: "now \<le> t" "0 < ?w" "3 * ?w < 2 ^ 63" "(t - lastTick) + lastWin \<le> 3 * ?w"
      and reg: "regular (podKeyOf ns name) t ?w t ss (fst (doStep s e))" by (simp_all add: Let_def)
    have "fresh_since (podKeyOf ns name) t ?w (fst (doStep s e))"
      using fresh_tick [OF Cons.prems(1,2) refl t(2)] DoTick by simp
    then have "PatchPod ns name (healthPatch ''healthy'') \<notin> set (snd (runSteps ss (fst (doStep s e))))"
      using Cons.prems t reg by (intro Cons.IH [OF wf', of t ?w t]) auto
    with DoTick no_healthy_patch_tick [OF Cons.prems(1,2) t(4) refl t(2,3)] show ?thesis
      by (simp add: split_beta)
  next
    case (DoSync api)
    with Cons.prems have "regular (podKeyOf ns name) lastTick lastWin now ss (fst (doStep s e))" by simp
    then have "PatchPod ns name (healthPatch ''healthy'') \<notin> set (snd (runSteps ss (fst (doStep s e))))"
      using Cons.prems fresh_sync [OF Cons.prems(2), of api] DoSync
      by (intro Cons.IH [OF wf', of lastTick lastWin now]) auto
    with DoSync show ?thesis by (simp add: split_beta)
  qed
qed simp

text \<open>
  C17. Recovery never happens in normal operation. As long as at every tick the pod's window is positive
  and the time since the previous tick and the pod's window at that tick are together at most three
  windows of the pod, the agent, started fresh, never marks the pod healthy again, whatever events
  arrive and however the API server answers: the tick that finds the window empty deletes the pod's
  violations, and the test against three windows is only made while that entry exists. For a window
  that does not change the bound says that ticks are at most two windows apart (the agent ticks every
  two seconds and its default window is ten); a synchronisation that reduces a window to less than a
  third of itself breaks it.
\<close>

theorem no_recovery_with_regular_ticks:
  assumes "regular (podKeyOf ns name) t0 w t0 steps (SetK8sClient c (SetNodeName node (NewHealthEvaluator win lim thr)))"
    and "0 < t0" and "0 < w"
  shows "PatchPod ns name (healthPatch ''healthy'')
    \<notin> set (snd (runSteps steps (SetK8sClient c (SetNodeName node (NewHealthEvaluator win lim thr)))))"
  by (rule runSteps_no_recovery [OF _ _ assms(1)])
    (use assms in \<open>simp_all add: wf_evaluator_def fresh_since_def SetK8sClient_def SetNodeName_def NewHealthEvaluator_def\<close>)

definition sampleRun :: "evStep list" where
  "sampleRun = [DoEvent noApi 2000000000 2000000000 (sampleEvent 900), DoTick 3000000000,
     DoTick 13000000000, DoSync noApi, DoTick 33000000000, DoTick 53000000000]"

theorem no_recovery_with_regular_ticks_witness:
  "let e = SetK8sClient True (SetNodeName ''node-a'' (NewHealthEvaluator 10 0 500)) in
   snd (runSteps sampleRun e) = [PatchPod ''ns'' ''w0'' (healthPatch ''unhealthy'')] \<and>
   PatchPod ''ns'' ''w0'' (healthPatch ''healthy'') \<notin> set (snd (runSteps sampleRun e))"
proof -
  let ?e = "SetK8sClient True (SetNodeName ''node-a'' (NewHealthEvaluator 10 0 500))"
  have "regular (podKeyOf ''ns'' ''w0'') 1000000000 10000000000 1000000000 sampleRun ?e"
    by code_simp
  then have "PatchPod ''ns'' ''w0'' (healthPatch ''healthy'') \<notin> set (snd (runSteps sampleRun ?e))"
    by (rule no_recovery_with_regular_ticks) simp_all
  moreover have "snd (runSteps sampleRun ?e) = [PatchPod ''ns'' ''w0'' (healthPatch ''unhealthy'')]"
    by code_simp
  ultimately show ?thesis unfolding Let_def by (intro conjI)
qed

text \<open>
  What the recovery test does when it is reached: a flagged pod whose recorded violations are all
  older than three windows at a tick gets the patch "healthy", and its flag and its violations are
  removed.
\<close>

theorem recovery_after_long_gap:
  assumes "wf_evaluator e" and "k8sClient e"
    and "k = podKeyOf ns name" and "CHR ''/'' \<notin> set ns" and "CHR ''/'' \<notin> set name"
    and "name \<noteq> ''''" and "name \<noteq> ''unknown''"
    and "map_of (unhealthyPods e) k = Some True" and "map_of (violationTimes e) k = Some ts"
    and "w = sint (podWindow e k)" and "0 < w" and "3 * w < 2 ^ 63"
    and "\<forall>t\<in>set ts. t < now - 3 * w" and "0 < now - 3 * w"
    and "checkRecoveryAndCleanup now e = (e', ps)"
  shows "PatchPod ns name (healthPatch ''healthy'') \<in> set ps \<and>
    map_of (unhealthyPods e') k = None \<and> map_of (violationTimes e') k = None"
proof -
  have e': "e' = fst (checkRecoveryAndCleanup now e)" and ps: "ps = snd (checkRecoveryAndCleanup now e)"
    using assms(15) by simp_all
  have cut: "cutoff now (podWindow e k) = now - w" "recoveryCutoff now (podWindow e k) = now - 3 * w"
    using cutoff_exact [of "podWindow e k" now] recoveryCutoff_exact [of "podWindow e k" now] assms(10-12)
    by simp_all
  have old: "prune now (podWindow e k) ts = []"
    using assms(11,13) by (fastforce simp: prune_def After_def cut filter_empty_conv)
  moreover have "latestOf ts < now - 3 * w"
    using latestOf_in [of ts] assms(13,14) by (auto simp: zeroTime_def)
  ultimately have rec: "k \<in> set (recovering now e)"
    using assms(8,9) by (auto simp: recovering_iff assms(1) recovers_def mapIndex_def cut Before_def)
  have "healthyPatches e k = [PatchPod ns name (healthPatch ''healthy'')]"
    using assms(2,6,7) by (simp add: healthyPatches_def markPodStatus_def assms(3) Split_podKeyOf [OF assms(4,5)])
  with rec have "PatchPod ns name (healthPatch ''healthy'') \<in> set ps"
    by (force simp: ps tick_patches)
  moreover have "map_of (unhealthyPods e') k = None"
    using rec twoParts_podKeyOf [OF assms(4,5)] assms(3) by (simp add: e' tick_unhealthy assms(1))
  moreover have "map_of (violationTimes e') k = None"
    using old assms(9) by (simp add: e' tick_violations assms(1) Let_def)
  ultimately show ?thesis by simp
qed

theorem recovery_after_long_gap_witness:
  "let r = checkRecoveryAndCleanup 40000000000 flaggedEvaluator in
   PatchPod ''ns'' ''w0'' (healthPatch ''healthy'') \<in> set (snd r) \<and>
   map_of (unhealthyPods (fst r)) ''ns/w0'' = None \<and> map_of (violationTimes (fst r)) ''ns/w0'' = None"
proof -
  let ?r = "checkRecoveryAndCleanup 40000000000 flaggedEvaluator"
  have "PatchPod ''ns'' ''w0'' (healthPatch ''healthy'') \<in> set (snd ?r) \<and>
      map_of (unhealthyPods (fst ?r)) ''ns/w0'' = None \<and> map_of (violationTimes (fst ?r)) ''ns/w0'' = None"
    by (rule recovery_after_long_gap [where e = flaggedEvaluator and now = 40000000000 and
          w = 10000000000 and ts = "[1000000000, 5000000000]"])
      (simp_all add: podKeyOf_def)
  then show ?thesis by (simp only: Let_def)
qed

text \<open>
  C36. A pod that stops reporting is forgotten without a word: a tick at which it was last seen more
  than three (positive) windows ago and no violation of it is recorded removes its flag, its cached
  configuration and its last-seen time, and sends no patch for it, so an "unhealthy" annotation
  written earlier stays on the pod.
\<close>

theorem silent_pod_is_forgotten:
  assumes "wf_evaluator e" and "k = podKeyOf ns name"
    and "map_of (violationTimes e) k = None" and "map_of (lastSeenTimes e) k = Some seen"
    and "w = sint (podWindow e k)" and "0 < w" and "3 * w < 2 ^ 63" and "seen < now - 3 * w"
    and "checkRecoveryAndCleanup now e = (e', ps)"
  shows "map_of (unhealthyPods e') k = None \<and> map_of (podConfigs e') k = None \<and>
    map_of (lastSeenTimes e') k = None \<and> (\<forall>body. PatchPod ns name body \<notin> set ps)"
proof -
  have e': "e' = fst (checkRecoveryAndCleanup now e)" and ps: "ps = snd (checkRecoveryAndCleanup now e)"
    using assms(9) by simp_all
  have "stale now e k"
    using recoveryCutoff_exact [of "podWindow e k" now] assms(4-8) by (simp add: stale_def Before_def)
  moreover have "PatchPod ns name body \<notin> set ps" for body
  proof
    assume "PatchPod ns name body \<in> set ps"
    then obtain j where "j \<in> set (recovering now e)" "PatchPod ns name body \<in> set (healthyPatches e j)"
      by (auto simp: ps tick_patches)
    with healthyPatches_in assms(1,2,3) show False by (fastforce simp: recovering_iff)
  qed
  ultimately show ?thesis
    by (simp add: e' tick_unhealthy tick_podConfigs tick_lastSeen assms(1))
qed

theorem silent_pod_is_forgotten_witness:
  "let e = flaggedEvaluator\<lparr>violationTimes := []\<rparr>; r = checkRecoveryAndCleanup 40000000000 e in
   map_of (unhealthyPods e) ''ns/w0'' = Some True \<and>
   map_of (unhealthyPods (fst r)) ''ns/w0'' = None \<and>
   (\<forall>body. PatchPod ''ns'' ''w0'' body \<notin> set (snd r))"
proof -
  let ?e = "flaggedEvaluator\<lparr>violationTimes := []\<rparr>"
  let ?r = "checkRecoveryAndCleanup 40000000000 ?e"
  have "wf_evaluator ?e" using flagged_simps(1) by (simp add: wf_evaluator_def)
  then have "map_of (unhealthyPods (fst ?r)) ''ns/w0'' = None \<and> map_of (podConfigs (fst ?r)) ''ns/w0'' = None \<and>
      map_of (lastSeenTimes (fst ?r)) ''ns/w0'' = None \<and> (\<forall>body. PatchPod ''ns'' ''w0'' body \<notin> set (snd ?r))"
    by (rule silent_pod_is_forgotten [where now = 40000000000 and w = 10000000000 and seen = 5000000000])
      (simp_all add: podKeyOf_def)
  then show ?thesis by (simp add: Let_def)
qed

section \<open>Degenerate configurations\<close>

lemma zero_window_silent:
  assumes "effectiveConfig api ev e = Some c" and "WindowSize (gcEvalConfig c) = 0"
    and "0 \<le> sint (ErrorCountLimit (gcEvalConfig c))"
    and "\<forall>t\<in>set (mapIndex [] (violationTimes e) (eventKey ev)). t \<le> now" and "now \<le> now2"
  shows "snd (processEvent api now now2 ev e) = []"
proof (cases "evaluates ev")
  case True
  have "cutoff now2 (seconds 0) = now2" by (simp add: cutoff_def Add_def seconds_def)
  then have "prune now2 (seconds 0) (mapIndex [] (violationTimes e) (eventKey ev) @ [now]) = []"
    using assms(4,5) by (fastforce simp: prune_def After_def filter_empty_conv)
  then have "\<not> exceeds now now2 ev (Some c) e"
    using assms(2,3) by (simp add: exceeds_def limits_def)
  then show ?thesis by (simp add: processEvent_patches [OF True] assms(1))
qed (simp add: processEvent_def)

text \<open>
  A policy that leaves out its window (an omitted field is zero) switches evaluation off: with
  such a configuration and a non-negative limit no event of the pod is ever reported, however slow
  it is; the agent's default window is not used.
\<close>

theorem zero_window_never_flags:
  assumes "effectiveConfig api ev e = Some c" and "WindowSize (gcEvalConfig c) = 0"
    and "0 \<le> sint (ErrorCountLimit (gcEvalConfig c))"
    and "\<forall>t\<in>set (mapIndex [] (violationTimes e) (eventKey ev)). t \<le> now" and "now \<le> now2"
  shows "snd (processEvent api now now2 ev e) = []"
  using assms by (rule zero_window_silent)

theorem zero_window_never_flags_witness:
  "let c = zeroGovernanceConfig; e = sampleEvaluator\<lparr>podConfigs := [(''ns/w0'', c)]\<rparr> in
   sint (MaxNCCLLatencyUs (gcThresholds c)) < sint (DurationUs (sampleEvent 1000000)) \<and>
   snd (processEvent noApi 5 6 (sampleEvent 1000000) e) = []"
proof -
  let ?e = "sampleEvaluator\<lparr>podConfigs := [(''ns/w0'', zeroGovernanceConfig)]\<rparr>"
  have "effectiveConfig noApi (sampleEvent 1000000) ?e = Some zeroGovernanceConfig"
    by (simp add: effectiveConfig_def eventKey_sample)
  then have "snd (processEvent noApi 5 6 (sampleEvent 1000000) ?e) = []"
    by (rule zero_window_never_flags)
      (simp_all add: zeroGovernanceConfig_def zeroEvalConfig_def mapIndex_def sampleEvaluator_def
        SetK8sClient_def NewHealthEvaluator_def)
  then show ?thesis
    by (simp add: Let_def zeroGovernanceConfig_def zeroThresholds_def)
qed

section \<open>The interleaved machine\<close>

lemma patch_ok_form:
  assumes "patch_ok patch"
  shows "\<exists>ns name status. patch = PatchPod ns name (healthPatch status) \<and>
    name \<noteq> '''' \<and> name \<noteq> ''unknown'' \<and> status \<in> {''healthy'', ''unhealthy''}"
proof (cases patch)
  case (PatchPod ns name body)
  then obtain status where "body = healthPatch status" "status \<in> {''healthy'', ''unhealthy''}"
    using assms unfolding patch_ok_def by auto
  then show ?thesis using assms PatchPod unfolding patch_ok_def by auto
qed

text \<open>
  C7. In every reachable state of the agent's evaluator, however its goroutines interleave and
  whatever the API server answers: each of the four maps has one entry per pod; the recorded
  violations of a pod are a non-empty ascending list of times not in the future; a pod is flagged
  only while it is also recorded as seen, not in the future; the event queue never holds more than
  its capacity; and every patch that was sent sets the health annotation to "healthy" or "unhealthy"
  on a pod whose name is neither empty nor "unknown".
\<close>

theorem evaluator_invariant:
  assumes "sys_init s" and "sys_step\<^sup>*\<^sup>* s t"
  shows "(distinct (map fst (violationTimes (hev t))) \<and> distinct (map fst (lastSeenTimes (hev t))) \<and>
      distinct (map fst (unhealthyPods (hev t))) \<and> distinct (map fst (podConfigs (hev t)))) \<and>
    (\<forall>k ts. map_of (violationTimes (hev t)) k = Some ts \<longrightarrow>
             ts \<noteq> [] \<and> sorted ts \<and> (\<forall>x\<in>set ts. x \<le> clock t)) \<and>
    (\<forall>k b. map_of (unhealthyPods (hev t)) k = Some b \<longrightarrow>
       b \<and> (\<exists>seen. map_of (lastSeenTimes (hev t)) k = Some seen \<and> seen \<le> clock t)) \<and>
    length (metricsChan (hev t)) \<le> 1000 \<and>
    (\<forall>patch\<in>set (patches t). \<exists>ns name status. patch = PatchPod ns name (healthPatch status) \<and>
       name \<noteq> '''' \<and> name \<noteq> ''unknown'' \<and> status \<in> {''healthy'', ''unhealthy''})"
proof -
  have inv: "sys_inv t" using assms by (rule evaluator.inv_reachable)
  then have "\<forall>patch\<in>set (patches t). \<exists>ns name status. patch = PatchPod ns name (healthPatch status) \<and>
      name \<noteq> '''' \<and> name \<noteq> ''unknown'' \<and> status \<in> {''healthy'', ''unhealthy''}"
    using patch_ok_form unfolding sys_inv_def list_all_iff by blast
  moreover have "distinct (map fst (violationTimes (hev t))) \<and> distinct (map fst (lastSeenTimes (hev t))) \<and>
      distinct (map fst (unhealthyPods (hev t))) \<and> distinct (map fst (podConfigs (hev t)))"
    using inv by (simp add: sys_inv_def wf_evaluator_def wf_map_def)
  moreover have "\<forall>k ts. map_of (violationTimes (hev t)) k = Some ts \<longrightarrow>
      ts \<noteq> [] \<and> sorted ts \<and> (\<forall>x\<in>set ts. x \<le> clock t)"
    using inv by (auto simp: sys_inv_def times_ok_def)
  moreover have "\<forall>k b. map_of (unhealthyPods (hev t)) k = Some b \<longrightarrow>
      b \<and> (\<exists>seen. map_of (lastSeenTimes (hev t)) k = Some seen \<and> seen \<le> clock t)"
    using inv by (fastforce simp: sys_inv_def times_ok_def flags_ok_def)
  moreover have "length (metricsChan (hev t)) \<le> 1000"
    using inv by (simp add: sys_inv_def metricsChanCap_def)
  ultimately show ?thesis by (elim conjE) (intro conjI)
qed

definition sampleSys :: sys where
  "sampleSys = \<lparr>clock = 1, hev = SetK8sClient True (SetNodeName ''node-a'' (NewHealthEvaluator 10 0 500)),
     loop = LIdle, syncer = SyncRunning, patches = []\<rparr>"

text \<open>The witness runs one slow event through the evaluator: it is queued, begun, fetched for and evaluated.\<close>

theorem evaluator_invariant_witness:
  "\<exists>t. sys_step\<^sup>*\<^sup>* sampleSys t \<and> map_of (unhealthyPods (hev t)) ''ns/w0'' = Some True \<and>
     patches t = [PatchPod ''ns'' ''w0'' (healthPatch ''unhealthy'')] \<and>
     (\<exists>seen. map_of (lastSeenTimes (hev t)) ''ns/w0'' = Some seen \<and> seen \<le> clock t)"
proof -
  let ?ev = "sampleEvent 900"
  let ?s1 = "sampleSys\<lparr>hev := (hev sampleSys)\<lparr>metricsChan := [?ev]\<rparr>\<rparr>"
  obtain c e2 where b: "peBegin 1 ?ev (hev sampleSys) = (c, e2)" by fastforce
  obtain config e3 where f: "peFetch noApi ?ev c e2 = (config, e3)" by fastforce
  obtain e4 ps where v: "peEval 1 1 ?ev config e3 = (e4, ps)" by fastforce
  have e: "processEvent noApi 1 1 ?ev (hev sampleSys) = (e4, ps)"
    using b f v by (simp add: processEvent_def)
  have whole: "map_of (unhealthyPods (fst (processEvent noApi 1 1 ?ev (hev sampleSys)))) ''ns/w0'' = Some True \<and>
      snd (processEvent noApi 1 1 ?ev (hev sampleSys)) = [PatchPod ''ns'' ''w0'' (healthPatch ''unhealthy'')]"
    by code_simp
  let ?s2 = "sampleSys\<lparr>hev := e2, loop := LFetch ?ev 1 c\<rparr>"
  let ?s3 = "sampleSys\<lparr>hev := e3, loop := LEval ?ev 1 config\<rparr>"
  let ?s4 = "sampleSys\<lparr>hev := e4, loop := LIdle, patches := ps\<rparr>"
  have sel: "clock sampleSys = 1" "loop sampleSys = LIdle" "patches sampleSys = []"
      "metricsChan (hev sampleSys) = []" "(hev sampleSys)\<lparr>metricsChan := []\<rparr> = hev sampleSys"
    by (simp_all add: sampleSys_def SetK8sClient_def SetNodeName_def NewHealthEvaluator_def)
  have "sys_step sampleSys ?s1" "sys_step ?s1 ?s2" "sys_step ?s2 ?s3" "sys_step ?s3 ?s4"
    using sys_step.enqueue [of sampleSys ?ev] sys_step.loop_begin [of ?s1 ?ev "[]" c e2] b
      sys_step.loop_fetch [of ?s2 ?ev 1 c noApi config e3] f sys_step.loop_eval [of ?s3 ?ev 1 config e4 ps] v
    by (simp_all add: sel metricsChanCap_def)
  then have run: "sys_step\<^sup>*\<^sup>* sampleSys ?s4" by (meson converse_rtranclp_into_rtranclp r_into_rtranclp)
  have init: "sys_init sampleSys" by (auto simp: sys_init_def sampleSys_def)
  have flag: "map_of (unhealthyPods (hev ?s4)) ''ns/w0'' = Some True"
    and sent: "patches ?s4 = [PatchPod ''ns'' ''w0'' (healthPatch ''unhealthy'')]"
    using whole e by simp_all
  obtain seen where "map_of (lastSeenTimes (hev ?s4)) ''ns/w0'' = Some seen" "seen \<le> clock ?s4"
    using evaluator_invariant [OF init run, THEN conjunct2, THEN conjunct2, THEN conjunct1, rule_format, OF flag]
    by (elim conjE exE)
  with flag sent show ?thesis by (intro exI [of _ ?s4] exI [of _ seen] conjI run)
qed

text \<open>What the goroutines have recorded, which nothing changes any more once both have ended.\<close>

definition recorded ::
  "sys \<Rightarrow> (string, Time list) gomap \<times> (string, Time) gomap \<times> (string, bool) gomap \<times>
     (string, GovernanceConfig) gomap \<times> PatchCall list" where
  "recorded s = (violationTimes (hev s), lastSeenTimes (hev s), unhealthyPods (hev s), podConfigs (hev s), patches s)"

definition ended :: "sys \<Rightarrow> bool" where
  "ended s \<longleftrightarrow> loop s = LExited \<and> syncer s = SyncExited"

lemma ended_step: "sys_step s t \<Longrightarrow> ended s \<Longrightarrow> ended t \<and> recorded t = recorded s"
  by (induction rule: sys_step.induct)
    (auto simp: ended_def recorded_def Stop_def elim: periodicSync_cases split: if_splits)

lemma ended_steps: "sys_step\<^sup>*\<^sup>* s t \<Longrightarrow> ended s \<Longrightarrow> ended t \<and> recorded t = recorded s"
  by (induction rule: rtranclp_induct) (auto dest: ended_step)

lemma loop_finishes:
  assumes "stopChan (hev s)"
  shows "\<exists>t. sys_step\<^sup>*\<^sup>* s t \<and> loop t = LExited \<and> syncer t = syncer s \<and> stopChan (hev t)"
proof -
  have idle: "\<exists>t. sys_step\<^sup>*\<^sup>* u t \<and> loop t = LExited \<and> syncer t = syncer u \<and> stopChan (hev t)"
    if "loop u = LIdle" "stopChan (hev u)" for u
    using sys_step.loop_exit [OF that] that by (intro exI [of _ "u\<lparr>loop := LExited\<rparr>"]) auto
  have eval: "\<exists>t. sys_step\<^sup>*\<^sup>* u t \<and> loop t = LExited \<and> syncer t = syncer u \<and> stopChan (hev t)"
    if "loop u = LEval ev now config" "stopChan (hev u)" for u ev now config
  proof -
    obtain e' ps where r: "peEval now (clock u) ev config (hev u) = (e', ps)" by fastforce
    then have "stopChan e'" using peEval_frame(8) [of now "clock u" ev config "hev u"] that(2) by simp
    with sys_step.loop_eval [OF that(1) r] idle [of "u\<lparr>hev := e', loop := LIdle, patches := patches u @ ps\<rparr>"]
    show ?thesis by (auto intro: converse_rtranclp_into_rtranclp)
  qed
  have fetch: "\<exists>t. sys_step\<^sup>*\<^sup>* u t \<and> loop t = LExited \<and> syncer t = syncer u \<and> stopChan (hev t)"
    if "loop u = LFetch ev now cached" "stopChan (hev u)" for u ev now cached
  proof -
    obtain config e' where r: "peFetch noApi ev cached (hev u) = (config, e')" by fastforce
    then have "stopChan e'" using peFetch_frame(9) [of noApi ev cached "hev u"] that(2) by simp
    with sys_step.loop_fetch [OF that(1) r] eval [of "u\<lparr>hev := e', loop := LEval ev now config\<rparr>"]
    show ?thesis by (auto intro: converse_rtranclp_into_rtranclp)
  qed
  have recover: "\<exists>t. sys_step\<^sup>*\<^sup>* u t \<and> loop t = LExited \<and> syncer t = syncer u \<and> stopChan (hev t)"
    if "loop u = LRecover ks" "stopChan (hev u)" for u ks
    using that
  proof (induction ks arbitrary: u)
    case Nil
    with sys_step.loop_ticked [of u] idle [of "u\<lparr>loop := LIdle\<rparr>"] show ?case
      by (auto intro: converse_rtranclp_into_rtranclp)
  next
    case (Cons k ks)
    obtain e' ps where r: "recoverPods [k] (hev u) = (e', ps)" by fastforce
    then have "stopChan e'" using recoverPods_frame(10) [of "[k]" "hev u"] Cons.prems(2) by simp
    with sys_step.loop_recover [OF Cons.prems(1) r]
      Cons.IH [of "u\<lparr>hev := e', loop := LRecover ks, patches := patches u @ ps\<rparr>"]
    show ?case by (auto intro: converse_rtranclp_into_rtranclp)
  qed
  show ?thesis using idle eval fetch recover assms by (cases "loop s") auto
qed

lemma sync_finishes:
  assumes "stopChan (hev s)"
  shows "\<exists>t. sys_step\<^sup>*\<^sup>* s t \<and> syncer t = SyncExited \<and> loop t = loop s"
proof (cases "syncer s")
  case SyncRunning
  then have "sys_step s (s\<lparr>syncer := SyncExited\<rparr>)"
    using sys_step.sync [of s SyncExited "hev s"] periodicSync.sync_exit [OF assms] by simp
  then show ?thesis by (intro exI [of _ "s\<lparr>syncer := SyncExited\<rparr>"]) auto
qed auto

text \<open>
  C32. Stopping the evaluator: once \<open>Stop\<close> has closed the channel, from whatever point of an event both
  goroutines can run to their end, so that neither is stuck; and once both have ended, no further step
  changes the recorded violations, times, flags and configurations or sends a patch. A second \<open>Stop\<close>
  panics.
\<close>

theorem stop_ends_goroutines:
  assumes "Stop (hev s) = Some e'"
  shows "(\<exists>t. sys_step\<^sup>*\<^sup>* (s\<lparr>hev := e'\<rparr>) t \<and> ended t) \<and> Stop e' = None \<and>
     (\<forall>t u. sys_step\<^sup>*\<^sup>* (s\<lparr>hev := e'\<rparr>) t \<and> ended t \<and> sys_step\<^sup>*\<^sup>* t u \<longrightarrow> ended u \<and> recorded u = recorded t)"
proof -
  have "stopChan e'" using assms by (auto simp: Stop_def split: if_splits)
  then obtain t1 where t1: "sys_step\<^sup>*\<^sup>* (s\<lparr>hev := e'\<rparr>) t1" "loop t1 = LExited" "stopChan (hev t1)"
    using loop_finishes [of "s\<lparr>hev := e'\<rparr>"] by auto
  then obtain t2 where "sys_step\<^sup>*\<^sup>* t1 t2" "syncer t2 = SyncExited" "loop t2 = LExited"
    using sync_finishes [OF t1(3)] by auto
  with t1(1) have "\<exists>t. sys_step\<^sup>*\<^sup>* (s\<lparr>hev := e'\<rparr>) t \<and> ended t"
    by (intro exI [of _ t2]) (auto simp: ended_def)
  with \<open>stopChan e'\<close> ended_steps show ?thesis by (auto simp: Stop_def)
qed

theorem stop_ends_goroutines_witness:
  "\<exists>t. sys_step\<^sup>*\<^sup>* (sampleSys\<lparr>hev := (hev sampleSys)\<lparr>stopChan := True\<rparr>\<rparr>) t \<and> ended t"
proof -
  have "Stop (hev sampleSys) = Some ((hev sampleSys)\<lparr>stopChan := True\<rparr>)"
    by (simp add: Stop_def sampleSys_def SetK8sClient_def SetNodeName_def NewHealthEvaluator_def)
  from stop_ends_goroutines [OF this] show ?thesis by blast
qed

end
