(* ===== verification/Evaluator_Window.thy ===== *)
theory Evaluator_Window
  imports Evaluator_Props
begin

text \<open>
  The abstract specification of the evaluator: a sliding window over the whole history of a pod. The
  history is the list of the times of the pod's slow events, nothing is ever deleted from it, and what
  counts at a time is how many of its entries are younger than the window. The code keeps a pruned
  list instead, cleaned up by ticks in between. \<open>window_sim\<close> relates the two, every step keeps it, and
  the decisions of the code are those of the specification. \<open>steady\<close> says that the limits of the pod
  do not change during the run and that the clock does not go back.
\<close>

section \<open>Histories\<close>

definition slowEvent :: "string \<Rightarrow> int64 \<Rightarrow> MetricEvent \<Rightarrow> bool" where
  "slowEvent k threshold ev \<longleftrightarrow> evaluates ev \<and> eventKey ev = k \<and> sint threshold < sint (DurationUs ev)"

fun history :: "string \<Rightarrow> int64 \<Rightarrow> evStep list \<Rightarrow> Time list" where
  "history k threshold [] = []"
| "history k threshold (s # ss) =
     (case s of
        DoEvent api t t2 ev \<Rightarrow> (if slowEvent k threshold ev then [t] else []) @ history k threshold ss
      | _ \<Rightarrow> history k threshold ss)"

fun endTime :: "Time \<Rightarrow> evStep list \<Rightarrow> Time" where
  "endTime now [] = now"
| "endTime now (s # ss) =
     (case s of DoEvent api t t2 ev \<Rightarrow> endTime t2 ss | DoTick t \<Rightarrow> endTime t ss | DoSync api \<Rightarrow> endTime now ss)"

fun steady :: "string \<Rightarrow> int64 \<times> Duration \<times> int64 \<Rightarrow> Time \<Rightarrow> evStep list \<Rightarrow> HealthEvaluator \<Rightarrow> bool" where
  "steady k lims now [] e = True"
| "steady k lims now (s # ss) e =
     (case s of
        DoEvent api t t2 ev \<Rightarrow>
          now \<le> t \<and> t \<le> t2 \<and>
          (evaluates ev \<and> eventKey ev = k \<longrightarrow> limits (effectiveConfig api ev e) e = lims) \<and>
          steady k lims t2 ss (fst (doStep s e))
      | DoTick t \<Rightarrow> now \<le> t \<and> podWindow e k = fst (snd lims) \<and> steady k lims t ss (fst (doStep s e))
      | DoSync api \<Rightarrow> steady k lims now ss (fst (doStep s e)))"

lemma history_append: "history k thr (ss @ ts) = history k thr ss @ history k thr ts"
  by (induction ss) (auto split: evStep.split)

lemma endTime_append: "endTime now (ss @ ts) = endTime (endTime now ss) ts"
  by (induction ss arbitrary: now) (auto split: evStep.split)

lemma runSteps_append:
  "runSteps (ss @ ts) e =
     (fst (runSteps ts (fst (runSteps ss e))), snd (runSteps ss e) @ snd (runSteps ts (fst (runSteps ss e))))"
  by (induction ss arbitrary: e) (simp_all add: split_beta)

lemma steady_append:
  "steady k lims now (ss @ ts) e \<longleftrightarrow>
     steady k lims now ss e \<and> steady k lims (endTime now ss) ts (fst (runSteps ss e))"
  by (induction ss arbitrary: now e) (auto simp: split_beta split: evStep.split)

section \<open>The simulation\<close>

definition window_sim :: "string \<Rightarrow> Duration \<Rightarrow> Time \<Rightarrow> Time list \<Rightarrow> HealthEvaluator \<Rightarrow> bool" where
  "window_sim k w now hist e \<longleftrightarrow>
     (\<forall>t. now \<le> t \<longrightarrow> prune t w (mapIndex [] (violationTimes e) k) = prune t w hist)"

lemma window_sim_event:
  assumes "window_sim k w now hist e" "now \<le> t" "t \<le> t2"
    and "evaluates ev \<and> eventKey ev = k \<longrightarrow> limits (effectiveConfig api ev e) e = (thr, w, lim)"
  shows "window_sim k w t2 (hist @ (if slowEvent k thr ev then [t] else [])) (fst (processEvent api t t2 ev e))"
proof -
  have "mapIndex [] (violationTimes (fst (processEvent api t t2 ev e))) k =
      mapIndex [] (violationTimes e) k @ (if slowEvent k thr ev then [t] else [])"
    using assms(4) by (auto simp: mapIndex_def processEvent_violations slowEvent_def)
  with assms(1-3) show ?thesis by (simp add: window_sim_def prune_append)
qed

lemma window_sim_tick:
  assumes "window_sim k w now hist e" "now \<le> t" "podWindow e k = w" "wf_evaluator e"
  shows "window_sim k w t hist (fst (checkRecoveryAndCleanup t e))"
proof -
  have "mapIndex [] (violationTimes (fst (checkRecoveryAndCleanup t e))) k =
      prune t w (mapIndex [] (violationTimes e) k)"
    using assms(3,4) by (auto simp: mapIndex_def tick_violations Let_def prune_def split: option.split)
  with assms(1,2) show ?thesis by (simp add: window_sim_def prune_prune)
qed

lemma window_sim_run:
  assumes "window_sim k w now hist e" "wf_evaluator e" "steady k (thr, w, lim) now steps e"
  shows "window_sim k w (endTime now steps) (hist @ history k thr steps) (fst (runSteps steps e)) \<and>
    wf_evaluator (fst (runSteps steps e))"
  using assms
proof (induction steps arbitrary: now hist e)
  case (Cons s ss)
  note wf = doStep_wf [OF Cons.prems(2), of s]
  show ?case
  proof (cases s)
    case (DoEvent api t t2 ev)
    have "window_sim k w t2 (hist @ (if slowEvent k thr ev then [t] else [])) (fst (doStep s e))"
      using Cons.prems(1,3) window_sim_event [of k w now hist e t t2 ev api thr lim] DoEvent by simp
    from Cons.IH [OF this wf] Cons.prems(3) DoEvent show ?thesis by (simp add: split_beta)
  next
    case (DoTick t)
    have "window_sim k w t hist (fst (doStep s e))"
      using Cons.prems window_sim_tick [of k w now hist e t] DoTick by simp
    from Cons.IH [OF this wf] Cons.prems(3) DoTick show ?thesis by (simp add: split_beta)
  next
    case (DoSync api)
    have "window_sim k w now hist (fst (doStep s e))"
      using Cons.prems(1) DoSync by (simp add: window_sim_def)
    from Cons.IH [OF this wf] Cons.prems(3) DoSync show ?thesis by (simp add: split_beta)
  qed
qed simp

definition freshEvaluator :: "bool \<Rightarrow> string \<Rightarrow> int64 \<Rightarrow> int64 \<Rightarrow> int64 \<Rightarrow> HealthEvaluator" where
  "freshEvaluator c node win lim thr = SetK8sClient c (SetNodeName node (NewHealthEvaluator win lim thr))"

lemma freshEvaluator_sel [simp]:
  "violationTimes (freshEvaluator c node win lim thr) = []"
  "unhealthyPods (freshEvaluator c node win lim thr) = []"
  "k8sClient (freshEvaluator c node win lim thr) = c"
  "wf_evaluator (freshEvaluator c node win lim thr)"
  by (simp_all add: freshEvaluator_def SetK8sClient_def SetNodeName_def NewHealthEvaluator_def wf_evaluator_def)

lemma fresh_sim:
  assumes "steady k (thr, w, lim) now steps (freshEvaluator c node win l th)"
  shows "window_sim k w (endTime now steps) (history k thr steps)
      (fst (runSteps steps (freshEvaluator c node win l th)))"
  using window_sim_run [OF _ _ assms, of "[]"] by (simp add: window_sim_def mapIndex_def)

section \<open>Flags and patches\<close>

lemma processEvent_unhealthy:
  "map_of (unhealthyPods (fst (processEvent api now now2 ev e))) k =
   (if evaluates ev \<and> k = eventKey ev \<and> exceeds now now2 ev (effectiveConfig api ev e) e \<and>
       \<not> mapIndex False (unhealthyPods e) k
    then Some True else map_of (unhealthyPods e) k)"
proof (cases "evaluates ev")
  case True
  then show ?thesis
    using exceeds_cong [of "snd (peFetch api ev (map_of (podConfigs e) (eventKey ev)) (snd (peBegin now ev e)))" e]
    by (auto simp: processEvent_sections Let_def peEval_unhealthy peFetch_effective)
qed (simp add: processEvent_def)

text \<open>A flag is only ever set together with a patch for a pod of that key.\<close>

definition reported :: "string \<Rightarrow> PatchCall list \<Rightarrow> bool" where
  "reported k ps \<longleftrightarrow> (\<exists>ns name. podKeyOf ns name = k \<and> PatchPod ns name (healthPatch ''unhealthy'') \<in> set ps)"

lemma doStep_k8s: "k8sClient (fst (doStep s e)) = k8sClient e"
  by (cases s) (simp_all add: processEvent_def split_beta)

lemma doStep_reports:
  assumes "wf_evaluator e" "k8sClient e" "mapIndex False (unhealthyPods (fst (doStep s e))) k"
    and "\<not> mapIndex False (unhealthyPods e) k"
  shows "reported k (snd (doStep s e))"
proof (cases s)
  case (DoEvent api t t2 ev)
  have flag: "evaluates ev \<and> k = eventKey ev \<and> exceeds t t2 ev (effectiveConfig api ev e) e"
    using assms(3,4) DoEvent by (auto simp: mapIndex_def processEvent_unhealthy split: if_splits)
  then have "evaluates ev" by simp
  from processEvent_patches [OF this, of api t t2 e] show ?thesis
    using assms(2,4) flag DoEvent by (auto simp: reported_def eventKey_def)
next
  case (DoTick t)
  then have "map_of (unhealthyPods (fst (doStep s e))) k =
      (if stale t e k \<or> k \<in> set (recovering t e) \<and> twoParts k then None else map_of (unhealthyPods e) k)"
    using tick_unhealthy [OF assms(1)] by simp
  with assms(3,4) show ?thesis by (auto simp: mapIndex_def split: if_splits)
next
  case (DoSync api)
  with assms(3,4) show ?thesis by simp
qed

lemma runSteps_reports:
  assumes "wf_evaluator e" "k8sClient e" "mapIndex False (unhealthyPods (fst (runSteps steps e))) k"
  shows "mapIndex False (unhealthyPods e) k \<or> reported k (snd (runSteps steps e))"
  using assms
proof (induction steps arbitrary: e)
  case (Cons s ss)
  have "mapIndex False (unhealthyPods (fst (doStep s e))) k \<or> reported k (snd (runSteps ss (fst (doStep s e))))"
    using Cons.prems doStep_wf [OF Cons.prems(1)] doStep_k8s [of s e] by (intro Cons.IH) (simp_all add: split_beta)
  then show ?case
    using doStep_reports [OF Cons.prems(1,2), of s k] by (auto simp: split_beta reported_def)
qed simp

section \<open>Properties\<close>

text \<open>
  C5. The evaluator implements a sliding window over the whole history: after any sequence of events
  of all pods, ticks and synchronisations on a freshly created evaluator during which the limits of a
  pod do not change, the number of violations that the code counts for that pod at any later time is
  the number of all slow events of the pod that are younger than the window, although ticks have
  deleted old entries in between.
\<close>

theorem window_refines_history:
  assumes "steady k (thr, w, lim) t0 steps (freshEvaluator c node win l th)"
    and "runSteps steps (freshEvaluator c node win l th) = (e, ps)"
    and "endTime t0 steps \<le> now" and "0 < sint w"
  shows "countViolationsLocked now k w e =
    length (filter (\<lambda>t. now - sint w < t) (history k thr steps))"
proof -
  have "prune now w (mapIndex [] (violationTimes e) k) = prune now w (history k thr steps)"
    using fresh_sim [OF assms(1)] assms(2,3) by (simp add: window_sim_def)
  then show ?thesis
    using cutoff_exact [OF assms(4), of now] by (simp add: countViolations_prune) (simp add: prune_def After_def)
qed

text \<open>The pod \<open>ns/w0\<close> with two slow events, a tick that deletes the first, and a third one.\<close>

definition windowRun :: "evStep list" where
  "windowRun = [DoEvent noApi 1000000000 1000000000 (sampleEvent 900),
     DoEvent noApi 9000000000 9000000000 (sampleEvent 900), DoTick 12000000000,
     DoEvent noApi 13000000000 13000000000 (sampleEvent 900)]"

lemma windowRun_steady:
  "steady ''ns/w0'' (500, 10000000000, 1) 0 windowRun (freshEvaluator True ''n1'' 10 1 500)"
  by code_simp

theorem window_refines_history_witness:
  "countViolationsLocked 14000000000 ''ns/w0'' 10000000000
      (fst (runSteps windowRun (freshEvaluator True ''n1'' 10 1 500))) = 2"
proof -
  have "history ''ns/w0'' 500 windowRun = [1000000000, 9000000000, 13000000000]" by code_simp
  moreover have "endTime 0 windowRun \<le> 14000000000" by code_simp
  ultimately show ?thesis
    using window_refines_history [OF windowRun_steady, of _ _ 14000000000]
    by (cases "runSteps windowRun (freshEvaluator True ''n1'' 10 1 500)") simp
qed

text \<open>
  C14. A pod that stays slow is reported: in any such run that ends with a slow event of the pod, if the
  pod's slow events younger than the window are more than the limit, then the pod is flagged
  afterwards, and, with an API client, the agent has sent the patch "unhealthy" for it during the run.
\<close>

theorem slow_pod_is_reported:
  assumes "steady k (thr, w, lim) t0 (steps @ [DoEvent api t t2 ev]) (freshEvaluator c node win l th)"
    and "runSteps (steps @ [DoEvent api t t2 ev]) (freshEvaluator c node win l th) = (e, ps)"
    and "slowEvent k thr ev" and "0 < sint w"
    and "sint lim < int (length (filter (\<lambda>x. t2 - sint w < x) (history k thr steps @ [t])))"
  shows "map_of (unhealthyPods e) k = Some True \<and> (c \<longrightarrow> reported k ps)"
proof -
  let ?e0 = "freshEvaluator c node win l th" and ?e1 = "fst (runSteps steps (freshEvaluator c node win l th))"
  have st: "steady k (thr, w, lim) t0 steps ?e0" "endTime t0 steps \<le> t" "t \<le> t2"
      "limits (effectiveConfig api ev ?e1) ?e1 = (thr, w, lim)"
    using assms(1,3) by (auto simp: steady_append slowEvent_def)
  have "prune t2 w (mapIndex [] (violationTimes ?e1) k @ [t]) = prune t2 w (history k thr steps @ [t])"
    using fresh_sim [OF st(1)] st(2,3) by (simp add: window_sim_def prune_append)
  then have "exceeds t t2 ev (effectiveConfig api ev ?e1) ?e1"
    using assms(3,5) st(4) cutoff_exact [OF assms(4), of t2]
    by (simp add: exceeds_def slowEvent_def) (simp add: prune_def After_def)
  moreover have e: "e = fst (processEvent api t t2 ev ?e1)" "ps = snd (runSteps (steps @ [DoEvent api t t2 ev]) ?e0)"
    using assms(2) by (simp_all add: runSteps_append split_beta)
  ultimately have flag: "mapIndex False (unhealthyPods e) k"
    using assms(3) by (auto simp: processEvent_unhealthy slowEvent_def mapIndex_def)
  then have "c \<longrightarrow> reported k ps"
    using runSteps_reports [of ?e0 "steps @ [DoEvent api t t2 ev]" k] assms(2) by (auto simp: mapIndex_def)
  with flag show ?thesis by (auto simp: mapIndex_def split: option.splits)
qed

theorem slow_pod_is_reported_witness:
  "map_of (unhealthyPods (fst (runSteps windowRun (freshEvaluator True ''n1'' 10 1 500)))) ''ns/w0'' = Some True \<and>
   reported ''ns/w0'' (snd (runSteps windowRun (freshEvaluator True ''n1'' 10 1 500)))"
proof -
  let ?steps = "[DoEvent noApi 1000000000 1000000000 (sampleEvent 900),
     DoEvent noApi 9000000000 9000000000 (sampleEvent 900), DoTick 12000000000]"
  have run: "windowRun = ?steps @ [DoEvent noApi 13000000000 13000000000 (sampleEvent 900)]"
    by (simp add: windowRun_def)
  have "slowEvent ''ns/w0'' 500 (sampleEvent 900)" by (simp add: slowEvent_def eventKey_sample)
  moreover have "sint (1 :: int64) < int (length (filter (\<lambda>x. 13000000000 - sint (10000000000 :: Duration) < x)
      (history ''ns/w0'' 500 ?steps @ [13000000000])))" by code_simp
  ultimately show ?thesis
    using slow_pod_is_reported [OF windowRun_steady [unfolded run], of _ _] unfolding run
    by (cases "runSteps (?steps @ [DoEvent noApi 13000000000 13000000000 (sampleEvent 900)])
      (freshEvaluator True ''n1'' 10 1 500)") auto
qed

end
