(* ===== verification/Go_Float.thy ===== *)
theory Go_Float
  imports Prelude Complex_Main
begin

text \<open>
  Go's \<open>float64\<close> arithmetic as far as the program uses it: conversions from integers, one division,
  one product and comparisons of numbers far from the limits of the exponent range. A float is the
  rational number it denotes; every operation rounds its exact result to 53 significant bits, ties to
  even (\<open>roundf\<close>). Overflow, subnormal numbers, infinities and NaN do not occur: all operands are
  integers below \<open>2 ^ 64\<close> or quotients of such integers.
\<close>

section \<open>Rounding\<close>

fun nlog2 :: "nat \<Rightarrow> nat" where
  "nlog2 n = (if n < 2 then 0 else Suc (nlog2 (n div 2)))"

declare nlog2.simps [simp del]

definition ilog2 :: "rat \<Rightarrow> int" where
  "ilog2 x =
     (let (p, q) = quotient_of x; k = int (nlog2 (nat p)) - int (nlog2 (nat q))
      in if 2 powi k \<le> x then k else k - 1)"

definition rne :: "rat \<Rightarrow> int" where
  "rne y =
     (let f = \<lfloor>y\<rfloor>; d = y - of_int f
      in if d < 1 / 2 then f else if 1 / 2 < d then f + 1 else if even f then f else f + 1)"

definition roundf :: "rat \<Rightarrow> rat" where
  "roundf x =
     (if x = 0 then 0
      else let e = ilog2 \<bar>x\<bar> - 52 in of_int (rne (x / 2 powi e)) * 2 powi e)"

definition float64 :: "int \<Rightarrow> rat" where
  "float64 i = roundf (of_int i)"

definition fdiv :: "rat \<Rightarrow> rat \<Rightarrow> rat" where
  "fdiv a b = roundf (a / b)"

definition fmul :: "rat \<Rightarrow> rat \<Rightarrow> rat" where
  "fmul a b = roundf (a * b)"

section \<open>Logarithm\<close>

lemma nlog2_bounds: "0 < n \<Longrightarrow> 2 ^ nlog2 n \<le> n \<and> n < 2 ^ Suc (nlog2 n)"
proof (induction n rule: nlog2.induct)
  case (1 n)
  show ?case
  proof (cases "n < 2")
    case True
    with 1 show ?thesis by (simp add: nlog2.simps)
  next
    case False
    with 1 have "2 ^ nlog2 (n div 2) \<le> n div 2" "n div 2 < 2 ^ Suc (nlog2 (n div 2))" by simp_all
    moreover have "2 * k \<le> n \<and> n < 4 * k" if "k \<le> n div 2" "n div 2 < 2 * k" for k
      using that by arith
    ultimately show ?thesis using False by (simp add: nlog2.simps [of n])
  qed
qed

lemma ilog2_bounds:
  assumes "0 < x"
  shows "2 powi (ilog2 x) \<le> x \<and> x < 2 powi (ilog2 x + 1)"
proof -
  obtain p q where pq: "quotient_of x = (p, q)" by (cases "quotient_of x")
  then have q: "0 < q" and x: "x = of_int p / of_int q"
    by (auto simp: quotient_of_denom_pos quotient_of_div)
  with assms have p: "0 < p" by (simp add: zero_less_divide_iff)
  define a b where "a = nlog2 (nat p)" and "b = nlog2 (nat q)"
  have "2 ^ a \<le> nat p" "nat p < 2 ^ Suc a" "2 ^ b \<le> nat q" "nat q < 2 ^ Suc b"
    using nlog2_bounds [of "nat p"] nlog2_bounds [of "nat q"] p q by (simp_all add: a_def b_def)
  then have "int (2 ^ a) \<le> p" "p < int (2 ^ Suc a)" "int (2 ^ b) \<le> q" "q < int (2 ^ Suc b)"
    using p q by linarith+
  then have ints: "2 ^ a \<le> p" "p < 2 ^ Suc a" "2 ^ b \<le> q" "q < 2 ^ Suc b"
    by simp_all
  have P: "(2::rat) ^ a \<le> of_int p" "of_int p < (2::rat) ^ Suc a"
    and Q: "(2::rat) ^ b \<le> of_int q" "of_int q < (2::rat) ^ Suc b"
    using ints [folded of_int_le_iff [where 'a = rat] of_int_less_iff [where 'a = rat]] by simp_all
  have upper: "x < 2 powi (int a - int b + 1)"
  proof -
    have "x < 2 ^ Suc a / 2 ^ b"
      unfolding x using P Q p q by (intro frac_less) auto
    also have "\<dots> = 2 powi (int a - int b + 1)"
      by (simp add: power_int_add power_int_diff)
    finally show ?thesis .
  qed
  have lower: "2 powi (int a - int b - 1) < x"
  proof -
    have "2 powi (int a - int b - 1) = (2::rat) ^ a / 2 ^ Suc b"
      by (simp add: power_int_diff)
    also have "\<dots> < x"
      unfolding x using P Q p q by (intro frac_less2) auto
    finally show ?thesis .
  qed
  show ?thesis
    using upper lower by (auto simp: ilog2_def pq a_def b_def Let_def)
qed

section \<open>Rounding error and exactness\<close>

lemma rne_error: "\<bar>of_int (rne y) - y\<bar> \<le> 1 / 2"
proof -
  have "of_int \<lfloor>y\<rfloor> \<le> y" "y < of_int \<lfloor>y\<rfloor> + 1" by linarith+
  then show ?thesis by (auto simp: rne_def Let_def)
qed

lemma rne_of_int [simp]: "rne (of_int i) = i"
  by (simp add: rne_def)

lemma powi_two_pos [simp]: "0 < (2::rat) powi e"
  by (simp add: zero_less_power_int)

lemma roundf_error:
  assumes "0 \<le> x"
  shows "\<bar>roundf x - x\<bar> \<le> x / 2 ^ 53"
proof (cases "x = 0")
  case False
  with assms have x: "0 < x" by simp
  define e where "e = ilog2 x - 52"
  have "roundf x - x = (of_int (rne (x / 2 powi e)) - x / 2 powi e) * 2 powi e"
    using x by (simp add: roundf_def e_def Let_def left_diff_distrib)
  then have "\<bar>roundf x - x\<bar> = \<bar>of_int (rne (x / 2 powi e)) - x / 2 powi e\<bar> * 2 powi e"
    by (simp only: abs_mult abs_of_pos powi_two_pos)
  also have "\<dots> \<le> 1 / 2 * 2 powi e"
    by (intro mult_right_mono rne_error) simp
  also have "\<dots> = 2 powi (ilog2 x) / 2 ^ 53"
    by (simp add: e_def power_int_diff)
  also have "\<dots> \<le> x / 2 ^ 53"
    using ilog2_bounds [OF x] by (intro divide_right_mono) simp_all
  finally show ?thesis .
qed (simp add: roundf_def)

lemma roundf_between:
  assumes "0 \<le> x"
  shows "x * (1 - 1 / 2 ^ 53) \<le> roundf x" "roundf x \<le> x * (1 + 1 / 2 ^ 53)"
  using roundf_error [OF assms] unfolding abs_le_iff by (simp_all add: field_simps)

lemma roundf_nonneg:
  assumes "0 \<le> x"
  shows "0 \<le> roundf x"
proof -
  have "0 \<le> x * (1 - 1 / 2 ^ 53)" using assms by (intro mult_nonneg_nonneg) simp_all
  also have "\<dots> \<le> roundf x" by (intro roundf_between assms)
  finally show ?thesis .
qed

lemma roundf_uminus_exact_exponent:
  assumes "x \<noteq> 0" "ilog2 \<bar>x\<bar> \<le> 52" "x = of_int i"
  shows "roundf x = x"
proof -
  define n where "n = nat (52 - ilog2 \<bar>x\<bar>)"
  have e: "ilog2 \<bar>x\<bar> - 52 = - int n" using assms(2) by (simp add: n_def)
  have "x / 2 powi (- int n) = of_int (i * 2 ^ n)"
    by (simp add: assms(3) power_int_minus divide_inverse)
  then have "rne (x / 2 powi (- int n)) = i * 2 ^ n"
    by (simp only: rne_of_int)
  then have "roundf x = of_int (i * 2 ^ n) * 2 powi (- int n)"
    using assms(1) by (simp only: roundf_def e Let_def if_False)
  then show ?thesis
    by (simp add: assms(3) power_int_minus)
qed

lemma float64_exact:
  assumes "\<bar>i\<bar> < 2 ^ 53"
  shows "float64 i = of_int i"
proof (cases "i = 0")
  case False
  let ?x = "of_int i :: rat"
  have pos: "0 < \<bar>?x\<bar>" using False by simp
  have "\<bar>?x\<bar> < of_int (2 ^ 53)"
    using assms by (simp only: of_int_abs [symmetric] of_int_less_iff)
  with ilog2_bounds [OF pos] have "(2::rat) powi ilog2 \<bar>?x\<bar> < 2 powi 53" by simp
  then have "ilog2 \<bar>?x\<bar> < 53" by (rule power_int_le_imp_less_exp [rotated]) simp_all
  with False show ?thesis
    unfolding float64_def by (intro roundf_uminus_exact_exponent [where i = i]) simp_all
qed (simp add: float64_def roundf_def)

section \<open>Comparing rounded numbers\<close>

text \<open>
  A relative distance of \<open>2 ^ -50\<close> survives two roundings on either side, so comparisons of rounded
  numbers decide what the exact comparison decides unless the exact numbers are closer than that.
\<close>

lemma roundf_less:
  assumes "0 < x" "x * (1 + 1 / 2 ^ 50) \<le> y"
  shows "roundf x < roundf y"
proof -
  have y: "0 \<le> y" using assms by (intro order_trans [OF _ assms(2)]) simp
  have "roundf x \<le> x * (1 + 1 / 2 ^ 53)" using assms by (intro roundf_between) simp
  also have "\<dots> < x * (1 + 1 / 2 ^ 50) * (1 - 1 / 2 ^ 53)" using assms(1) by simp
  also have "\<dots> \<le> y * (1 - 1 / 2 ^ 53)" by (intro mult_right_mono assms(2)) simp
  also have "\<dots> \<le> roundf y" by (intro roundf_between y)
  finally show ?thesis .
qed

lemma fmul_fdiv_between:
  assumes "0 \<le> a" "0 < b" "0 \<le> c"
  shows "a / b * c * (1 - 1 / 2 ^ 51) \<le> fmul (fdiv a b) c"
    and "fmul (fdiv a b) c \<le> a / b * c * (1 + 1 / 2 ^ 51)"
proof -
  let ?r = "a / b" and ?f = "fdiv a b"
  have r: "0 \<le> ?r" using assms by simp
  have rc: "0 \<le> ?r * c" by (intro mult_nonneg_nonneg r assms)
  have f: "0 \<le> ?f" unfolding fdiv_def by (intro roundf_nonneg r)
  have "?r * c * (1 - 1 / 2 ^ 51) \<le> ?r * c * ((1 - 1 / 2 ^ 53) * (1 - 1 / 2 ^ 53))"
    by (intro mult_left_mono rc) simp
  also have "\<dots> = ?r * (1 - 1 / 2 ^ 53) * c * (1 - 1 / 2 ^ 53)" by (simp only: mult_ac)
  also have "\<dots> \<le> ?f * c * (1 - 1 / 2 ^ 53)"
    unfolding fdiv_def using assms(3) by (intro mult_right_mono roundf_between r) simp_all
  also have "\<dots> \<le> fmul ?f c"
    unfolding fmul_def using f assms(3) by (intro roundf_between) simp
  finally show "?r * c * (1 - 1 / 2 ^ 51) \<le> fmul ?f c" .
  have "fmul ?f c \<le> ?f * c * (1 + 1 / 2 ^ 53)"
    unfolding fmul_def using f assms(3) by (intro roundf_between) simp
  also have "\<dots> \<le> ?r * (1 + 1 / 2 ^ 53) * c * (1 + 1 / 2 ^ 53)"
    unfolding fdiv_def using assms(3) by (intro mult_right_mono roundf_between r) simp_all
  also have "\<dots> = ?r * c * ((1 + 1 / 2 ^ 53) * (1 + 1 / 2 ^ 53))" by (simp only: mult_ac)
  also have "\<dots> \<le> ?r * c * (1 + 1 / 2 ^ 51)"
    by (intro mult_left_mono rc) simp
  finally show "fmul ?f c \<le> ?r * c * (1 + 1 / 2 ^ 51)" .
qed

section \<open>Evaluating roundings\<close>

lemma ilog2_unique:
  assumes "0 < x" "2 powi k \<le> x" "x < 2 powi (k + 1)"
  shows "ilog2 x = k"
proof -
  have less: "a < b + 1" if "(2::rat) powi a < 2 powi (b + 1)" for a b
    using that power_int_increasing [of "b + 1" a "2 :: rat"] by (cases "a < b + 1") simp_all
  from ilog2_bounds [OF assms(1)] assms(2,3)
  have "(2::rat) powi k < 2 powi (ilog2 x + 1)" "(2::rat) powi (ilog2 x) < 2 powi (k + 1)" by linarith+
  then have "k < ilog2 x + 1" "ilog2 x < k + 1" by (blast intro: less)+
  then show ?thesis by simp
qed

lemma rne_near: "\<bar>y - of_int i\<bar> < 1 / 2 \<Longrightarrow> rne y = i"
proof -
  assume "\<bar>y - of_int i\<bar> < 1 / 2"
  with rne_error [of y] have "\<bar>of_int (rne y) - of_int i :: rat\<bar> < 1" by linarith
  then have "\<bar>rne y - i\<bar> < 1" by (simp only: of_int_diff [symmetric] of_int_abs [symmetric] of_int_less_1_iff)
  then show ?thesis by simp
qed

lemma roundf_eval:
  assumes "0 < x" "2 powi k \<le> x" "x < 2 powi (k + 1)" "\<bar>x / 2 powi (k - 52) - of_int i\<bar> < 1 / 2"
  shows "roundf x = of_int i * 2 powi (k - 52)"
  using assms(1) by (simp add: roundf_def ilog2_unique [OF assms(1-3)] rne_near [OF assms(4)])

end
