(* ===== verification/Exporter.thy ===== *)
theory Exporter
  imports Collector Go_Float Go_Action
begin

text \<open>
  \<open>agent/exporter/prometheus.go\<close>: how an event becomes Prometheus samples. The metric vectors are
  library objects; \<open>Record\<close> returns the calls it makes on them, an observation of the latency
  histogram and an addition to the operations counter, each with its label values. Which calls the
  library accepts without a panic is a parameter; \<open>prometheusClient\<close> states its documented behaviour.
  The registry and the HTTP server are parameters of \<open>initMetrics\<close> and \<open>StartExporter\<close>.
\<close>

definition labelNames :: "string list" where
  "labelNames = [''type'', ''node'', ''switch'', ''rack'', ''node_gpu_model'', ''runtime_gpu_model'']"

text \<open>\<open>prometheus.ExponentialBuckets(10, 2, 10)\<close>\<close>

definition latencyBuckets :: "nat list" where
  "latencyBuckets = map (\<lambda>i. 10 * 2 ^ i) [0..<10]"

record MetricDesc =
  MdName :: string
  MdHelp :: string
  MdBuckets :: "nat list"
  MdLabels :: "string list"

definition ncclLatency :: MetricDesc where
  "ncclLatency =
     \<lparr>MdName = ''compute_sentry_nccl_latency_us'', MdHelp = ''Latency of NCCL operations in microseconds.'',
      MdBuckets = latencyBuckets, MdLabels = labelNames\<rparr>"

definition ncclOpsCount :: MetricDesc where
  "ncclOpsCount =
     \<lparr>MdName = ''compute_sentry_nccl_ops_total'', MdHelp = ''Total number of NCCL operations.'',
      MdBuckets = [], MdLabels = labelNames\<rparr>"

text \<open>\<open>MustRegister\<close> panics when the registry refuses; a panic ends the process.\<close>

definition initMetrics :: "(MetricDesc \<Rightarrow> ('r, unit) action) \<Rightarrow> ('r, unit) action" where
  "initMetrics mustRegister =
     handling (mustRegister ncclLatency) fail (\<lambda>_. mustRegister ncclOpsCount)"

record Exporter =
  addr :: string
  exNodeName :: string
  switchId :: string
  rackId :: string
  nodeGpuModel :: string

definition NewExporter :: "string \<Rightarrow> string \<Rightarrow> string \<Rightarrow> string \<Rightarrow> string \<Rightarrow> Exporter" where
  "NewExporter a node sw rack gpu =
     \<lparr>addr = a, exNodeName = node, switchId = sw, rackId = rack, nodeGpuModel = gpu\<rparr>"

datatype MetricCall =
    Observe "string list" rat
  | AddTotal "string list" rat

definition typeName :: "int32 \<Rightarrow> string" where
  "typeName ty =
     (if ty = NCCL_ALL_REDUCE then ''ncclAllReduce''
      else if ty = CUDA_MALLOC then ''cudaMalloc''
      else if ty = CUDA_MEMCPY then ''cudaMemcpy''
      else ''unknown'')"

definition orUnknown :: "string \<Rightarrow> string" where
  "orUnknown s = (if s = '''' then ''unknown'' else s)"

definition labelValues :: "Exporter \<Rightarrow> MetricEvent \<Rightarrow> string list" where
  "labelValues e event =
     [typeName (EvType event), exNodeName e, switchId e, rackId e, orUnknown (nodeGpuModel e),
      orUnknown (stringOfBytes (TrimRight 0 (GPUModel event)))]"

definition Record :: "Exporter \<Rightarrow> MetricEvent \<Rightarrow> MetricCall list" where
  "Record e event =
     [Observe (labelValues e event) (float64 (sint (DurationUs event))),
      AddTotal (labelValues e event) (float64 (uint (Count event)))]"

record 'o HttpServer =
  HandleMetrics :: "string \<Rightarrow> ('o, unit) action"
  ListenAndServe :: "string \<Rightarrow> ('o, unit) action"

definition StartExporter :: "'o HttpServer \<Rightarrow> Exporter \<Rightarrow> ('o, unit) action" where
  "StartExporter http e =
     handling (HandleMetrics http ''/metrics'') fail (\<lambda>_. ListenAndServe http (addr e))"

section \<open>Facts\<close>

text \<open>
  A registry refuses a second metric of the same name; the two metrics have different names, so that
  registering them panics only in a registry that has one of them already.
\<close>

definition registerIn :: "MetricDesc \<Rightarrow> (string list, unit) action" where
  "registerIn d names =
     (if MdName d \<in> set names then (Inl (Errorf ''duplicate metrics collector registration attempted''), names)
      else (Inr (), names @ [MdName d]))"

lemma initMetrics_registers:
  "fst (initMetrics registerIn names) = Inr () \<longleftrightarrow>
     ''compute_sentry_nccl_latency_us'' \<notin> set names \<and> ''compute_sentry_nccl_ops_total'' \<notin> set names"
  by (simp add: initMetrics_def registerIn_def handling_def fail_def ncclLatency_def ncclOpsCount_def)

text \<open>
  The documented behaviour of the Prometheus client: \<open>WithLabelValues\<close> panics when the number of label
  values differs from the number of label names or when a label value is not valid UTF-8, and \<open>Add\<close>
  panics when a counter would be decreased. \<open>wellLabelled\<close> is the client that panics in no other case.
\<close>

definition prometheusClient :: "(MetricCall \<Rightarrow> bool) \<Rightarrow> bool" where
  "prometheusClient accepts \<longleftrightarrow>
     (\<forall>ls v. accepts (Observe ls v) \<longleftrightarrow> length ls = length labelNames \<and> list_all ValidString ls) \<and>
     (\<forall>ls v. accepts (AddTotal ls v) \<longleftrightarrow> length ls = length labelNames \<and> list_all ValidString ls \<and> 0 \<le> v)"

fun wellLabelled :: "MetricCall \<Rightarrow> bool" where
  "wellLabelled (Observe ls v) = (length ls = length labelNames \<and> list_all ValidString ls)"
| "wellLabelled (AddTotal ls v) = (length ls = length labelNames \<and> list_all ValidString ls \<and> 0 \<le> v)"

lemma prometheusClient_wellLabelled: "prometheusClient wellLabelled"
  by (simp add: prometheusClient_def)

lemma float64_uint_nonneg: "0 \<le> float64 (uint w)"
  unfolding float64_def by (rule roundf_nonneg) (simp only: of_int_0_le_iff uint_ge_0)

lemma ValidString_typeName: "ValidString (typeName ty)"
  by (simp add: typeName_def ValidString_def)

lemma ValidString_orUnknown: "ValidString (orUnknown s) = ValidString s"
  by (simp add: orUnknown_def ValidString_def)

lemma TrimRight_bytesOf:
  assumes "CHR 0x00 \<notin> set s"
  shows "stringOfBytes (TrimRight 0 (bytesOf n s)) = s"
proof -
  let ?b = "map (\<lambda>c. of_nat (of_char c) :: byte) s"
  have "?b = [] \<or> last ?b \<noteq> 0"
    using assms by (cases s rule: rev_cases) (auto simp: of_nat_of_char_zero simp del: of_nat_of_char)
  then have "TrimRight 0 (bytesOf n s) = ?b"
    by (simp only: bytesOf_def TrimRight_append TrimRight_id)
  then show ?thesis by (simp only: stringOfBytes_roundtrip)
qed

lemma Record_accepted:
  assumes "prometheusClient accepts"
  shows "list_all accepts (Record e event) \<longleftrightarrow>
     list_all ValidString [exNodeName e, switchId e, rackId e, nodeGpuModel e,
       stringOfBytes (TrimRight 0 (GPUModel event))]"
  using assms by (auto simp: prometheusClient_def Record_def labelValues_def labelNames_def
      float64_uint_nonneg ValidString_typeName ValidString_orUnknown)

section \<open>Properties\<close>

text \<open>
  C38. Recording an event makes one histogram observation and one counter addition with the same
  label values: the event's duration in microseconds is observed and its count is added, both without
  rounding below \<open>2 ^ 53\<close>. For an event of the spy library whose GPU model is a name without NUL bytes,
  the labels are the operation's name, the node's topology and GPU model and that name, with empty
  models reported as \<open>unknown\<close>. A Prometheus client takes both calls without a panic exactly when the
  node's labels and the event's GPU model are valid UTF-8.
\<close>

theorem record_samples:
  assumes "prometheusClient accepts"
  shows "(\<exists>ls duration total. Record e event = [Observe ls duration, AddTotal ls total] \<and>
     (\<bar>sint (DurationUs event)\<bar> < 2 ^ 53 \<longrightarrow> duration = of_int (sint (DurationUs event))) \<and>
     (uint (Count event) < 2 ^ 53 \<longrightarrow> total = of_int (uint (Count event))) \<and>
     (\<forall>model. GPUModel event = bytesOf 32 model \<and> CHR 0x00 \<notin> set model \<longrightarrow>
        ls = [typeName (EvType event), exNodeName e, switchId e, rackId e,
              if nodeGpuModel e = '''' then ''unknown'' else nodeGpuModel e,
              if model = '''' then ''unknown'' else model])) \<and>
   (list_all accepts (Record e event) \<longleftrightarrow>
     list_all ValidString [exNodeName e, switchId e, rackId e, nodeGpuModel e,
       stringOfBytes (TrimRight 0 (GPUModel event))])"
  by (intro conjI Record_accepted [OF assms])
    (simp add: Record_def labelValues_def float64_exact TrimRight_bytesOf orUnknown_def)

theorem record_samples_witness:
  "let xp = NewExporter '':9091'' ''n1'' ''s1'' ''r1'' '''';
       event = \<lparr>EvType = 0, GPUModel = bytesOf 32 ''A100'', PodName = [], PodNamespace = [], DurationUs = 250, Count = 3\<rparr>
   in Record xp event =
        [Observe [''ncclAllReduce'', ''n1'', ''s1'', ''r1'', ''unknown'', ''A100''] 250,
         AddTotal [''ncclAllReduce'', ''n1'', ''s1'', ''r1'', ''unknown'', ''A100''] 3] \<and>
      list_all wellLabelled (Record xp event)"
  using record_samples [OF prometheusClient_wellLabelled, of "NewExporter '':9091'' ''n1'' ''s1'' ''r1'' ''''"
      "\<lparr>EvType = 0, GPUModel = bytesOf 32 ''A100'', PodName = [], PodNamespace = [], DurationUs = 250, Count = 3\<rparr>"]
  by (auto simp: NewExporter_def typeName_def NCCL_ALL_REDUCE_def TrimRight_bytesOf ValidString_def)

end
