(* ===== verification/Go_Chan.thy ===== *)
theory Go_Chan
  imports Prelude
begin

text \<open>
  Buffered channels: a queue with a capacity. \<open>bounded_fifo\<close> is the contract that the goroutines of
  the agent rely on; \<open>chanSend\<close> and \<open>chanRecv\<close> provide it for every capacity, and the ring buffer of
  the spy library (\<open>Spy_Queue\<close>) provides it in its well-formed states. A blocking send is a
  step that is possible only when \<open>chanSend\<close> succeeds; a send in a \<open>select\<close> with a default is
  \<open>chanOffer\<close>.
\<close>

definition chanSend :: "nat \<Rightarrow> 'a \<Rightarrow> 'a list \<Rightarrow> 'a list option" where
  "chanSend cap x ch = (if length ch < cap then Some (ch @ [x]) else None)"

definition chanOffer :: "nat \<Rightarrow> 'a \<Rightarrow> 'a list \<Rightarrow> 'a list" where
  "chanOffer cap x ch = (case chanSend cap x ch of None \<Rightarrow> ch | Some ch' \<Rightarrow> ch')"

fun chanRecv :: "'a list \<Rightarrow> ('a \<times> 'a list) option" where
  "chanRecv [] = None"
| "chanRecv (x # ch) = Some (x, ch)"

locale bounded_fifo =
  fixes send :: "'a \<Rightarrow> 'q \<Rightarrow> 'q option"
    and offer :: "'a \<Rightarrow> 'q \<Rightarrow> 'q"
    and recv :: "'q \<Rightarrow> ('a \<times> 'q) option"
    and buffered :: "'q \<Rightarrow> 'a list"
    and cap :: nat
    and valid :: "'q \<Rightarrow> bool"
  assumes send_room: "valid q \<Longrightarrow> length (buffered q) < cap \<Longrightarrow>
        \<exists>q'. send x q = Some q' \<and> valid q' \<and> buffered q' = buffered q @ [x]"
    and send_full: "valid q \<Longrightarrow> cap \<le> length (buffered q) \<Longrightarrow> send x q = None"
    and offer_send: "send x q = Some q' \<Longrightarrow> offer x q = q'"
    and offer_drop: "send x q = None \<Longrightarrow> offer x q = q"
    and recv_next: "valid q \<Longrightarrow> buffered q = x # xs \<Longrightarrow> \<exists>q'. recv q = Some (x, q') \<and> valid q' \<and> buffered q' = xs"
    and recv_empty: "valid q \<Longrightarrow> buffered q = [] \<Longrightarrow> recv q = None"
begin

lemma send_Some:
  "valid q \<Longrightarrow> send x q = Some q' \<Longrightarrow> valid q' \<and> buffered q' = buffered q @ [x] \<and> length (buffered q) < cap"
  using send_room [of q x] send_full [of q x] by (cases "length (buffered q) < cap") auto

lemma recv_Some: "valid q \<Longrightarrow> recv q = Some (x, q') \<Longrightarrow> valid q' \<and> buffered q = x # buffered q'"
  using recv_empty [of q] recv_next [of q] by (cases "buffered q") auto

lemma recv_None_iff: "valid q \<Longrightarrow> recv q = None \<longleftrightarrow> buffered q = []"
  using recv_empty [of q] recv_next [of q] by (cases "buffered q") auto

lemma offer_valid: "valid q \<Longrightarrow> valid (offer x q)"
  using offer_send [of x q] offer_drop [of x q] send_Some [of q x] by (cases "send x q") auto

lemma offer_buffered:
  "valid q \<Longrightarrow> buffered (offer x q) = (if length (buffered q) < cap then buffered q @ [x] else buffered q)"
  using send_room [of q x] send_full [of q x] offer_send offer_drop by fastforce

lemma offer_bounded: "valid q \<Longrightarrow> length (buffered q) \<le> cap \<Longrightarrow> length (buffered (offer x q)) \<le> cap"
  by (simp add: offer_buffered)

lemma send_bounded: "valid q \<Longrightarrow> send x q = Some q' \<Longrightarrow> length (buffered q') \<le> cap"
  using send_Some [of q x q'] by simp

text \<open>What a receiver has taken and what is buffered is a subsequence of what was offered.\<close>

lemma offer_subseq:
  assumes "valid q" "subseq (taken @ buffered q) offered"
  shows "subseq (taken @ buffered (offer x q)) (offered @ [x])"
proof (cases "length (buffered q) < cap")
  case True
  then have "taken @ buffered (offer x q) = (taken @ buffered q) @ [x]"
    using assms(1) by (simp add: offer_buffered)
  with assms(2) show ?thesis by (simp only: subseq_append)
next
  case False
  with assms show ?thesis by (simp add: offer_buffered subseq_order.order_trans [OF _ subseq_rev_drop_many])
qed

end

lemma chan_bounded_fifo: "bounded_fifo (chanSend cap) (chanOffer cap) chanRecv (\<lambda>ch. ch) cap (\<lambda>_. True)"
  by unfold_locales (auto simp: chanSend_def chanOffer_def)

end
