(* ===== verification/Agent_Main.thy ===== *)
theory Agent_Main
  imports Exporter Evaluator Go_Chan Transition
begin

text \<open>
  \<open>agent/main.go\<close>: the start of the agent (topology labels, distribution of the spy library and of
  the pre-check script, collector, exporter, evaluator) and its steady state, in which the reader
  goroutine of the collector, the main loop and the evaluator's loop exchange events over two
  buffered channels.

  The operating system, the API server and the outcome of the in-cluster configuration are
  parameters. \<open>log.Fatalf\<close> ends the start with an error. Closing the two file handles of
  \<open>distributeFile\<close> is not modelled; its errors are ignored by the code. File modes are decimal:
  \<open>0755\<close> is 493.
\<close>

section \<open>Paths\<close>

text \<open>\<open>filepath.Dir\<close> and \<open>filepath.Clean\<close> on Unix.\<close>

fun cleanElems :: "bool \<Rightarrow> string list \<Rightarrow> string list \<Rightarrow> string list" where
  "cleanElems rooted acc [] = rev acc"
| "cleanElems rooted acc (x # xs) =
     (if x = '''' \<or> x = ''.'' then cleanElems rooted acc xs
      else if x = ''..'' then
        (case acc of
           [] \<Rightarrow> cleanElems rooted (if rooted then [] else [x]) xs
         | a # as \<Rightarrow> cleanElems rooted (if a = ''..'' then x # acc else as) xs)
      else cleanElems rooted (x # acc) xs)"

fun joinSlash :: "string list \<Rightarrow> string" where
  "joinSlash [] = ''''"
| "joinSlash [x] = x"
| "joinSlash (x # y # xs) = x @ ''/'' @ joinSlash (y # xs)"

definition Clean :: "string \<Rightarrow> string" where
  "Clean p =
     (let rooted = (p \<noteq> '''' \<and> hd p = CHR ''/'');
          out = (if rooted then ''/'' else '''') @ joinSlash (cleanElems rooted [] (Split CHR ''/'' p))
      in if out = '''' then ''.'' else out)"

definition Dir :: "string \<Rightarrow> string" where
  "Dir p = Clean (rev (dropWhile (\<lambda>c. c \<noteq> CHR ''/'') (rev p)))"

section \<open>Flags and environment\<close>

record AgentFlags =
  udsPath :: string
  metricsAddr :: string
  libSrc :: string
  libDest :: string
  scriptSrc :: string
  scriptDest :: string
  windowSizeFlag :: int64
  errorCountLimitFlag :: int64
  thresholdUsFlag :: int64

definition defaultFlags :: AgentFlags where
  "defaultFlags =
     \<lparr>udsPath = ''/var/run/compute-sentry/spy.sock'', metricsAddr = '':9091'',
      libSrc = ''/app/lib/libcompute-sentry-spy.so'',
      libDest = ''/opt/compute-sentry/lib/libcompute-sentry-spy.so'',
      scriptSrc = ''/app/bin/precheck.sh'', scriptDest = ''/opt/compute-sentry/bin/precheck.sh'',
      windowSizeFlag = 10, errorCountLimitFlag = 5, thresholdUsFlag = 500\<rparr>"

record 'o Os =
  MkdirAll :: "string \<Rightarrow> nat \<Rightarrow> ('o, unit) action"
  OpenFile :: "string \<Rightarrow> ('o, nat) action"
  CreateFile :: "string \<Rightarrow> ('o, nat) action"
  CopyFile :: "nat \<Rightarrow> nat \<Rightarrow> ('o, unit) action"
  ChmodFile :: "string \<Rightarrow> nat \<Rightarrow> ('o, unit) action"

record 'o AgentEnv =
  NODE_NAME :: string
  InClusterConfig :: "goError option"
  NewForConfig :: "goError option"
  GetNodeInfo :: "string \<Rightarrow> goError + Node"
  EnvOs :: "'o Os"
  EnvSocket :: "'o SocketOs"
  EnvApi :: AgentApi

section \<open>Starting\<close>

definition topologyLabel :: "Node \<Rightarrow> string \<Rightarrow> string" where
  "topologyLabel node k = (case map_of (NLabels node) k of None \<Rightarrow> ''unknown'' | Some v \<Rightarrow> v)"

definition getTopology :: "'o AgentEnv \<Rightarrow> string \<Rightarrow> string \<times> string \<times> string" where
  "getTopology env node =
     (let unknown = (''unknown'', ''unknown'', ''unknown'') in
      if node = ''unknown'' then unknown
      else case InClusterConfig env of
        Some _ \<Rightarrow> unknown
      | None \<Rightarrow>
          (case NewForConfig env of
             Some _ \<Rightarrow> unknown
           | None \<Rightarrow>
               (case GetNodeInfo env node of
                  Inl _ \<Rightarrow> unknown
                | Inr info \<Rightarrow>
                    (topologyLabel info ''topology.aiguard.io/switch'',
                     topologyLabel info ''topology.aiguard.io/rack'',
                     topologyLabel info ''topology.aiguard.io/gpu-model''))))"

definition distributeFile :: "'o Os \<Rightarrow> string \<Rightarrow> string \<Rightarrow> ('o, unit) action" where
  "distributeFile os src dest =
     handling (MkdirAll os (Dir dest) 493) (\<lambda>err. fail (Formatv ''failed to create dest dir: '' err))
       (\<lambda>_. handling (OpenFile os src) (\<lambda>err. fail (Formatv ''failed to open source lib: '' err))
          (\<lambda>source. handling (CreateFile os dest) (\<lambda>err. fail (Formatv ''failed to create dest lib: '' err))
             (\<lambda>destination. handling (CopyFile os destination source)
                (\<lambda>err. fail (Formatv ''failed to copy lib: '' err))
                (\<lambda>_. ChmodFile os dest 493))))"

definition agentMain ::
  "'o AgentEnv \<Rightarrow> AgentFlags \<Rightarrow> ('o, Exporter \<times> Collector \<times> goError option \<times> HealthEvaluator) action" where
  "agentMain env flags =
     (let node = (if NODE_NAME env = '''' then ''unknown'' else NODE_NAME env);
          (sw, rack, gpu) = getTopology env node;
          col = NewCollector (udsPath flags)
      in handling (distributeFile (EnvOs env) (libSrc flags) (libDest flags))
           (\<lambda>err. fail (Formatv ''Failed to distribute library: '' err))
           (\<lambda>_. handling (distributeFile (EnvOs env) (scriptSrc flags) (scriptDest flags))
              (\<lambda>err. fail (Formatv ''Failed to distribute script: '' err))
              (\<lambda>_. handling (StartCollector (EnvSocket env) col)
                 (\<lambda>err. fail (Formatv ''Failed to start collector: '' err))
                 (\<lambda>_. let ev = NewHealthEvaluator (windowSizeFlag flags) (errorCountLimitFlag flags)
                                  (thresholdUsFlag flags);
                          (warning, ev') = Start (InClusterConfig env) (NewForConfig env) (EnvApi env) node ev
                       in return (NewExporter (metricsAddr flags) node sw rack gpu, col, warning, ev')))))"

section \<open>The event pipeline\<close>

text \<open>
  \<open>pending\<close> is the event that the reader goroutine has decoded and is about to send. \<open>holding\<close> is the
  point of the main loop: waiting for an event, between the receive and \<open>Record\<close> (\<open>MHolds\<close>), between
  \<open>Record\<close> and the \<open>select\<close> (\<open>MRecorded\<close>), or ended by a panic of the metrics library in \<open>Record\<close>
  (\<open>MPanicked\<close>), which ends the process. \<open>exporterFailed\<close>: \<open>exp.Start\<close> has returned an error, whereupon
  \<open>log.Fatalf\<close> ends the process as well. \<open>reads\<close>, \<open>forwarded\<close>, \<open>offered\<close>, \<open>consumed\<close> and \<open>dropped\<close> are the
  history: the results of \<open>conn.Read\<close>, the events recorded, those offered to the evaluator, those the
  evaluator has taken, and how many were not passed on because the evaluator's channel was full.
  \<open>consume\<close> is a receive of the evaluator's loop, which never happens when the evaluator could not be
  started.
\<close>

datatype mainPc =
    MWaits
  | MHolds MetricEvent
  | MRecorded MetricEvent
  | MPanicked MetricEvent

record agent =
  reads :: "(goError + byte list) list"
  pending :: "MetricEvent option"
  colChan :: "MetricEvent list"
  holding :: mainPc
  forwarded :: "MetricEvent list"
  exported :: "MetricCall list"
  offered :: "MetricEvent list"
  evChan :: "MetricEvent list"
  consumed :: "MetricEvent list"
  dropped :: nat
  exporterFailed :: bool

fun panicked :: "mainPc \<Rightarrow> bool" where
  "panicked (MPanicked _) = True"
| "panicked _ = False"

definition alive :: "agent \<Rightarrow> bool" where
  "alive s \<longleftrightarrow> \<not> panicked (holding s) \<and> \<not> exporterFailed s"

inductive agent_step :: "Exporter \<Rightarrow> (MetricCall \<Rightarrow> bool) \<Rightarrow> agent \<Rightarrow> agent \<Rightarrow> bool"
  for xp :: Exporter and accepts :: "MetricCall \<Rightarrow> bool" where
  read: "alive s \<Longrightarrow> pending s = None \<Longrightarrow>
    agent_step xp accepts s (s\<lparr>reads := reads s @ [r], pending := listenOnce r\<rparr>)"
| send: "alive s \<Longrightarrow> pending s = Some event \<Longrightarrow> chanSend collectorChanCap event (colChan s) = Some ch \<Longrightarrow>
    agent_step xp accepts s (s\<lparr>colChan := ch, pending := None\<rparr>)"
| receive: "alive s \<Longrightarrow> holding s = MWaits \<Longrightarrow> chanRecv (colChan s) = Some (event, ch) \<Longrightarrow>
    agent_step xp accepts s (s\<lparr>colChan := ch, holding := MHolds event\<rparr>)"
| observe: "alive s \<Longrightarrow> holding s = MHolds event \<Longrightarrow> list_all accepts (Record xp event) \<Longrightarrow>
    agent_step xp accepts s (s\<lparr>holding := MRecorded event, forwarded := forwarded s @ [event],
      exported := exported s @ Record xp event\<rparr>)"
| panic: "alive s \<Longrightarrow> holding s = MHolds event \<Longrightarrow> \<not> list_all accepts (Record xp event) \<Longrightarrow>
    agent_step xp accepts s (s\<lparr>holding := MPanicked event\<rparr>)"
| offer: "alive s \<Longrightarrow> holding s = MRecorded event \<Longrightarrow>
    agent_step xp accepts s (s\<lparr>holding := MWaits, offered := offered s @ [event],
      evChan := chanOffer metricsChanCap event (evChan s),
      dropped := dropped s + (if chanSend metricsChanCap event (evChan s) = None then 1 else 0)\<rparr>)"
| consume: "alive s \<Longrightarrow> chanRecv (evChan s) = Some (event, ch) \<Longrightarrow>
    agent_step xp accepts s (s\<lparr>evChan := ch, consumed := consumed s @ [event]\<rparr>)"
| exporter_fatal: "alive s \<Longrightarrow> agent_step xp accepts s (s\<lparr>exporterFailed := True\<rparr>)"

definition idleAgent :: agent where
  "idleAgent = \<lparr>reads = [], pending = None, colChan = [], holding = MWaits, forwarded = [], exported = [],
     offered = [], evChan = [], consumed = [], dropped = 0, exporterFailed = False\<rparr>"

definition agent_init :: "agent \<Rightarrow> bool" where
  "agent_init s \<longleftrightarrow> s = idleAgent"

inductive_cases agent_step_cases: "agent_step xp accepts s t"

section \<open>The pipeline invariant\<close>

interpretation colChan: bounded_fifo "chanSend collectorChanCap" "chanOffer collectorChanCap" chanRecv
    "\<lambda>ch. ch" collectorChanCap "\<lambda>_. True"
  by (rule chan_bounded_fifo)

interpretation evChan: bounded_fifo "chanSend metricsChanCap" "chanOffer metricsChanCap" chanRecv
    "\<lambda>ch. ch" metricsChanCap "\<lambda>_. True"
  by (rule chan_bounded_fifo)

text \<open>The event that the main loop has received and not recorded, and the one recorded and not offered.\<close>

fun unrecorded :: "mainPc \<Rightarrow> MetricEvent list" where
  "unrecorded (MHolds event) = [event]"
| "unrecorded (MPanicked event) = [event]"
| "unrecorded _ = []"

fun unoffered :: "mainPc \<Rightarrow> MetricEvent list" where
  "unoffered (MRecorded event) = [event]"
| "unoffered _ = []"

definition inFlight :: "agent \<Rightarrow> MetricEvent list" where
  "inFlight s = unrecorded (holding s) @ colChan s @ (case pending s of None \<Rightarrow> [] | Some event \<Rightarrow> [event])"

definition agent_inv :: "Exporter \<Rightarrow> (MetricCall \<Rightarrow> bool) \<Rightarrow> agent \<Rightarrow> bool" where
  "agent_inv xp accepts s \<longleftrightarrow>
     listen (reads s) = forwarded s @ inFlight s \<and>
     exported s = concat (map (Record xp) (forwarded s)) \<and>
     forwarded s = offered s @ unoffered (holding s) \<and>
     subseq (consumed s @ evChan s) (offered s) \<and>
     length (offered s) = length (consumed s) + length (evChan s) + dropped s \<and>
     length (colChan s) \<le> collectorChanCap \<and> length (evChan s) \<le> metricsChanCap \<and>
     (\<forall>event. holding s = MPanicked event \<longrightarrow> \<not> list_all accepts (Record xp event))"

lemma agent_inv_init: "agent_init s \<Longrightarrow> agent_inv xp accepts s"
  by (simp add: agent_init_def agent_inv_def inFlight_def idleAgent_def)

lemma length_chanOffer_send:
  "length (chanOffer cap event ch) = length ch + (if chanSend cap event ch = None then 0 else 1)"
  by (simp add: chanOffer_def chanSend_def)

lemma agent_inv_step: "agent_step xp accepts s t \<Longrightarrow> agent_inv xp accepts s \<Longrightarrow> agent_inv xp accepts t"
proof (induction rule: agent_step.induct)
  case (read s r)
  then show ?case by (auto simp: agent_inv_def inFlight_def listen_append split: option.splits)
next
  case (send s event ch)
  with colChan.send_Some [OF TrueI send.hyps(3)] colChan.send_bounded [OF TrueI send.hyps(3)]
  show ?case by (simp add: agent_inv_def inFlight_def)
next
  case (receive s event ch)
  with colChan.recv_Some [OF TrueI receive.hyps(3)] show ?case by (simp add: agent_inv_def inFlight_def)
next
  case (observe s event)
  then show ?case by (simp add: agent_inv_def inFlight_def)
next
  case (panic s event)
  then show ?case by (simp add: agent_inv_def inFlight_def)
next
  case (offer s event)
  then show ?case
    using evChan.offer_subseq [of "consumed s" "evChan s" "offered s" event]
      evChan.offer_bounded [of "evChan s" event]
    by (simp add: agent_inv_def inFlight_def length_chanOffer_send)
next
  case (consume s event ch)
  with evChan.recv_Some [OF TrueI consume.hyps(2)] show ?case by (simp add: agent_inv_def inFlight_def)
next
  case (exporter_fatal s)
  then show ?case by (simp add: agent_inv_def inFlight_def)
qed

interpretation agent: invariant_system agent_init "agent_step xp accepts" "agent_inv xp accepts" for xp accepts
  by unfold_locales (auto intro: agent_inv_init agent_inv_step)

end
