(* ===== verification/Collector_Props.thy ===== *)
theory Collector_Props
  imports Collector
begin

text \<open>
  Correctness of the collector: the events of the spy library arrive as they were sent and in
  order, everything that is not an event is dropped, and an accepted datagram determines its event.
\<close>

section \<open>Facts\<close>

definition isNoise :: "goError + byte list \<Rightarrow> bool" where
  "isNoise r = (case r of Inl _ \<Rightarrow> True | Inr d \<Rightarrow> length d < eventSize)"

lemma listenOnce_noise: "isNoise r \<Longrightarrow> listenOnce r = None"
  by (auto simp: isNoise_def listenOnce_def binaryRead_def Let_def eventSize_def bufSize_def split: sum.splits)

lemma listenOnce_None_iff: "listenOnce r = None \<longleftrightarrow> isNoise r"
  by (auto simp: isNoise_def listenOnce_def binaryRead_def Let_def eventSize_def bufSize_def split: sum.splits)

lemma listen_noise: "list_all isNoise rs \<Longrightarrow> listen rs = []"
  by (induction rs) (simp_all add: listenOnce_noise)

lemma listenOnce_spyBytes:
  assumes "wf_event ev" "length pad = 4"
  shows "listenOnce (Inr (spyBytes pad ev)) = Some ev"
  using length_spyBytes [OF assms] binaryRead_spyBytes [OF assms, of "[]"]
  by (simp add: listenOnce_Some_iff eventSize_def bufSize_def)

lemma slices_cover:
  assumes "length bs = 184"
  shows "slice 0 4 bs @ slice 4 32 bs @ slice 36 64 bs @ slice 100 64 bs @ slice 164 4 bs @
    slice 168 8 bs @ slice 176 8 bs = bs"
proof -
  have step: "slice a m bs @ drop b bs = drop a bs" if "b = a + m" for a b m
    using that append_take_drop_id [of m "drop a bs"] by (simp add: slice_def add.commute)
  have "slice 176 8 bs = drop 176 bs" using assms by (simp add: slice_def)
  then show ?thesis by (simp add: step)
qed

lemma slice_take: "off + n \<le> m \<Longrightarrow> slice off n (take m bs) = slice off n bs"
  by (simp add: slice_def drop_take min_def)

lemma spyBytes_binaryRead:
  assumes "binaryRead bs = Inr ev"
  shows "spyBytes (slice 164 4 bs) ev = take eventSize bs"
proof -
  have len: "184 \<le> length bs" and ev:
      "EvType ev = getU32 (slice 0 4 bs)" "GPUModel ev = slice 4 32 bs" "PodName ev = slice 36 64 bs"
      "PodNamespace ev = slice 100 64 bs" "DurationUs ev = getU64 (slice 168 8 bs)"
      "Count ev = getU64 (slice 176 8 bs)"
    using assms by (auto simp: binaryRead_def eventSize_def split: if_splits)
  have "spyBytes (slice 164 4 bs) ev = slice 0 4 bs @ slice 4 32 bs @ slice 36 64 bs @ slice 100 64 bs @
      slice 164 4 bs @ slice 168 8 bs @ slice 176 8 bs"
    using len by (simp add: spyBytes_def ev put_get32 put_get64 slice_def)
  also have "\<dots> = take eventSize bs"
    using slices_cover [of "take 184 bs"] len by (simp add: slice_take eventSize_def)
  finally show ?thesis .
qed

definition blankEvent :: MetricEvent where
  "blankEvent = \<lparr>EvType = 0, GPUModel = replicate 32 0, PodName = replicate 64 0,
     PodNamespace = replicate 64 0, DurationUs = 7, Count = 1\<rparr>"

lemma wf_blankEvent: "wf_event blankEvent"
  by (simp add: wf_event_def blankEvent_def)

section \<open>Properties\<close>

text \<open>
  C16. The wire format: whatever failed reads and short datagrams come between them, the events that
  the spy library writes (with any padding bytes) leave the collector's loop unchanged and in the
  order in which they were sent, and nothing else leaves it.
\<close>

theorem listen_receives_events:
  assumes "list_all (\<lambda>(noise, pad, ev). list_all isNoise noise \<and> length pad = 4 \<and> wf_event ev) xs"
    and "list_all isNoise noise'"
  shows "listen (concat (map (\<lambda>(noise, pad, ev). noise @ [Inr (spyBytes pad ev)]) xs) @ noise') =
    map (\<lambda>(noise, pad, ev). ev) xs"
  using assms
  by (induction xs) (auto simp: listen_append listen_noise listenOnce_spyBytes)

theorem listen_receives_events_witness:
  "listen ([Inl (Errorf ''read''), Inr [1, 2, 3], Inr (spyBytes [9, 9, 9, 9] blankEvent)] @ [Inr []]) = [blankEvent]"
  using listen_receives_events [of
      "[([Inl (Errorf ''read''), Inr [1, 2, 3]], [9, 9, 9, 9], blankEvent)]" "[Inr []]"]
  by (simp add: wf_blankEvent isNoise_def eventSize_def)

text \<open>
  A datagram is dropped exactly when it is shorter than the 184 bytes of the struct (although
  the explicit test asks for 24 bytes only), and one that is accepted has exactly the event's bytes
  at its front: the event has arrays of the right length, and it and the four padding bytes encode
  to the datagram's first 184 bytes.
\<close>

theorem datagram_decodes_exactly:
  "(listenOnce (Inr d) = None \<longleftrightarrow> length d < 184) \<and>
   (\<forall>ev. listenOnce (Inr d) = Some ev \<longrightarrow>
      wf_event ev \<and> spyBytes (take 4 (drop 164 d)) ev = take 184 d)"
proof -
  have "wf_event ev \<and> spyBytes (take 4 (drop 164 d)) ev = take 184 d" if "listenOnce (Inr d) = Some ev" for ev
  proof -
    from that have read: "binaryRead (take bufSize d) = Inr ev" by (simp add: listenOnce_Some_iff)
    then have "spyBytes (slice 164 4 (take bufSize d)) ev = take eventSize (take bufSize d)"
      by (rule spyBytes_binaryRead)
    moreover have "slice 164 4 (take bufSize d) = take 4 (drop 164 d)"
      by (simp add: slice_take bufSize_def) (simp add: slice_def)
    ultimately show ?thesis using binaryRead_wf [OF read] by (simp add: eventSize_def bufSize_def)
  qed
  then show ?thesis by (simp add: listenOnce_None_iff isNoise_def eventSize_def)
qed

theorem datagram_decodes_exactly_witness:
  "wf_event blankEvent \<and> spyBytes (take 4 (drop 164 (spyBytes [9, 9, 9, 9] blankEvent))) blankEvent =
     take 184 (spyBytes [9, 9, 9, 9] blankEvent)"
  using datagram_decodes_exactly [of "spyBytes [9, 9, 9, 9] blankEvent"]
    listenOnce_spyBytes [OF wf_blankEvent, of "[9, 9, 9, 9]"]
  by simp

end
