(* ===== verification/Agent_Props.thy ===== *)
theory Agent_Props
  imports Agent_Main Collector_Props
begin

text \<open>
  Correctness of the agent's process: the event pipeline between socket, exporter and evaluator, and
  the distribution of files to the host.
\<close>

section \<open>File systems\<close>

text \<open>
  The documented behaviour of the file operations, seen through the contents and modes of the files
  and the paths and offsets of the open handles: \<open>os.Open\<close> needs the file and changes nothing, \<open>os.Create\<close>
  gives a new handle on an empty file, \<open>io.Copy\<close> reads a different file from the source's offset to its
  end and writes at the destination's offset, \<open>os.Chmod\<close> sets the mode.
\<close>

type_synonym files = "string \<Rightarrow> (byte list \<times> nat) option"
type_synonym handles = "nat \<Rightarrow> (string \<times> nat) option"

definition overwrite :: "nat \<Rightarrow> byte list \<Rightarrow> byte list \<Rightarrow> byte list" where
  "overwrite off bs old = take off old @ bs @ drop (off + length bs) old"

definition fileSystem :: "('o \<Rightarrow> files) \<Rightarrow> ('o \<Rightarrow> handles) \<Rightarrow> 'o Os \<Rightarrow> bool" where
  "fileSystem fs hs os \<longleftrightarrow>
     (\<forall>p m s r s'. MkdirAll os p m s = (r, s') \<longrightarrow> fs s' = fs s \<and> hs s' = hs s) \<and>
     (\<forall>p s h s'. OpenFile os p s = (Inr h, s') \<longrightarrow>
        fs s p \<noteq> None \<and> fs s' = fs s \<and> hs s' = (hs s)(h \<mapsto> (p, 0))) \<and>
     (\<forall>p s h s'. CreateFile os p s = (Inr h, s') \<longrightarrow>
        hs s h = None \<and> hs s' = (hs s)(h \<mapsto> (p, 0)) \<and> (\<exists>m. fs s' = (fs s)(p \<mapsto> ([], m)))) \<and>
     (\<forall>d c s s' pd od pc oc old m new m'. CopyFile os d c s = (Inr (), s') \<longrightarrow>
        hs s d = Some (pd, od) \<longrightarrow> hs s c = Some (pc, oc) \<longrightarrow> pd \<noteq> pc \<longrightarrow> od \<le> length old \<longrightarrow>
        fs s pd = Some (old, m) \<longrightarrow> fs s pc = Some (new, m') \<longrightarrow>
        fs s' = (fs s)(pd \<mapsto> (overwrite od (drop oc new) old, m))) \<and>
     (\<forall>p m s s' bs old. ChmodFile os p m s = (Inr (), s') \<longrightarrow> fs s p = Some (bs, old) \<longrightarrow>
        fs s' = (fs s)(p \<mapsto> (bs, m)))"

lemma fileSystem_laws:
  assumes "fileSystem fs hs os"
  shows "\<And>p m s r s'. MkdirAll os p m s = (r, s') \<Longrightarrow> fs s' = fs s \<and> hs s' = hs s"
    and "\<And>p s h s'. OpenFile os p s = (Inr h, s') \<Longrightarrow> fs s p \<noteq> None \<and> fs s' = fs s \<and> hs s' = (hs s)(h \<mapsto> (p, 0))"
    and "\<And>p s h s'. CreateFile os p s = (Inr h, s') \<Longrightarrow>
        hs s h = None \<and> hs s' = (hs s)(h \<mapsto> (p, 0)) \<and> (\<exists>m. fs s' = (fs s)(p \<mapsto> ([], m)))"
    and "\<And>d c s s' pd od pc oc old m new m'. CopyFile os d c s = (Inr (), s') \<Longrightarrow>
        hs s d = Some (pd, od) \<Longrightarrow> hs s c = Some (pc, oc) \<Longrightarrow> pd \<noteq> pc \<Longrightarrow> od \<le> length old \<Longrightarrow>
        fs s pd = Some (old, m) \<Longrightarrow> fs s pc = Some (new, m') \<Longrightarrow>
        fs s' = (fs s)(pd \<mapsto> (overwrite od (drop oc new) old, m))"
    and "\<And>p m s s' bs old. ChmodFile os p m s = (Inr (), s') \<Longrightarrow> fs s p = Some (bs, old) \<Longrightarrow>
        fs s' = (fs s)(p \<mapsto> (bs, m))"
  using assms unfolding fileSystem_def by (elim conjE; metis)+

lemma handling_failE:
  assumes "handling m (\<lambda>e. fail (g e)) f s = (Inr b, s')"
  obtains a s1 where "m s = (Inr a, s1)" "f a s1 = (Inr b, s')"
  using assms by (auto simp: handling_def fail_def split: prod.splits sum.splits)

lemma distributeFile_Inr:
  assumes "distributeFile os src dest s = (Inr (), s')"
  obtains s1 source s2 destination s3 s4 where
    "MkdirAll os (Dir dest) 493 s = (Inr (), s1)" "OpenFile os src s1 = (Inr source, s2)"
    "CreateFile os dest s2 = (Inr destination, s3)" "CopyFile os destination source s3 = (Inr (), s4)"
    "ChmodFile os dest 493 s4 = (Inr (), s')"
  using assms unfolding distributeFile_def by (elim handling_failE) auto

record MemFs =
  mfFiles :: files
  mfHandles :: "(string \<times> nat) list"

definition memOs :: "MemFs Os" where
  "memOs =
     \<lparr>MkdirAll = (\<lambda>_ _ s. (Inr (), s)),
      OpenFile = (\<lambda>p s. if mfFiles s p = None then (Inl (NotFoundError p), s)
         else (Inr (length (mfHandles s)), s\<lparr>mfHandles := mfHandles s @ [(p, 0)]\<rparr>)),
      CreateFile = (\<lambda>p s. (Inr (length (mfHandles s)),
         s\<lparr>mfFiles := (mfFiles s)(p \<mapsto> ([], 420)), mfHandles := mfHandles s @ [(p, 0)]\<rparr>)),
      CopyFile = (\<lambda>d c s.
         let (pd, od) = mfHandles s ! d; (pc, oc) = mfHandles s ! c;
             bs = (case mfFiles s pc of None \<Rightarrow> [] | Some (new, _) \<Rightarrow> drop oc new)
         in (Inr (), s\<lparr>mfFiles := (mfFiles s)(pd := map_option (\<lambda>(old, m). (overwrite od bs old, m)) (mfFiles s pd)),
               mfHandles := (mfHandles s)[d := (pd, od + length bs), c := (pc, oc + length bs)]\<rparr>)),
      ChmodFile = (\<lambda>p m s. (Inr (), s\<lparr>mfFiles := (mfFiles s)(p := map_option (\<lambda>(bs, _). (bs, m)) (mfFiles s p))\<rparr>))\<rparr>"

definition memHandle :: "MemFs \<Rightarrow> handles" where
  "memHandle s h = (if h < length (mfHandles s) then Some (mfHandles s ! h) else None)"

lemma fileSystem_mem: "fileSystem mfFiles memHandle memOs"
  by (auto simp: fileSystem_def memOs_def memHandle_def fun_eq_iff nth_append Let_def split: if_splits)

section \<open>Facts on names\<close>

lemma validUtf8_ascii_append:
  "(\<And>b. b \<in> set bs \<Longrightarrow> b < 0x80) \<Longrightarrow> validUtf8 (bs @ cs) = validUtf8 cs"
  by (induction bs) auto

lemma ValidString_ascii_append:
  "(\<And>c. c \<in> set s \<Longrightarrow> of_char c < (0x80 :: nat)) \<Longrightarrow> ValidString (s @ t) = ValidString t"
  unfolding ValidString_def map_append by (rule validUtf8_ascii_append) auto

lemma TrimRight_snoc: "b \<noteq> c \<Longrightarrow> TrimRight c (bs @ [b]) = bs @ [b]"
  by (rule TrimRight_id) simp

lemma stringOfBytes_bytesOf:
  "stringOfBytes (bytesOf n s @ bs) = s @ replicate (n - length s) (CHR 0x00) @ stringOfBytes bs"
proof -
  have "char_of (0::nat) = CHR 0x00" by (simp add: char_of_def)
  then show ?thesis
    using stringOfBytes_roundtrip [of s] by (simp add: bytesOf_def stringOfBytes_def del: of_nat_of_char)
qed

section \<open>Termination of the pipeline\<close>

text \<open>
  The steps that the agent makes without a new result of \<open>conn.Read\<close> and without a failure of the
  exporter, and the work that is left for them: a decoded event is sent, received, recorded, offered
  and consumed.
\<close>

definition agent_internal :: "Exporter \<Rightarrow> (MetricCall \<Rightarrow> bool) \<Rightarrow> agent \<Rightarrow> agent \<Rightarrow> bool" where
  "agent_internal xp accepts s t \<longleftrightarrow>
     agent_step xp accepts s t \<and> reads t = reads s \<and> exporterFailed t = exporterFailed s"

fun mainWork :: "mainPc \<Rightarrow> nat" where
  "mainWork (MHolds _) = 3"
| "mainWork (MRecorded _) = 2"
| "mainWork _ = 0"

definition backlog :: "agent \<Rightarrow> nat" where
  "backlog s = (case pending s of None \<Rightarrow> 0 | Some _ \<Rightarrow> 5) + 4 * length (colChan s) +
     mainWork (holding s) + length (evChan s)"

lemma backlog_decreases: "agent_internal xp accepts s t \<Longrightarrow> backlog t < backlog s"
proof -
  assume "agent_internal xp accepts s t"
  then have step: "agent_step xp accepts s t" and same: "reads t = reads s" "exporterFailed t = exporterFailed s"
    by (simp_all add: agent_internal_def)
  from step same show ?thesis
  proof cases
    case (send event ch)
    with colChan.send_Some [OF TrueI send(4)] show ?thesis by (simp add: backlog_def)
  next
    case (receive event ch)
    with colChan.recv_Some [OF TrueI receive(4)] show ?thesis by (simp add: backlog_def)
  next
    case (offer event)
    then show ?thesis by (simp add: backlog_def length_chanOffer_send)
  next
    case (consume event ch)
    with evChan.recv_Some [OF TrueI consume(3)] show ?thesis by (simp add: backlog_def)
  qed (simp_all add: backlog_def alive_def)
qed

lemma mainWork_le: "mainWork pc \<le> 3"
  by (cases pc) simp_all

lemma backlog_bounded: "agent_inv xp accepts s \<Longrightarrow> backlog s \<le> 5008"
  using mainWork_le [of "holding s"]
  by (simp add: agent_inv_def backlog_def collectorChanCap_def metricsChanCap_def split: option.split)

lemma internal_runs:
  "(agent_internal xp accepts ^^ n) s t \<Longrightarrow>
   (agent_step xp accepts)\<^sup>*\<^sup>* s t \<and> reads t = reads s \<and> exporterFailed t = exporterFailed s \<and>
   n + backlog t \<le> backlog s"
proof (induction n arbitrary: t)
  case (Suc n)
  then obtain u where u: "(agent_internal xp accepts ^^ n) s u" "agent_internal xp accepts u t" by auto
  with Suc.IH backlog_decreases [OF u(2)] show ?case
    by (fastforce simp: agent_internal_def intro: rtranclp.rtrancl_into_rtrancl)
qed simp

text \<open>The reader and the main loop of a running agent can step as long as an event is on its way.\<close>

lemma internal_enabled:
  assumes "alive s" "\<nexists>u. agent_internal xp accepts s u \<and> consumed u = consumed s"
  shows "inFlight s = [] \<and> unoffered (holding s) = []"
proof -
  have stuck: False
    if "agent_step xp accepts s u" "reads u = reads s" "exporterFailed u = exporterFailed s"
      "consumed u = consumed s" for u
    using assms(2) that by (auto simp: agent_internal_def)
  have waits: "holding s = MWaits"
  proof (cases "holding s")
    case (MHolds event)
    then show ?thesis
      using stuck [OF agent_step.observe [OF assms(1)]] stuck [OF agent_step.panic [OF assms(1)]]
      by (cases "list_all accepts (Record xp event)") auto
  next
    case (MRecorded event)
    then show ?thesis using stuck [OF agent_step.offer [OF assms(1)]] by auto
  qed (use assms(1) in \<open>simp_all add: alive_def\<close>)
  have none: "colChan s = []"
    using stuck [OF agent_step.receive [OF assms(1) waits]] by (cases "colChan s") auto
  moreover have "pending s = None"
    using stuck [OF agent_step.send [OF assms(1)]] none
    by (cases "pending s") (auto simp: chanSend_def collectorChanCap_def)
  ultimately show ?thesis using waits by (simp add: inFlight_def)
qed

lemma subseq_of_append: "subseq (xs @ ys) zs \<Longrightarrow> subseq xs zs"
  by (meson prefixI prefix_imp_subseq subseq_order.order_trans)

section \<open>One event through the agent\<close>

definition sampleExporter :: Exporter where
  "sampleExporter = NewExporter '':9091'' ''n1'' ''s'' ''r'' ''g''"

definition agentRead :: "goError + byte list \<Rightarrow> MetricEvent \<Rightarrow> agent" where
  "agentRead r event = idleAgent\<lparr>reads := [r], pending := Some event\<rparr>"

definition agentPassed :: "Exporter \<Rightarrow> goError + byte list \<Rightarrow> MetricEvent \<Rightarrow> agent" where
  "agentPassed xp r event = idleAgent\<lparr>reads := [r], forwarded := [event], exported := Record xp event,
     offered := [event], evChan := [event]\<rparr>"

lemma agent_reads_one:
  "listenOnce r = Some event \<Longrightarrow> (agent_step xp accepts)\<^sup>*\<^sup>* idleAgent (agentRead r event)"
  using agent_step.read [of idleAgent xp accepts r]
  by (auto simp: agentRead_def idleAgent_def alive_def)

lemma agent_passes_one:
  assumes "list_all accepts (Record xp event)"
  shows "(agent_internal xp accepts ^^ 4) (agentRead r event) (agentPassed xp r event)"
proof -
  let ?s0 = "agentRead r event" and ?s4 = "agentPassed xp r event"
  let ?s1 = "idleAgent\<lparr>reads := [r], colChan := [event]\<rparr>"
  let ?s2 = "idleAgent\<lparr>reads := [r], holding := MHolds event\<rparr>"
  let ?s3 = "idleAgent\<lparr>reads := [r], holding := MRecorded event, forwarded := [event], exported := Record xp event\<rparr>"
  have run: "alive ?s0" "alive ?s1" "alive ?s2" "alive ?s3"
    by (simp_all add: alive_def agentRead_def idleAgent_def)
  have "agent_internal xp accepts ?s0 ?s1" "agent_internal xp accepts ?s1 ?s2"
    "agent_internal xp accepts ?s2 ?s3" "agent_internal xp accepts ?s3 ?s4"
    using agent_step.send [OF run(1), of event "[event]" xp accepts] agent_step.receive [OF run(2), of event "[]" xp accepts]
      agent_step.observe [OF run(3), of event accepts xp] agent_step.offer [OF run(4), of event xp accepts] assms
    by (simp_all add: agent_internal_def agentRead_def agentPassed_def idleAgent_def chanSend_def chanOffer_def
        collectorChanCap_def metricsChanCap_def)
  then have "(agent_internal xp accepts ^^ Suc (Suc (Suc (Suc 0)))) ?s0 ?s4"
    by (intro relpowp_Suc_I2 [where y = ?s1] relpowp_Suc_I2 [where y = ?s2] relpowp_Suc_I2 [where y = ?s3]
        relpowp_Suc_I2 [where y = ?s4] relpowp_0_I)
  then show ?thesis by (simp add: eval_nat_numeral)
qed

lemma agent_forwards_one:
  assumes "listenOnce r = Some event" "list_all accepts (Record xp event)"
  shows "(agent_step xp accepts)\<^sup>*\<^sup>* idleAgent (agentPassed xp r event)"
  using agent_reads_one [OF assms(1), of xp accepts] internal_runs [OF agent_passes_one [OF assms(2), of r]]
  by (meson rtranclp_trans)

lemma sample_accepted: "list_all wellLabelled (Record sampleExporter blankEvent)"
  unfolding Record_accepted [OF prometheusClient_wellLabelled] by code_simp

lemma blank_read: "listenOnce (Inr (spyBytes [0, 0, 0, 0] blankEvent)) = Some blankEvent"
  by (rule listenOnce_spyBytes [OF wf_blankEvent]) simp

section \<open>Properties\<close>

text \<open>
  C12. The pipeline loses nothing on the way to the exporter and reorders nothing: in every reachable
  state of the agent, whatever the interleaving of the reader, the main loop and the evaluator, the
  exported samples are those of a prefix of the events decoded from the socket, and at most 1002
  decoded events are not exported yet (a full channel, one event in the reader's hands and one that
  the main loop has received and not recorded). The events that the evaluator has taken or still has
  in its channel are a subsequence of the exported ones, and as long as its channel was never full
  when one was offered they are all of them but the one that the main loop is about to offer. If
  the main loop has panicked, then on the first event that is not exported, whose samples the
  metrics library does not accept.
\<close>

theorem agent_pipeline:
  assumes "agent_init s0" and "(agent_step xp accepts)\<^sup>*\<^sup>* s0 s"
  shows "\<exists>done todo. listen (reads s) = done @ todo \<and> length todo \<le> 1002 \<and>
      exported s = concat (map (Record xp) done) \<and>
      subseq (consumed s @ evChan s) done \<and> length (evChan s) \<le> 1000 \<and>
      (dropped s = 0 \<longrightarrow> done = consumed s @ evChan s @ unoffered (holding s)) \<and>
      (\<forall>event. holding s = MPanicked event \<longrightarrow>
         \<not> list_all accepts (Record xp event) \<and> (\<exists>rest. todo = event # rest))"
proof -
  have inv: "agent_inv xp accepts s" using agent.inv_reachable [OF assms] .
  then have "dropped s = 0 \<longrightarrow> consumed s @ evChan s = offered s"
    by (auto simp: agent_inv_def intro: subseq_same_length)
  moreover have "length (inFlight s) \<le> 1002"
    using inv by (cases "holding s")
      (auto simp: agent_inv_def inFlight_def collectorChanCap_def split: option.splits)
  moreover have "subseq (consumed s @ evChan s) (forwarded s)"
    using inv by (auto simp: agent_inv_def intro: subseq_rev_drop_many)
  ultimately show ?thesis
    using inv by (intro exI [of _ "forwarded s"] exI [of _ "inFlight s"])
      (auto simp: agent_inv_def inFlight_def metricsChanCap_def)
qed

theorem agent_pipeline_witness:
  "let s = agentPassed sampleExporter (Inr (spyBytes [0, 0, 0, 0] blankEvent)) blankEvent in
   (agent_step sampleExporter wellLabelled)\<^sup>*\<^sup>* idleAgent s \<and>
   (\<exists>done todo. listen (reads s) = done @ todo \<and> length todo \<le> 1002 \<and> done = [blankEvent] \<and>
      exported s = concat (map (Record sampleExporter) done))"
proof -
  let ?s = "agentPassed sampleExporter (Inr (spyBytes [0, 0, 0, 0] blankEvent)) blankEvent"
  have run: "(agent_step sampleExporter wellLabelled)\<^sup>*\<^sup>* idleAgent ?s"
    by (rule agent_forwards_one [OF blank_read sample_accepted])
  have init: "agent_init idleAgent" by (simp add: agent_init_def)
  have "dropped ?s = 0" "consumed ?s @ evChan ?s @ unoffered (holding ?s) = [blankEvent]"
    by (simp_all add: agentPassed_def idleAgent_def)
  with agent_pipeline [OF init run] run show ?thesis unfolding Let_def by metis
qed

text \<open>
  C35. The byte that the spy library leaves uninitialised: it fills the first 31 bytes of the GPU
  model and sends the whole array of 32. For an ASCII name of at most 30 characters, the collector
  accepts the event whatever the last byte is; the exporter's label is the name only when that byte
  is zero, and when it is 128 or more, recording the event calls the metrics library with a label
  value that is not valid UTF-8, on which the library panics and the agent stops.
\<close>

theorem uninitialised_gpu_byte:
  assumes "prometheusClient accepts" and "wf_event event" and "length pad = 4"
    and "GPUModel event = bytesOf 31 model @ [g]" and "length model \<le> 30"
    and "list_all (\<lambda>c. c \<noteq> CHR 0x00 \<and> of_char c < (128::nat)) model"
  shows "listen [Inr (spyBytes pad event)] = [event] \<and>
     (last (labelValues xp event) = (if model = '''' then ''unknown'' else model)) = (g = 0) \<and>
     (list_all accepts (Record xp event) \<longrightarrow> unat g < 128)"
proof -
  let ?zeros = "replicate (31 - length model) (CHR 0x00)"
  have plain: "stringOfBytes (TrimRight 0 (GPUModel event)) = model" if "g = 0"
  proof -
    have "GPUModel event = bytesOf 32 model"
      using that assms(4,5) by (simp add: bytesOf_def replicate_append_same Suc_diff_le flip: replicate_Suc)
    moreover have "CHR 0x00 \<notin> set model" using assms(6) by (auto simp: list_all_iff)
    ultimately show ?thesis by (simp add: TrimRight_bytesOf)
  qed
  have odd: "stringOfBytes (TrimRight 0 (GPUModel event)) = model @ ?zeros @ [char_of (unat g)]" if "g \<noteq> 0"
    using that assms(4) by (simp add: TrimRight_snoc stringOfBytes_bytesOf) (simp add: stringOfBytes_def)
  have "?zeros \<noteq> []" using assms(5) by simp
  then have "model @ ?zeros @ [char_of (unat g)] \<noteq> model" by simp
  moreover have "model @ ?zeros @ [char_of (unat g)] \<noteq> ''unknown''"
  proof
    assume eq: "model @ ?zeros @ [char_of (unat g)] = ''unknown''"
    have "CHR 0x00 \<in> set (model @ ?zeros @ [char_of (unat g)])" using assms(5) by simp
    then show False unfolding eq by simp
  qed
  ultimately have label: "(last (labelValues xp event) = (if model = '''' then ''unknown'' else model)) = (g = 0)"
    using plain odd by (cases "g = 0") (auto simp: labelValues_def orUnknown_def)
  have "ValidString (model @ ?zeros @ [char_of (unat g)]) \<longleftrightarrow> unat g < 128"
  proof -
    have "ValidString ((model @ ?zeros) @ [char_of (unat g)]) \<longleftrightarrow> ValidString [char_of (unat g)]"
    proof (rule ValidString_ascii_append)
      fix c assume "c \<in> set (model @ ?zeros)"
      then have "c \<in> set model \<or> c = CHR 0x00" by (simp only: set_append set_replicate_conv_if) (simp split: if_splits)
      then show "of_char c < (0x80 :: nat)"
      proof
        assume "c \<in> set model"
        with assms(6) show ?thesis unfolding list_all_iff by simp
      qed simp
    qed
    then show ?thesis using unat_lt [of g] by (simp add: ValidString_def)
  qed
  with odd have "unat g < 128" if "list_all accepts (Record xp event)"
    using that by (cases "g = 0") (simp_all add: Record_accepted [OF assms(1)])
  with label listenOnce_spyBytes [OF assms(2,3)] show ?thesis by simp
qed

theorem uninitialised_gpu_byte_witness:
  "let event = blankEvent\<lparr>GPUModel := bytesOf 31 ''A100'' @ [0xF0]\<rparr> in
   listen [Inr (spyBytes [0, 0, 0, 0] event)] = [event] \<and>
   \<not> list_all wellLabelled (Record (NewExporter '':9091'' ''n1'' ''s'' ''r'' ''g'') event)"
proof -
  let ?event = "blankEvent\<lparr>GPUModel := bytesOf 31 ''A100'' @ [0xF0]\<rparr>"
  have "listen [Inr (spyBytes [0, 0, 0, 0] ?event)] = [?event] \<and>
     (last (labelValues (NewExporter '':9091'' ''n1'' ''s'' ''r'' ''g'') ?event) =
        (if ''A100'' = '''' then ''unknown'' else ''A100'')) = ((0xF0::byte) = 0) \<and>
     (list_all wellLabelled (Record (NewExporter '':9091'' ''n1'' ''s'' ''r'' ''g'') ?event) \<longrightarrow> unat (0xF0::byte) < 128)"
    by (rule uninitialised_gpu_byte [OF prometheusClient_wellLabelled]) (simp_all add: wf_event_def blankEvent_def bytesOf_def)
  then show ?thesis by (simp only: Let_def) simp
qed

text \<open>
  C37. Distribution installs the file: on every file system, if \<open>distributeFile\<close> returns without an
  error for two different paths, the source existed, and afterwards the destination has the source's
  content and mode \<open>0755\<close> and every other file is as it was.
\<close>

theorem distribute_installs:
  assumes "fileSystem fs hs os" and "src \<noteq> dest"
    and "distributeFile os src dest s = (Inr (), s')"
  shows "\<exists>bs m. fs s src = Some (bs, m) \<and> fs s' = (fs s)(dest \<mapsto> (bs, 493))"
proof -
  obtain s1 source s2 destination s3 s4 where steps:
    "MkdirAll os (Dir dest) 493 s = (Inr (), s1)" "OpenFile os src s1 = (Inr source, s2)"
    "CreateFile os dest s2 = (Inr destination, s3)" "CopyFile os destination source s3 = (Inr (), s4)"
    "ChmodFile os dest 493 s4 = (Inr (), s')"
    using distributeFile_Inr [OF assms(3)] by blast
  note laws = fileSystem_laws [OF assms(1)]
  have s1: "fs s1 = fs s" using laws(1) [OF steps(1)] by simp
  have s2: "fs s1 src \<noteq> None" "fs s2 = fs s1" "hs s2 = (hs s1)(source \<mapsto> (src, 0))"
    using laws(2) [OF steps(2)] by simp_all
  obtain m3 where s3: "hs s2 destination = None" "hs s3 = (hs s2)(destination \<mapsto> (dest, 0))"
    "fs s3 = (fs s2)(dest \<mapsto> ([], m3))"
    using laws(3) [OF steps(3)] by blast
  from s2(1) s1 obtain bs m where src: "fs s src = Some (bs, m)" by (cases "fs s src") auto
  have "hs s3 source = Some (src, 0)" "hs s3 destination = Some (dest, 0)" "fs s3 dest = Some ([], m3)"
    "fs s3 src = Some (bs, m)"
    using s1 s2 s3 src assms(2) by (auto split: if_splits)
  then have "fs s4 = (fs s3)(dest \<mapsto> (bs, m3))"
    using laws(4) [OF steps(4), of dest 0 src 0 "[]" m3 bs m] assms(2) by (simp add: overwrite_def)
  moreover from this have "fs s4 dest = Some (bs, m3)" by simp
  then have "fs s' = (fs s4)(dest \<mapsto> (bs, 493))"
    by (rule laws(5) [OF steps(5)])
  ultimately show ?thesis using s1 s2 s3 src by auto
qed

theorem distribute_installs_witness:
  "\<exists>s'. distributeFile memOs ''/app/a'' ''/opt/a''
      \<lparr>mfFiles = [''/app/a'' \<mapsto> ([1, 2], 420)], mfHandles = []\<rparr> = (Inr (), s') \<and>
     mfFiles s' ''/opt/a'' = Some ([1, 2], 493)"
proof -
  let ?s = "\<lparr>mfFiles = [''/app/a'' \<mapsto> ([1, 2], 420)], mfHandles = []\<rparr>"
  have "\<exists>s'. distributeFile memOs ''/app/a'' ''/opt/a'' ?s = (Inr (), s')"
    by (simp add: distributeFile_def memOs_def handling_def)
  then obtain s' where run: "distributeFile memOs ''/app/a'' ''/opt/a'' ?s = (Inr (), s')" by blast
  have "\<exists>bs m. mfFiles ?s ''/app/a'' = Some (bs, m) \<and> mfFiles s' = (mfFiles ?s)(''/opt/a'' \<mapsto> (bs, 493))"
    by (rule distribute_installs [OF fileSystem_mem _ run]) simp
  then have "mfFiles s' ''/opt/a'' = Some ([1, 2], 493)" by auto
  with run show ?thesis by blast
qed

text \<open>
  C15. The pipeline comes to rest: from every reachable state, as long as there is no new result of
  \<open>conn.Read\<close> and the exporter's server does not fail, the reader, the main loop and the evaluator together
  make at most 5008 more steps, in whatever order (a decoded event is sent, received, recorded, offered
  to the evaluator and taken by it). When the agent runs and neither the reader nor the main loop can
  step any more, whether or not the evaluator takes its events, every event decoded from the socket
  was exported, in order, and the evaluator has consumed a subsequence of them. A running agent is not
  ended by these steps when the metrics library accepts the samples of every decoded event.
\<close>

theorem pipeline_terminates:
  assumes "agent_init s0" and "(agent_step xp accepts)\<^sup>*\<^sup>* s0 s"
    and "(agent_internal xp accepts ^^ n) s t"
  shows "n \<le> 5008 \<and>
     (alive t \<and> (\<nexists>u. agent_internal xp accepts t u \<and> consumed u = consumed t) \<longrightarrow>
        exported t = concat (map (Record xp) (listen (reads s))) \<and> subseq (consumed t) (listen (reads s))) \<and>
     (alive s \<and> list_all (\<lambda>event. list_all accepts (Record xp event)) (listen (reads s)) \<longrightarrow> alive t)"
proof -
  have run: "(agent_step xp accepts)\<^sup>*\<^sup>* s t" "reads t = reads s" "exporterFailed t = exporterFailed s"
      "n + backlog t \<le> backlog s"
    using internal_runs [OF assms(3)] by simp_all
  have inv: "agent_inv xp accepts s" using agent.inv_reachable [OF assms(1,2)] .
  then have inv': "agent_inv xp accepts t" using agent.inv_steps [OF run(1)] by simp
  have "exported t = concat (map (Record xp) (listen (reads s))) \<and> subseq (consumed t) (listen (reads s))"
    if "alive t" "\<nexists>u. agent_internal xp accepts t u \<and> consumed u = consumed t"
    using internal_enabled [OF that] inv' run(2) by (auto simp: agent_inv_def dest: subseq_of_append)
  moreover have "alive t"
    if "alive s" "list_all (\<lambda>event. list_all accepts (Record xp event)) (listen (reads s))"
  proof (cases "holding t")
    case (MPanicked event)
    then have "event \<in> set (listen (reads s))" "\<not> list_all accepts (Record xp event)"
      using inv' run(2) by (auto simp: agent_inv_def inFlight_def)
    with that(2) show ?thesis by (auto simp: list_all_iff)
  qed (use that(1) run(3) in \<open>simp_all add: alive_def\<close>)
  ultimately show ?thesis using run(4) backlog_bounded [OF inv] by auto
qed

theorem pipeline_terminates_witness:
  "\<exists>n t. (agent_internal sampleExporter wellLabelled ^^ n)
        (agentRead (Inr (spyBytes [0, 0, 0, 0] blankEvent)) blankEvent) t \<and> n \<le> 5008 \<and> alive t \<and>
     exported t = Record sampleExporter blankEvent"
proof -
  let ?r = "Inr (spyBytes [0, 0, 0, 0] blankEvent)"
  let ?t = "agentPassed sampleExporter ?r blankEvent"
  have init: "agent_init idleAgent" by (simp add: agent_init_def)
  note run = agent_passes_one [OF sample_accepted, of ?r]
  have "alive ?t" by (simp add: alive_def agentPassed_def idleAgent_def)
  moreover have "\<nexists>u. agent_internal sampleExporter wellLabelled ?t u \<and> consumed u = consumed ?t"
    by (auto simp: agent_internal_def agentPassed_def idleAgent_def elim!: agent_step_cases)
  ultimately show ?thesis
    using pipeline_terminates [OF init agent_reads_one [OF blank_read] run] run blank_read
    by (intro exI [of _ 4] exI [of _ ?t]) (simp add: agentRead_def)
qed

end
