(* ===== verification/Spy_Queue.thy ===== *)
theory Spy_Queue
  imports Go_Chan Transition
begin

text \<open>
  \<open>spy/include/queue.h\<close>: the ring buffer \<open>LockFreeQueue\<close> between the threads of the workload and the
  sender thread of the spy library.

  \<open>Push\<close> and \<open>Pop\<close> are the two operations as one thread executes them; with one slot left empty
  they provide the contract \<open>bounded_fifo\<close> with a capacity of \<open>Capacity - 1\<close>. The machine
  \<open>queue_step\<close> splits them into their accesses to the shared variables and interleaves any number of
  producers with one consumer. The release store of an index publishes the slot written before it and
  an acquire load of the index sees it, so that interleaving the accesses one by one is what the
  memory order of the code gives as long as no slot is accessed by two threads at once, which is one
  of the facts that are proved. The indices stay below \<open>Capacity\<close>, so that \<open>tail + 1\<close> does not wrap
  around and natural numbers stand for \<open>size_t\<close>.
\<close>

section \<open>The ring buffer\<close>

record 'a LockFreeQueue =
  buffer :: "'a list"
  head :: nat
  tail :: nat

definition Capacity :: nat where
  "Capacity = 4096"

definition emptyQueue :: "'a list \<Rightarrow> 'a LockFreeQueue" where
  "emptyQueue mem = \<lparr>buffer = mem, head = 0, tail = 0\<rparr>"

definition Push :: "nat \<Rightarrow> 'a \<Rightarrow> 'a LockFreeQueue \<Rightarrow> bool \<times> 'a LockFreeQueue" where
  "Push cap item q =
     (let t = tail q; next_tail = (t + 1) mod cap in
      if next_tail = head q then (False, q)
      else (True, q\<lparr>buffer := (buffer q)[t := item], tail := next_tail\<rparr>))"

definition Pop :: "nat \<Rightarrow> 'a LockFreeQueue \<Rightarrow> ('a \<times> 'a LockFreeQueue) option" where
  "Pop cap q =
     (let h = head q in
      if h = tail q then None
      else Some (buffer q ! h, q\<lparr>head := (h + 1) mod cap\<rparr>))"

definition wf_queue :: "nat \<Rightarrow> 'a LockFreeQueue \<Rightarrow> bool" where
  "wf_queue cap q \<longleftrightarrow> length (buffer q) = cap \<and> head q < cap \<and> tail q < cap"

definition fill :: "nat \<Rightarrow> 'a LockFreeQueue \<Rightarrow> nat" where
  "fill cap q = (tail q + cap - head q) mod cap"

definition contents :: "nat \<Rightarrow> 'a LockFreeQueue \<Rightarrow> 'a list" where
  "contents cap q = map (\<lambda>i. buffer q ! ((head q + i) mod cap)) [0..<fill cap q]"

section \<open>Facts on the indices\<close>

lemma mod_offset_eq:
  assumes "h < (cap::nat)" "t < cap"
  shows "(h + (t + cap - h) mod cap) mod cap = t"
  using assms by (simp add: mod_add_right_eq)

lemma fill_lt: "wf_queue cap q \<Longrightarrow> fill cap q < cap"
  by (auto simp: wf_queue_def fill_def)

lemma length_contents [simp]: "length (contents cap q) = fill cap q"
  by (simp add: contents_def)

lemma fill_cases:
  assumes "wf_queue cap q"
  shows "fill cap q = (if head q \<le> tail q then tail q - head q else tail q + cap - head q)"
  using assms by (auto simp: wf_queue_def fill_def mod_if)

lemma fill_zero_iff: "wf_queue cap q \<Longrightarrow> fill cap q = 0 \<longleftrightarrow> head q = tail q"
  by (auto simp: fill_cases wf_queue_def)

lemma full_iff:
  assumes "wf_queue cap q"
  shows "(tail q + 1) mod cap = head q \<longleftrightarrow> fill cap q = cap - 1"
  using assms by (auto simp: fill_cases wf_queue_def mod_if)

lemma slot_tail: "wf_queue cap q \<Longrightarrow> (head q + fill cap q) mod cap = tail q"
  unfolding fill_def by (rule mod_offset_eq) (simp_all add: wf_queue_def)

lemma slot_inj:
  assumes "(h::nat) < cap" "i < cap" "j < cap" "(h + i) mod cap = (h + j) mod cap"
  shows "i = j"
  using assms by (auto simp: mod_if split: if_splits)

lemma used_slot_not_tail:
  assumes "wf_queue cap q" "i < fill cap q"
  shows "tail q \<noteq> (head q + i) mod cap"
  using assms fill_lt [OF assms(1)] slot_inj [of "head q" cap i "fill cap q"] slot_tail [OF assms(1)]
  by (auto simp: wf_queue_def)

section \<open>Writing a slot, moving an index\<close>

lemma wf_queue_write: "wf_queue cap q \<Longrightarrow> wf_queue cap (q\<lparr>buffer := (buffer q)[i := x]\<rparr>)"
  and wf_queue_tail: "wf_queue cap q \<Longrightarrow> wf_queue cap (q\<lparr>tail := i mod cap\<rparr>)"
  and wf_queue_head: "wf_queue cap q \<Longrightarrow> wf_queue cap (q\<lparr>head := i mod cap\<rparr>)"
  by (auto simp: wf_queue_def)

lemma contents_write_tail:
  assumes "wf_queue cap q"
  shows "contents cap (q\<lparr>buffer := (buffer q)[tail q := x]\<rparr>) = contents cap q"
  using used_slot_not_tail [OF assms] by (simp add: contents_def fill_def)

lemma fill_advance_tail:
  assumes "wf_queue cap q" "(tail q + 1) mod cap \<noteq> head q"
  shows "fill cap (q\<lparr>tail := (tail q + 1) mod cap\<rparr>) = Suc (fill cap q)"
  using fill_cases [OF assms(1)] fill_cases [OF wf_queue_tail [OF assms(1), of "tail q + 1"]] assms
  by (auto simp: wf_queue_def mod_Suc split: if_splits)

lemma contents_advance_tail:
  assumes "wf_queue cap q" "(tail q + 1) mod cap \<noteq> head q"
  shows "contents cap (q\<lparr>tail := (tail q + 1) mod cap\<rparr>) = contents cap q @ [buffer q ! tail q]"
  using fill_advance_tail [OF assms] slot_tail [OF assms(1)] by (simp add: contents_def)

lemma fill_advance_head:
  assumes "wf_queue cap q" "head q \<noteq> tail q"
  shows "fill cap q = Suc (fill cap (q\<lparr>head := (head q + 1) mod cap\<rparr>))"
  using fill_cases [OF assms(1)] fill_cases [OF wf_queue_head [OF assms(1), of "head q + 1"]] assms
  by (auto simp: wf_queue_def mod_Suc split: if_splits)

lemma contents_advance_head:
  assumes "wf_queue cap q" "head q \<noteq> tail q"
  shows "contents cap q = buffer q ! head q # contents cap (q\<lparr>head := (head q + 1) mod cap\<rparr>)"
proof -
  have slot: "(head q + Suc i) mod cap = ((head q + 1) mod cap + i) mod cap" for i
    by (simp add: mod_add_left_eq)
  have "head q mod cap = head q" using assms(1) by (simp add: wf_queue_def)
  then show ?thesis
    unfolding contents_def fill_advance_head [OF assms]
    by (simp only: upt_conv_Cons zero_less_Suc map_Suc_upt [symmetric] list.map map_map comp_def slot)
      simp
qed

section \<open>The contract of one thread\<close>

definition pushOpt :: "nat \<Rightarrow> 'a \<Rightarrow> 'a LockFreeQueue \<Rightarrow> 'a LockFreeQueue option" where
  "pushOpt cap item q = (case Push cap item q of (ok, q') \<Rightarrow> if ok then Some q' else None)"

lemma Push_room:
  assumes "wf_queue cap q" "fill cap q < cap - 1"
  shows "\<exists>q'. Push cap x q = (True, q') \<and> wf_queue cap q' \<and> contents cap q' = contents cap q @ [x]"
proof -
  let ?w = "q\<lparr>buffer := (buffer q)[tail q := x]\<rparr>"
  have room: "(tail q + 1) mod cap \<noteq> head q" using assms full_iff [of cap q] by simp
  have wf: "wf_queue cap ?w" using assms(1) by (rule wf_queue_write)
  have "contents cap (?w\<lparr>tail := (tail ?w + 1) mod cap\<rparr>) = contents cap ?w @ [buffer ?w ! tail ?w]"
    using room by (intro contents_advance_tail [OF wf]) simp
  then have "contents cap (?w\<lparr>tail := (tail q + 1) mod cap\<rparr>) = contents cap q @ [x]"
    using assms(1) contents_write_tail [OF assms(1), of x] by (simp add: wf_queue_def)
  then show ?thesis
    using room wf_queue_tail [OF wf, of "tail q + 1"] by (simp add: Push_def Let_def)
qed

lemma Push_full: "wf_queue cap q \<Longrightarrow> cap - 1 \<le> fill cap q \<Longrightarrow> Push cap x q = (False, q)"
  using full_iff [of cap q] fill_lt [of cap q] by (simp add: Push_def Let_def)

lemma Pop_next:
  assumes "wf_queue cap q" "contents cap q = x # xs"
  shows "\<exists>q'. Pop cap q = Some (x, q') \<and> wf_queue cap q' \<and> contents cap q' = xs"
proof -
  have "head q \<noteq> tail q"
    using assms fill_zero_iff [OF assms(1)] length_contents [of cap q] by auto
  then show ?thesis
    using contents_advance_head [OF assms(1)] assms(2) wf_queue_head [OF assms(1), of "head q + 1"]
    by (simp add: Pop_def Let_def)
qed

lemma Pop_empty: "wf_queue cap q \<Longrightarrow> contents cap q = [] \<Longrightarrow> Pop cap q = None"
  using fill_zero_iff [of cap q] length_contents [of cap q] by (simp add: Pop_def)

interpretation ring: bounded_fifo "pushOpt cap" "\<lambda>x q. snd (Push cap x q)" "Pop cap" "contents cap" "cap - 1"
    "wf_queue cap" for cap
proof unfold_locales
  show "\<exists>q'. pushOpt cap x q = Some q' \<and> wf_queue cap q' \<and> contents cap q' = contents cap q @ [x]"
    if "wf_queue cap q" "length (contents cap q) < cap - 1" for q :: "'a LockFreeQueue" and x
    using Push_room [of cap q x] that by (auto simp: pushOpt_def)
  show "pushOpt cap x q = None" if "wf_queue cap q" "cap - 1 \<le> length (contents cap q)"
    for q :: "'a LockFreeQueue" and x
    using Push_full [of cap q x] that by (simp add: pushOpt_def)
  show "snd (Push cap x q) = q'" if "pushOpt cap x q = Some q'" for x :: 'a and q q'
    using that by (auto simp: pushOpt_def split: prod.splits if_splits)
  show "snd (Push cap x q) = q" if "pushOpt cap x q = None" for x :: 'a and q
    using that by (auto simp: pushOpt_def Push_def Let_def split: if_splits)
qed (simp_all add: Pop_next Pop_empty)

section \<open>Threads\<close>

datatype 'a pushPc =
    PushIdle
  | PushLoaded 'a nat
  | PushChecked 'a nat
  | PushWritten 'a nat

datatype 'a popPc =
    PopIdle
  | PopLoaded nat
  | PopChecked nat
  | PopRead nat 'a

text \<open>
  \<open>pushedItems\<close> collects the items of the calls of \<open>Push\<close> that return true, \<open>poppedItems\<close> those that \<open>Pop\<close>
  delivers; both are recorded with the store of the index that ends the call.
\<close>

record 'a queueSys =
  ringOf :: "'a LockFreeQueue"
  producers :: "'a pushPc list"
  consumer :: "'a popPc"
  pushedItems :: "'a list"
  poppedItems :: "'a list"

inductive queue_step :: "nat \<Rightarrow> 'a queueSys \<Rightarrow> 'a queueSys \<Rightarrow> bool" for cap where
  push_load: "i < length (producers s) \<Longrightarrow> producers s ! i = PushIdle \<Longrightarrow>
    queue_step cap s (s\<lparr>producers := (producers s)[i := PushLoaded item (tail (ringOf s))]\<rparr>)"
| push_full: "i < length (producers s) \<Longrightarrow> producers s ! i = PushLoaded item t \<Longrightarrow>
    (t + 1) mod cap = head (ringOf s) \<Longrightarrow>
    queue_step cap s (s\<lparr>producers := (producers s)[i := PushIdle]\<rparr>)"
| push_check: "i < length (producers s) \<Longrightarrow> producers s ! i = PushLoaded item t \<Longrightarrow>
    (t + 1) mod cap \<noteq> head (ringOf s) \<Longrightarrow>
    queue_step cap s (s\<lparr>producers := (producers s)[i := PushChecked item t]\<rparr>)"
| push_write: "i < length (producers s) \<Longrightarrow> producers s ! i = PushChecked item t \<Longrightarrow>
    queue_step cap s (s\<lparr>ringOf := (ringOf s)\<lparr>buffer := (buffer (ringOf s))[t := item]\<rparr>,
      producers := (producers s)[i := PushWritten item t]\<rparr>)"
| push_store: "i < length (producers s) \<Longrightarrow> producers s ! i = PushWritten item t \<Longrightarrow>
    queue_step cap s (s\<lparr>ringOf := (ringOf s)\<lparr>tail := (t + 1) mod cap\<rparr>,
      producers := (producers s)[i := PushIdle], pushedItems := pushedItems s @ [item]\<rparr>)"
| pop_load: "consumer s = PopIdle \<Longrightarrow> queue_step cap s (s\<lparr>consumer := PopLoaded (head (ringOf s))\<rparr>)"
| pop_empty: "consumer s = PopLoaded h \<Longrightarrow> h = tail (ringOf s) \<Longrightarrow>
    queue_step cap s (s\<lparr>consumer := PopIdle\<rparr>)"
| pop_check: "consumer s = PopLoaded h \<Longrightarrow> h \<noteq> tail (ringOf s) \<Longrightarrow>
    queue_step cap s (s\<lparr>consumer := PopChecked h\<rparr>)"
| pop_read: "consumer s = PopChecked h \<Longrightarrow>
    queue_step cap s (s\<lparr>consumer := PopRead h (buffer (ringOf s) ! h)\<rparr>)"
| pop_store: "consumer s = PopRead h item \<Longrightarrow>
    queue_step cap s (s\<lparr>ringOf := (ringOf s)\<lparr>head := (h + 1) mod cap\<rparr>, consumer := PopIdle,
      poppedItems := poppedItems s @ [item]\<rparr>)"

inductive_cases queue_step_cases: "queue_step cap s t"

definition queue_start :: "nat \<Rightarrow> 'a list \<Rightarrow> 'a queueSys" where
  "queue_start n mem =
     \<lparr>ringOf = emptyQueue mem, producers = replicate n PushIdle, consumer = PopIdle,
      pushedItems = [], poppedItems = []\<rparr>"

section \<open>One producer\<close>

fun producer_ok :: "nat \<Rightarrow> 'a LockFreeQueue \<Rightarrow> 'a pushPc \<Rightarrow> bool" where
  "producer_ok cap q PushIdle = True"
| "producer_ok cap q (PushLoaded x t) \<longleftrightarrow> t = tail q"
| "producer_ok cap q (PushChecked x t) \<longleftrightarrow> t = tail q \<and> (t + 1) mod cap \<noteq> head q"
| "producer_ok cap q (PushWritten x t) \<longleftrightarrow> t = tail q \<and> (t + 1) mod cap \<noteq> head q \<and> buffer q ! t = x"

fun consumer_ok :: "'a LockFreeQueue \<Rightarrow> 'a popPc \<Rightarrow> bool" where
  "consumer_ok q PopIdle = True"
| "consumer_ok q (PopLoaded h) \<longleftrightarrow> h = head q"
| "consumer_ok q (PopChecked h) \<longleftrightarrow> h = head q \<and> h \<noteq> tail q"
| "consumer_ok q (PopRead h x) \<longleftrightarrow> h = head q \<and> h \<noteq> tail q \<and> buffer q ! h = x"

definition spsc_init :: "nat \<Rightarrow> 'a queueSys \<Rightarrow> bool" where
  "spsc_init cap s \<longleftrightarrow> (\<exists>mem. length mem = cap \<and> 0 < cap \<and> s = queue_start 1 mem)"

definition spsc_inv :: "nat \<Rightarrow> 'a queueSys \<Rightarrow> bool" where
  "spsc_inv cap s \<longleftrightarrow>
     wf_queue cap (ringOf s) \<and> pushedItems s = poppedItems s @ contents cap (ringOf s) \<and>
     consumer_ok (ringOf s) (consumer s) \<and> (\<exists>p. producers s = [p] \<and> producer_ok cap (ringOf s) p)"

lemma spsc_inv_init: "spsc_init cap s \<Longrightarrow> spsc_inv cap s"
  by (auto simp: spsc_init_def spsc_inv_def queue_start_def emptyQueue_def wf_queue_def contents_def fill_def)

lemma producer_ok_head:
  assumes "producer_ok cap q p" "wf_queue cap q" "head q \<noteq> tail q"
  shows "producer_ok cap (q\<lparr>head := (head q + 1) mod cap\<rparr>) p"
proof -
  have "(tail q + 1) mod cap \<noteq> (head q + 1) mod cap"
    using assms(2,3) slot_inj [of 1 cap "tail q" "head q"]
    by (cases "cap = 1") (auto simp: wf_queue_def add.commute)
  with assms(1) show ?thesis by (cases p) auto
qed

lemma consumer_ok_write:
  "consumer_ok q c \<Longrightarrow> consumer_ok (q\<lparr>buffer := (buffer q)[tail q := x]\<rparr>) c"
  by (cases c) auto

lemma consumer_ok_tail:
  "consumer_ok q c \<Longrightarrow> (tail q + 1) mod cap \<noteq> head q \<Longrightarrow> consumer_ok (q\<lparr>tail := (tail q + 1) mod cap\<rparr>) c"
  by (cases c) auto

lemma spsc_inv_step: "queue_step cap s t \<Longrightarrow> spsc_inv cap s \<Longrightarrow> spsc_inv cap t"
proof (induction rule: queue_step.induct)
  case (push_write i s item t)
  then have "i = 0" "producers s = [PushChecked item t]" by (auto simp: spsc_inv_def)
  with push_write show ?case
    using contents_write_tail [of cap "ringOf s" item]
    by (auto simp: spsc_inv_def wf_queue_write consumer_ok_write) (simp add: wf_queue_def)
next
  case (push_store i s item t)
  then have "i = 0" "producers s = [PushWritten item t]" by (auto simp: spsc_inv_def)
  with push_store show ?case
    using contents_advance_tail [of cap "ringOf s"] wf_queue_tail [of cap "ringOf s" "tail (ringOf s) + 1"]
      consumer_ok_tail [of "ringOf s" "consumer s" cap]
    by (auto simp: spsc_inv_def)
next
  case (pop_store s h item)
  then show ?case
    using contents_advance_head [of cap "ringOf s"] wf_queue_head [of cap "ringOf s" "head (ringOf s) + 1"]
      producer_ok_head [of cap "ringOf s"]
    by (auto simp: spsc_inv_def)
qed (auto simp: spsc_inv_def less_Suc_eq_0_disj)

interpretation spsc: invariant_system "spsc_init cap" "queue_step cap" "spsc_inv cap" for cap
  by unfold_locales (auto intro: spsc_inv_init spsc_inv_step)

section \<open>The steps of a call make up the call\<close>

lemma Push_steps:
  assumes "i < length (producers s)" "producers s ! i = PushIdle" "Push cap item (ringOf s) = (ok, q')"
  shows "(queue_step cap)\<^sup>*\<^sup>* s (s\<lparr>ringOf := q', pushedItems := pushedItems s @ (if ok then [item] else [])\<rparr>)"
proof -
  let ?q = "ringOf s" and ?t = "tail (ringOf s)"
  let ?s1 = "s\<lparr>producers := (producers s)[i := PushLoaded item ?t]\<rparr>"
  let ?s2 = "s\<lparr>producers := (producers s)[i := PushChecked item ?t]\<rparr>"
  let ?s3 = "s\<lparr>ringOf := ?q\<lparr>buffer := (buffer ?q)[?t := item]\<rparr>, producers := (producers s)[i := PushWritten item ?t]\<rparr>"
  have idle: "(producers s)[i := PushIdle] = producers s" using assms(2) list_update_id by metis
  have load: "queue_step cap s ?s1" by (rule queue_step.push_load [OF assms(1,2)])
  show ?thesis
  proof (cases "(?t + 1) mod cap = head ?q")
    case True
    then have "queue_step cap ?s1 s"
      using queue_step.push_full [of i ?s1 item ?t cap] assms(1) idle by simp
    with load True assms(3) show ?thesis by (auto simp: Push_def)
  next
    case False
    have "queue_step cap ?s1 ?s2"
      using queue_step.push_check [of i ?s1 item ?t cap] assms(1) False by simp
    moreover have "queue_step cap ?s2 ?s3"
      using queue_step.push_write [of i ?s2 item ?t cap] assms(1) by simp
    moreover have "queue_step cap ?s3 (s\<lparr>ringOf := q', pushedItems := pushedItems s @ [item]\<rparr>)"
      using queue_step.push_store [of i ?s3 item ?t cap] assms(1,3) False idle by (simp add: Push_def Let_def)
    ultimately show ?thesis using load False assms(3)
      by (auto simp: Push_def Let_def intro: converse_rtranclp_into_rtranclp)
  qed
qed

lemma Pop_steps:
  assumes "consumer s = PopIdle" "Pop cap (ringOf s) = Some (item, q')"
  shows "(queue_step cap)\<^sup>*\<^sup>* s (s\<lparr>ringOf := q', poppedItems := poppedItems s @ [item]\<rparr>)"
proof -
  let ?q = "ringOf s" and ?h = "head (ringOf s)"
  have ne: "?h \<noteq> tail ?q" and item: "item = buffer ?q ! ?h" and q': "q' = ?q\<lparr>head := (?h + 1) mod cap\<rparr>"
    using assms(2) by (auto simp: Pop_def Let_def split: if_splits)
  have "queue_step cap s (s\<lparr>consumer := PopLoaded ?h\<rparr>)"
    by (rule queue_step.pop_load [OF assms(1)])
  moreover have "queue_step cap (s\<lparr>consumer := PopLoaded ?h\<rparr>) (s\<lparr>consumer := PopChecked ?h\<rparr>)"
    using queue_step.pop_check [of "s\<lparr>consumer := PopLoaded ?h\<rparr>" ?h cap] ne by simp
  moreover have "queue_step cap (s\<lparr>consumer := PopChecked ?h\<rparr>) (s\<lparr>consumer := PopRead ?h item\<rparr>)"
    using queue_step.pop_read [of "s\<lparr>consumer := PopChecked ?h\<rparr>" ?h cap] item by simp
  moreover have "queue_step cap (s\<lparr>consumer := PopRead ?h item\<rparr>)
      (s\<lparr>ringOf := q', poppedItems := poppedItems s @ [item]\<rparr>)"
    using queue_step.pop_store [of "s\<lparr>consumer := PopRead ?h item\<rparr>" ?h item cap] assms(1) q'
    by (cases s) simp
  ultimately show ?thesis by (meson converse_rtranclp_into_rtranclp rtranclp.rtrancl_refl)
qed

section \<open>Two producers\<close>

definition twoProducers ::
  "'a LockFreeQueue \<Rightarrow> 'a pushPc \<Rightarrow> 'a pushPc \<Rightarrow> 'a list \<Rightarrow> 'a queueSys" where
  "twoProducers q p p' acc =
     \<lparr>ringOf = q, producers = [p, p'], consumer = PopIdle, pushedItems = acc, poppedItems = []\<rparr>"

lemma both_checked:
  "(queue_step Capacity)\<^sup>*\<^sup>* (queue_start 2 mem)
     (twoProducers (emptyQueue mem) (PushChecked x 0) (PushChecked y 0) [])"
proof -
  let ?st = "\<lambda>p p'. twoProducers (emptyQueue mem) p p' []"
  note rtranclp.rtrancl_into_rtrancl [trans]
  note run = twoProducers_def emptyQueue_def Capacity_def
  have "(queue_step Capacity)\<^sup>*\<^sup>* (queue_start 2 mem) (?st PushIdle PushIdle)"
    by (simp add: twoProducers_def queue_start_def numeral_2_eq_2)
  also have "queue_step Capacity (?st PushIdle PushIdle) (?st (PushLoaded x 0) PushIdle)"
    using queue_step.push_load [of 0 "?st PushIdle PushIdle" Capacity x] by (simp add: run)
  also have "queue_step Capacity (?st (PushLoaded x 0) PushIdle) (?st (PushLoaded x 0) (PushLoaded y 0))"
    using queue_step.push_load [of 1 "?st (PushLoaded x 0) PushIdle" Capacity y] by (simp add: run)
  also have "queue_step Capacity (?st (PushLoaded x 0) (PushLoaded y 0)) (?st (PushChecked x 0) (PushLoaded y 0))"
    using queue_step.push_check [of 0 "?st (PushLoaded x 0) (PushLoaded y 0)" x 0 Capacity] by (simp add: run)
  also have "queue_step Capacity (?st (PushChecked x 0) (PushLoaded y 0)) (?st (PushChecked x 0) (PushChecked y 0))"
    using queue_step.push_check [of 1 "?st (PushChecked x 0) (PushLoaded y 0)" y 0 Capacity] by (simp add: run)
  finally show ?thesis .
qed

section \<open>Properties\<close>

text \<open>
  C19. The ring buffer of one thread is a bounded channel: with indices in range, \<open>Push\<close> returns true
  exactly when fewer than \<open>Capacity - 1\<close> items are queued, it then queues the item at the end and
  otherwise changes nothing, \<open>Pop\<close> takes the oldest item and fails exactly when there is none, and
  both keep the indices in range.
\<close>

theorem ring_refines_channel:
  assumes "wf_queue cap q"
  shows "(case Push cap x q of (ok, q') \<Rightarrow>
       wf_queue cap q' \<and> ok = (chanSend (cap - 1) x (contents cap q) \<noteq> None) \<and>
       contents cap q' = chanOffer (cap - 1) x (contents cap q)) \<and>
     map_option (\<lambda>(y, q'). (y, contents cap q')) (Pop cap q) = chanRecv (contents cap q) \<and>
     (\<forall>y q'. Pop cap q = Some (y, q') \<longrightarrow> wf_queue cap q')"
proof (intro conjI)
  show "case Push cap x q of (ok, q') \<Rightarrow>
       wf_queue cap q' \<and> ok = (chanSend (cap - 1) x (contents cap q) \<noteq> None) \<and>
       contents cap q' = chanOffer (cap - 1) x (contents cap q)"
  proof (cases "fill cap q < cap - 1")
    case True
    then show ?thesis using Push_room [OF assms, of x] by (auto simp: chanSend_def chanOffer_def)
  next
    case False
    then show ?thesis using Push_full [OF assms, of x] assms by (simp add: chanSend_def chanOffer_def)
  qed
  show "map_option (\<lambda>(y, q'). (y, contents cap q')) (Pop cap q) = chanRecv (contents cap q)"
  proof (cases "contents cap q")
    case Nil
    then show ?thesis using Pop_empty [OF assms] by simp
  next
    case (Cons y ys)
    then show ?thesis using Pop_next [OF assms Cons] by auto
  qed
  show "\<forall>y q'. Pop cap q = Some (y, q') \<longrightarrow> wf_queue cap q'"
    using ring.recv_Some [OF assms] by blast
qed

theorem ring_refines_channel_witness:
  "let q = \<lparr>buffer = [7, 8, 9 :: nat], head = 2, tail = 1\<rparr> in
   contents 3 q = [9, 7] \<and> Push 3 5 q = (False, q) \<and> fst (the (Pop 3 q)) = 9"
proof -
  let ?q = "\<lparr>buffer = [7, 8, 9 :: nat], head = 2, tail = 1\<rparr>"
  have wf: "wf_queue 3 ?q" by (simp add: wf_queue_def)
  have c: "contents 3 ?q = [9, 7]" by (simp add: contents_def fill_def upt_rec)
  from ring_refines_channel [OF wf, of 5] c
  have "map_option (\<lambda>(y, q'). (y, contents 3 q')) (Pop 3 ?q) = chanRecv [9, 7]" by simp
  then have "fst (the (Pop 3 ?q)) = 9" by (cases "Pop 3 ?q") auto
  with c show ?thesis by (simp add: Push_def Let_def)
qed

text \<open>
  C13. One producer and one consumer, whatever the interleaving of their accesses: the items that were
  popped and those still queued are, in order, exactly the items of the calls of \<open>Push\<close> that returned
  true; at most \<open>Capacity - 1\<close> are queued; and the producer never writes a slot that the consumer
  is about to read or has just read for a pending \<open>Pop\<close>.
\<close>

theorem spsc_queue_fifo:
  assumes "spsc_init cap s0" and "(queue_step cap)\<^sup>*\<^sup>* s0 s"
  shows "poppedItems s @ contents cap (ringOf s) = pushedItems s \<and> length (contents cap (ringOf s)) \<le> cap - 1 \<and>
     (\<forall>x t. producers s = [PushChecked x t] \<longrightarrow>
        consumer s \<noteq> PopChecked t \<and> (\<forall>y. consumer s \<noteq> PopRead t y))"
proof -
  have inv: "spsc_inv cap s" using spsc.inv_reachable [OF assms] .
  then have "fill cap (ringOf s) \<le> cap - 1" using fill_lt [of cap "ringOf s"] by (auto simp: spsc_inv_def)
  with inv show ?thesis by (auto simp: spsc_inv_def)
qed

theorem spsc_queue_fifo_witness:
  "\<exists>s. (queue_step 4)\<^sup>*\<^sup>* (queue_start 1 [0, 0, 0, 0 :: nat]) s \<and> pushedItems s = [5] \<and>
     poppedItems s @ contents 4 (ringOf s) = [5]"
proof -
  let ?start = "queue_start 1 [0, 0, 0, 0 :: nat]"
  let ?s = "?start\<lparr>ringOf := snd (Push 4 5 (ringOf ?start)), pushedItems := [5]\<rparr>"
  have "(queue_step 4)\<^sup>*\<^sup>* ?start ?s"
    using Push_steps [of 0 ?start 4 5 True "snd (Push 4 5 (ringOf ?start))"]
    by (simp add: queue_start_def emptyQueue_def Push_def)
  moreover have "spsc_init 4 ?start"
    by (auto simp: spsc_init_def intro!: exI [of _ "[0, 0, 0, 0]"])
  ultimately show ?thesis using spsc_queue_fifo [of 4 ?start ?s] by (intro exI [of _ ?s]) simp
qed

text \<open>
  C33. The queue is not safe for several producers: from the empty queue, two threads that call
  \<open>Push\<close> at the same time can both get true although only one of the two items is queued; the other
  one is overwritten and never reaches the consumer.
\<close>

theorem two_producers_lose_event:
  assumes "length mem = Capacity"
  shows "\<exists>s. (queue_step Capacity)\<^sup>*\<^sup>* (queue_start 2 mem) s \<and> producers s = [PushIdle, PushIdle] \<and>
     pushedItems s = [x, y] \<and> poppedItems s = [] \<and> contents Capacity (ringOf s) = [y]"
proof -
  let ?w = "\<lambda>z. (emptyQueue mem)\<lparr>buffer := mem[0 := z]\<rparr>"
  let ?final = "twoProducers (?w y\<lparr>tail := 1\<rparr>) PushIdle PushIdle [x, y]"
  note rtranclp.rtrancl_into_rtrancl [trans]
  note run = twoProducers_def emptyQueue_def Capacity_def
  have "(queue_step Capacity)\<^sup>*\<^sup>* (queue_start 2 mem)
      (twoProducers (emptyQueue mem) (PushChecked x 0) (PushChecked y 0) [])"
    by (rule both_checked)
  also have "queue_step Capacity (twoProducers (emptyQueue mem) (PushChecked x 0) (PushChecked y 0) [])
      (twoProducers (?w x) (PushWritten x 0) (PushChecked y 0) [])"
    using queue_step.push_write [of 0 "twoProducers (emptyQueue mem) (PushChecked x 0) (PushChecked y 0) []" x 0 Capacity]
    by (simp add: run)
  also have "queue_step Capacity (twoProducers (?w x) (PushWritten x 0) (PushChecked y 0) [])
      (twoProducers (?w y) (PushWritten x 0) (PushWritten y 0) [])"
    using queue_step.push_write [of 1 "twoProducers (?w x) (PushWritten x 0) (PushChecked y 0) []" y 0 Capacity]
    by (simp add: run)
  also have "queue_step Capacity (twoProducers (?w y) (PushWritten x 0) (PushWritten y 0) [])
      (twoProducers (?w y\<lparr>tail := 1\<rparr>) PushIdle (PushWritten y 0) [x])"
    using queue_step.push_store [of 0 "twoProducers (?w y) (PushWritten x 0) (PushWritten y 0) []" x 0 Capacity]
    by (simp add: run)
  also have "queue_step Capacity (twoProducers (?w y\<lparr>tail := 1\<rparr>) PushIdle (PushWritten y 0) [x]) ?final"
    using queue_step.push_store [of 1 "twoProducers (?w y\<lparr>tail := 1\<rparr>) PushIdle (PushWritten y 0) [x]" y 0 Capacity]
    by (simp add: run)
  finally have "(queue_step Capacity)\<^sup>*\<^sup>* (queue_start 2 mem) ?final" .
  moreover have "contents Capacity (ringOf ?final) = [y]"
    using assms by (simp add: contents_def fill_def run)
  ultimately show ?thesis by (intro exI [of _ ?final]) (simp add: twoProducers_def)
qed

theorem two_producers_lose_event_witness:
  "\<exists>s. (queue_step Capacity)\<^sup>*\<^sup>* (queue_start 2 (replicate Capacity (0::nat))) s \<and> pushedItems s = [1, 2] \<and>
     contents Capacity (ringOf s) = [2]"
  using two_producers_lose_event [of "replicate Capacity (0::nat)" 1 2] by auto

end
