(* ===== verification/Spy_Library.thy ===== *)
theory Spy_Library
  imports Spy_Queue Collector
begin

text \<open>
  \<open>spy/src/spy.cpp\<close> and \<open>spy/include/uds.h\<close>: the library that is preloaded into the workload. It wraps
  \<open>ncclAllReduce\<close>, puts one event per call into the ring buffer of \<open>Spy_Queue\<close>, and a background
  thread sends the events to the agent's socket.

  Character arrays are lists of bytes. What the code leaves uninitialised is an argument: the stack
  memory of the event (\<open>junk\<close>) and the padding bytes of a datagram. The environment, the CUDA runtime,
  the wrapped function, the clock and the socket calls are parameters. \<open>spy_step\<close> interleaves the
  hook of a workload that calls it from one thread at a time with the background thread, with each of
  \<open>Push\<close> and \<open>Pop\<close> as one step. The accesses of the two operations are interleaved in \<open>Spy_Queue\<close>, which
  shows that with one producer they do not interfere, and that with several, as when a workload calls
  \<open>ncclAllReduce\<close> from several threads at once, an event can be lost; such workloads are not runs of
  \<open>spy_step\<close>.
\<close>

section \<open>Character arrays\<close>

definition cstr :: "string \<Rightarrow> byte list" where
  "cstr s = map (\<lambda>c. of_nat (of_char c)) s @ [0]"

definition strlenPrefix :: "byte list \<Rightarrow> byte list" where
  "strlenPrefix p = takeWhile (\<lambda>b. b \<noteq> 0) p"

definition strncpy :: "byte list \<Rightarrow> byte list \<Rightarrow> nat \<Rightarrow> byte list" where
  "strncpy dst src n =
     (let s = take n (strlenPrefix src) in s @ replicate (n - length s) 0 @ drop n dst)"

definition setArray :: "nat \<Rightarrow> byte list \<Rightarrow> byte list \<Rightarrow> byte list" where
  "setArray n dst src = (strncpy dst src n)[n := 0]"

section \<open>What is detected at start\<close>

type_synonym environment = "string \<Rightarrow> string option"

record SpyInfo =
  cached_gpu_model :: "byte list"
  cached_pod_name :: "byte list"
  cached_pod_namespace :: "byte list"

definition initialInfo :: SpyInfo where
  "initialInfo =
     \<lparr>cached_gpu_model = bytesOf 32 ''unknown'', cached_pod_name = bytesOf 64 ''unknown'',
      cached_pod_namespace = bytesOf 64 ''unknown''\<rparr>"

definition DetectPodInfo :: "environment \<Rightarrow> SpyInfo \<Rightarrow> SpyInfo" where
  "DetectPodInfo getenv info =
     (let info1 = (case getenv ''COMPUTE_SENTRY_POD_NAME'' of
          None \<Rightarrow> info
        | Some pod_name \<Rightarrow> info\<lparr>cached_pod_name := setArray 63 (cached_pod_name info) (cstr pod_name)\<rparr>)
      in case getenv ''COMPUTE_SENTRY_POD_NAMESPACE'' of
          None \<Rightarrow> info1
        | Some pod_namespace \<Rightarrow>
            info1\<lparr>cached_pod_namespace := setArray 63 (cached_pod_namespace info1) (cstr pod_namespace)\<rparr>)"

text \<open>
  The CUDA runtime library, once loaded: each function if it has the symbol, with its return code and
  what it writes through its first argument.
\<close>

record CudaRt =
  cudaGetDevice :: "(int \<times> int) option"
  cudaGetDeviceProperties :: "(int \<Rightarrow> int \<times> byte list) option"

definition skipPrefix :: "string \<Rightarrow> byte list \<Rightarrow> byte list" where
  "skipPrefix pre p =
     (if map (\<lambda>c. of_nat (of_char c)) pre = take (length pre) (strlenPrefix p) then drop (length pre) p else p)"

definition modelName :: "byte list \<Rightarrow> byte list" where
  "modelName prop_name =
     skipPrefix ''Tesla '' (skipPrefix ''GeForce '' (skipPrefix ''NVIDIA '' prop_name))"

definition DetectGPUModel :: "environment \<Rightarrow> CudaRt option \<Rightarrow> SpyInfo \<Rightarrow> SpyInfo" where
  "DetectGPUModel getenv libcudart info =
     (case getenv ''COMPUTE_SENTRY_GPU_MODEL_OVERRIDE'' of
        Some env_override \<Rightarrow>
          info\<lparr>cached_gpu_model := setArray 31 (cached_gpu_model info) (cstr env_override)\<rparr>
      | None \<Rightarrow>
          (case libcudart of
             None \<Rightarrow> info
           | Some rt \<Rightarrow>
               (case (cudaGetDevice rt, cudaGetDeviceProperties rt) of
                  (Some (rc, device), Some get_props) \<Rightarrow>
                    if rc = 0 then
                      (case get_props device of
                         (rc', prop_name) \<Rightarrow>
                           if rc' = 0
                           then info\<lparr>cached_gpu_model := setArray 31 (cached_gpu_model info) (modelName prop_name)\<rparr>
                           else info)
                    else info
                | _ \<Rightarrow> info)))"

section \<open>The wrapped call\<close>

record AllReduceArgs =
  sendbuff :: uint64
  recvbuff :: uint64
  argCount :: uint64
  datatypeArg :: int
  opArg :: int
  comm :: uint64
  stream :: uint64

type_synonym 'w ncclFn = "AllReduceArgs \<Rightarrow> 'w \<Rightarrow> int \<times> 'w"

text \<open>\<open>duration_cast\<close> rounds a number of nanoseconds towards zero.\<close>

definition toMicroseconds :: "int \<Rightarrow> int64" where
  "toMicroseconds ns = word_of_int (if 0 \<le> ns then ns div 1000 else - ((- ns) div 1000))"

definition hookEvent :: "SpyInfo \<Rightarrow> MetricEvent \<Rightarrow> int64 \<Rightarrow> uint64 \<Rightarrow> MetricEvent" where
  "hookEvent info junk duration count =
     junk\<lparr>EvType := NCCL_ALL_REDUCE,
          GPUModel := strncpy (GPUModel junk) (cached_gpu_model info) 31,
          PodName := strncpy (PodName junk) (cached_pod_name info) 63,
          PodNamespace := strncpy (PodNamespace junk) (cached_pod_namespace info) 63,
          DurationUs := duration,
          Count := count\<rparr>"

definition ncclAllReduce ::
  "'w ncclFn option \<Rightarrow> int \<Rightarrow> int \<Rightarrow> MetricEvent \<Rightarrow> SpyInfo \<Rightarrow> AllReduceArgs \<Rightarrow> 'w \<Rightarrow>
   'w ncclFn option \<Rightarrow> MetricEvent LockFreeQueue \<Rightarrow>
   int \<times> 'w \<times> 'w ncclFn option \<times> MetricEvent LockFreeQueue" where
  "ncclAllReduce dlsymNext start stop junk info args w real_ncclAllReduce event_queue =
     (let resolved = (case real_ncclAllReduce of None \<Rightarrow> dlsymNext | Some f \<Rightarrow> Some f) in
      case resolved of
        None \<Rightarrow> (- 1, w, None, event_queue)
      | Some real \<Rightarrow>
          (let (result, w') = real args w;
               event = hookEvent info junk (toMicroseconds (stop - start)) (argCount args);
               (ok, q') = Push Capacity event event_queue
           in (result, w', Some real, q')))"

section \<open>The socket client\<close>

record 'o Sockets =
  sysSocket :: "'o \<Rightarrow> int \<times> 'o"
  sysConnect :: "int \<Rightarrow> string \<Rightarrow> 'o \<Rightarrow> int \<times> 'o"
  sysClose :: "int \<Rightarrow> 'o \<Rightarrow> 'o"
  sysSend :: "int \<Rightarrow> byte list \<Rightarrow> 'o \<Rightarrow> int \<times> 'o"

record UDSClient =
  udsPathOf :: string
  fd :: int

definition newClient :: "string \<Rightarrow> UDSClient" where
  "newClient path = \<lparr>udsPathOf = path, fd = - 1\<rparr>"

definition Close :: "'o Sockets \<Rightarrow> UDSClient \<Rightarrow> 'o \<Rightarrow> UDSClient \<times> 'o" where
  "Close os c s = (if fd c \<noteq> - 1 then (c\<lparr>fd := - 1\<rparr>, sysClose os (fd c) s) else (c, s))"

text \<open>\<open>sun_path\<close> has 108 bytes.\<close>

definition Connect :: "'o Sockets \<Rightarrow> UDSClient \<Rightarrow> 'o \<Rightarrow> bool \<times> UDSClient \<times> 'o" where
  "Connect os c s =
     (if fd c \<noteq> - 1 then (True, c, s)
      else (let (d, s1) = sysSocket os s; c1 = c\<lparr>fd := d\<rparr> in
            if d < 0 then (False, c1, s1)
            else (let (rc, s2) = sysConnect os d (take 107 (udsPathOf c)) s1 in
                  if rc < 0 then (False, Close os c1 s2) else (True, c1, s2))))"

definition Send :: "'o Sockets \<Rightarrow> byte list \<Rightarrow> MetricEvent \<Rightarrow> UDSClient \<Rightarrow> 'o \<Rightarrow> bool \<times> UDSClient \<times> 'o" where
  "Send os pad event c s =
     (let (ready, c1, s1) = (if fd c = - 1 then Connect os c s else (True, c, s)) in
      if \<not> ready then (False, c1, s1)
      else (let (sent, s2) = sysSend os (fd c1) (spyBytes pad event) s1
            in (sent = int eventSize, c1, s2)))"

section \<open>The process\<close>

definition defaultUdsPath :: string where
  "defaultUdsPath = ''/var/run/compute-sentry/spy.sock''"

datatype senderPc = SenderStart | SenderGpuKnown | SenderLoop | SenderExited

text \<open>
  \<open>queued\<close> collects the events of the successful calls of \<open>Push\<close>, \<open>taken\<close> those that the background
  thread has popped, \<open>datagrams\<close> the datagrams that the kernel has accepted from it.
\<close>

record 'o spy =
  spyInfo :: SpyInfo
  event_queue :: "MetricEvent LockFreeQueue"
  running :: bool
  sender :: senderPc
  client :: UDSClient
  sockets :: 'o
  queued :: "MetricEvent list"
  taken :: "MetricEvent list"
  datagrams :: "byte list list"

definition senderTurn :: "'o Sockets \<Rightarrow> byte list \<Rightarrow> 'o spy \<Rightarrow> 'o spy" where
  "senderTurn os pad s =
     (case Pop Capacity (event_queue s) of
        None \<Rightarrow> s
      | Some (event, q') \<Rightarrow>
          (let (ok, c', o') = Send os pad event (client s) (sockets s)
           in s\<lparr>event_queue := q', client := c', sockets := o', taken := taken s @ [event],
                datagrams := datagrams s @ (if ok then [spyBytes pad event] else [])\<rparr>))"

definition DeinitSpy :: "'o spy \<Rightarrow> 'o spy" where
  "DeinitSpy s = s\<lparr>running := False\<rparr>"

inductive spy_step :: "'o Sockets \<Rightarrow> environment \<Rightarrow> CudaRt option \<Rightarrow> 'o spy \<Rightarrow> 'o spy \<Rightarrow> bool"
  for os getenv libcudart where
  hook: "wf_event junk \<Longrightarrow> event = hookEvent (spyInfo s) junk duration count \<Longrightarrow>
    Push Capacity event (event_queue s) = (ok, q') \<Longrightarrow>
    spy_step os getenv libcudart s
      (s\<lparr>event_queue := q', queued := queued s @ (if ok then [event] else [])\<rparr>)"
| detect_gpu: "sender s = SenderStart \<Longrightarrow>
    spy_step os getenv libcudart s
      (s\<lparr>spyInfo := DetectGPUModel getenv libcudart (spyInfo s), sender := SenderGpuKnown\<rparr>)"
| detect_pod: "sender s = SenderGpuKnown \<Longrightarrow>
    spy_step os getenv libcudart s
      (s\<lparr>spyInfo := DetectPodInfo getenv (spyInfo s), sender := SenderLoop,
         client := newClient (case getenv ''COMPUTE_SENTRY_UDS_PATH'' of
           None \<Rightarrow> defaultUdsPath | Some env_path \<Rightarrow> env_path)\<rparr>)"
| turn: "sender s = SenderLoop \<Longrightarrow> running s \<Longrightarrow> length pad = 4 \<Longrightarrow>
    spy_step os getenv libcudart s (senderTurn os pad s)"
| leave: "sender s = SenderLoop \<Longrightarrow> \<not> running s \<Longrightarrow> Close os (client s) (sockets s) = (c', o') \<Longrightarrow>
    spy_step os getenv libcudart s (s\<lparr>sender := SenderExited, client := c', sockets := o'\<rparr>)"
| deinit: "spy_step os getenv libcudart s (DeinitSpy s)"
| system: "spy_step os getenv libcudart s (s\<lparr>sockets := o'\<rparr>)"

inductive_cases spy_step_cases: "spy_step os getenv libcudart s t"

definition spy_init :: "'o spy \<Rightarrow> bool" where
  "spy_init s \<longleftrightarrow>
     spyInfo s = initialInfo \<and> (\<exists>mem. length mem = Capacity \<and> event_queue s = emptyQueue mem) \<and>
     running s \<and> sender s = SenderStart \<and> queued s = [] \<and> taken s = [] \<and> datagrams s = []"

end
