(* ===== verification/Spy_Props.thy ===== *)
theory Spy_Props
  imports Spy_Library Collector_Props Evaluator_Props
begin

text \<open>
  Correctness of the spy library: the events that reach the agent are those that the hook has queued,
  in their order and with the names that the agent's evaluator reads; the hook does not change what
  the workload computes; and what happens when the agent's socket is replaced, when names are longer
  than the arrays and when the process ends.
\<close>

section \<open>Facts on character arrays\<close>

lemma strlenPrefix_cstr:
  assumes "CHR 0x00 \<notin> set s"
  shows "strlenPrefix (cstr s) = map (\<lambda>c. of_nat (of_char c)) s"
  unfolding strlenPrefix_def cstr_def
proof (rule takeWhile_append_stop)
  show "x \<noteq> 0" if "x \<in> set (map (\<lambda>c. of_nat (of_char c) :: byte) s)" for x
    using that assms by (auto simp only: set_map image_iff of_nat_of_char_zero)
qed simp

lemma length_strncpy [simp]: "n \<le> length dst \<Longrightarrow> length (strncpy dst src n) = length dst"
  by (simp add: strncpy_def Let_def)

lemma length_setArray [simp]: "n \<le> length dst \<Longrightarrow> length (setArray n dst src) = length dst"
  by (simp add: setArray_def)

lemma strlenPrefix_take_zeros:
  "strlenPrefix (take n (strlenPrefix p) @ replicate m 0 @ 0 # r) = take n (strlenPrefix p)"
  unfolding strlenPrefix_def
  by (rule takeWhile_append_stop) (auto dest: in_set_takeD set_takeWhileD simp: hd_append)

text \<open>The string in an array that \<open>setArray\<close> has filled, and the array that is copied from it.\<close>

lemma setArray_split:
  "length dst = Suc n \<Longrightarrow>
   setArray n dst src = take n (strlenPrefix src) @ replicate (n - length (take n (strlenPrefix src))) 0 @ [0]"
  by (cases dst rule: rev_cases) (auto simp: setArray_def strncpy_def Let_def list_update_append)

lemma strlenPrefix_setArray:
  "length dst = Suc n \<Longrightarrow> strlenPrefix (setArray n dst src) = take n (strlenPrefix src)"
  unfolding setArray_split by (rule strlenPrefix_take_zeros)

lemma strncpy_split:
  "length dst = Suc n \<Longrightarrow>
   strncpy dst src n =
     take n (strlenPrefix src) @ replicate (n - length (take n (strlenPrefix src))) 0 @ [dst ! n]"
  by (cases dst rule: rev_cases) (auto simp: strncpy_def Let_def nth_append)

definition wf_info :: "SpyInfo \<Rightarrow> bool" where
  "wf_info info \<longleftrightarrow>
     length (cached_gpu_model info) = 32 \<and> length (cached_pod_name info) = 64 \<and>
     length (cached_pod_namespace info) = 64"

lemma wf_info_initial: "wf_info initialInfo"
  by (simp add: wf_info_def initialInfo_def bytesOf_def)

lemma wf_info_pod: "wf_info info \<Longrightarrow> wf_info (DetectPodInfo getenv info)"
  by (simp add: wf_info_def DetectPodInfo_def Let_def split: option.split)

lemma wf_info_gpu: "wf_info info \<Longrightarrow> wf_info (DetectGPUModel getenv libcudart info)"
  by (auto simp: wf_info_def DetectGPUModel_def split: option.splits prod.splits)

lemma wf_hookEvent: "wf_event junk \<Longrightarrow> wf_event (hookEvent info junk d c)"
  by (simp add: wf_event_def hookEvent_def)

section \<open>Names\<close>

text \<open>
  What the agent reads of a name: all of it up to 62 characters, else its first 63 and the byte that
  happens to be at the end of the array.
\<close>

definition carried :: "string \<Rightarrow> byte \<Rightarrow> string" where
  "carried s b =
     (if length s \<le> 62 then s else take 63 s @ (if b = 0 then [] else [char_of (unat b)]))"

lemma bytesToString_strncpy:
  assumes "CHR 0x00 \<notin> set s" "length dst = 64" "length old = 64"
  shows "bytesToString (strncpy dst (setArray 63 old (cstr s)) 63) = carried s (dst ! 63)"
proof -
  let ?b = "map (\<lambda>c. of_nat (of_char c) :: byte) (take 63 s)"
  have nz: "x \<noteq> 0" if "x \<in> set ?b" for x
    using that assms(1) by (auto simp only: set_map image_iff of_nat_of_char_zero dest: in_set_takeD)
  have "strlenPrefix (setArray 63 old (cstr s)) = ?b"
    using assms(1,3) strlenPrefix_setArray [of old 63] by (simp add: strlenPrefix_cstr take_map del: of_nat_of_char)
  then have arr: "strncpy dst (setArray 63 old (cstr s)) 63 = ?b @ replicate (63 - length s) 0 @ [dst ! 63]"
    using strncpy_split [of dst 63] assms(2) by (simp add: min_def del: of_nat_of_char)
  have "takeWhile (\<lambda>x. x \<noteq> 0) (?b @ replicate (63 - length s) 0 @ [dst ! 63]) =
      ?b @ takeWhile (\<lambda>x. x \<noteq> 0) (replicate (63 - length s) 0 @ [dst ! 63])"
    using nz by (intro takeWhile_append2) simp
  moreover have "takeWhile (\<lambda>x. x \<noteq> 0) (replicate (63 - length s) 0 @ [dst ! 63]) =
      (if length s \<le> 62 \<or> dst ! 63 = 0 then [] else [dst ! 63])"
    by (cases "63 - length s") auto
  ultimately have "bytesToString (strncpy dst (setArray 63 old (cstr s)) 63) =
      stringOfBytes ?b @ stringOfBytes (if length s \<le> 62 \<or> dst ! 63 = 0 then [] else [dst ! 63])"
    by (simp only: bytesToString_takeWhile arr) (simp add: stringOfBytes_def)
  also have "\<dots> = carried s (dst ! 63)"
    by (simp only: stringOfBytes_roundtrip) (simp add: stringOfBytes_def carried_def)
  finally show ?thesis .
qed

lemma hookEvent_names:
  assumes "wf_info info" "wf_event junk"
    and "getenv ''COMPUTE_SENTRY_POD_NAME'' = Some name" "CHR 0x00 \<notin> set name"
    and "getenv ''COMPUTE_SENTRY_POD_NAMESPACE'' = Some ns" "CHR 0x00 \<notin> set ns"
  shows "bytesToString (PodName (hookEvent (DetectPodInfo getenv info) junk d c)) = carried name (PodName junk ! 63)"
    and "bytesToString (PodNamespace (hookEvent (DetectPodInfo getenv info) junk d c)) =
      carried ns (PodNamespace junk ! 63)"
  using assms by (simp_all add: hookEvent_def DetectPodInfo_def wf_info_def wf_event_def bytesToString_strncpy)

section \<open>The machine\<close>

definition spy_inv :: "'o spy \<Rightarrow> bool" where
  "spy_inv s \<longleftrightarrow>
     wf_info (spyInfo s) \<and> wf_queue Capacity (event_queue s) \<and>
     queued s = taken s @ contents Capacity (event_queue s) \<and>
     list_all wf_event (taken s) \<and> list_all wf_event (contents Capacity (event_queue s)) \<and>
     subseq (listen (map Inr (datagrams s))) (taken s)"

lemma spy_inv_init: "spy_init s \<Longrightarrow> spy_inv s"
  by (auto simp: spy_init_def spy_inv_def wf_info_initial emptyQueue_def wf_queue_def contents_def
      fill_def Capacity_def)

lemma Push_cases:
  assumes "wf_queue cap q" "Push cap x q = (ok, q')"
  shows "wf_queue cap q' \<and> contents cap q' = contents cap q @ (if ok then [x] else [])"
proof (cases "fill cap q < cap - 1")
  case True
  then show ?thesis using Push_room [OF assms(1), of x] assms(2) by auto
next
  case False
  then show ?thesis using Push_full [OF assms(1), of x] assms by simp
qed

lemma senderTurn_inv:
  assumes "spy_inv s" "length pad = 4"
  shows "spy_inv (senderTurn os pad s)"
proof (cases "Pop Capacity (event_queue s)")
  case None
  with assms(1) show ?thesis by (simp add: senderTurn_def)
next
  case (Some r)
  then obtain event q' where pop: "Pop Capacity (event_queue s) = Some (event, q')" by (cases r) auto
  obtain ok c' o' where snd: "Send os pad event (client s) (sockets s) = (ok, c', o')"
    by (cases "Send os pad event (client s) (sockets s)") auto
  have wf: "wf_queue Capacity (event_queue s)" using assms(1) by (simp add: spy_inv_def)
  from ring.recv_Some [OF wf pop]
  have q': "wf_queue Capacity q'" "contents Capacity (event_queue s) = event # contents Capacity q'" by simp_all
  then have "wf_event event" using assms(1) by (auto simp: spy_inv_def)
  then have "listenOnce (Inr (spyBytes pad event)) = Some event" using assms(2) by (rule listenOnce_spyBytes)
  then have "subseq (listen (map Inr (datagrams s @ (if ok then [spyBytes pad event] else [])))) (taken s @ [event])"
    using assms(1) by (auto simp: spy_inv_def listen_append intro: list_emb_append2 subseq_rev_drop_many)
  with assms(1) q' pop snd show ?thesis by (simp add: senderTurn_def spy_inv_def)
qed

lemma spy_inv_step: "spy_step os getenv libcudart s t \<Longrightarrow> spy_inv s \<Longrightarrow> spy_inv t"
proof (induction rule: spy_step.induct)
  case (hook junk event s duration count ok q')
  then have "wf_event event" by (simp add: wf_hookEvent)
  with hook Push_cases [of Capacity "event_queue s" event ok q'] show ?case by (auto simp: spy_inv_def)
next
  case (turn s pad)
  then show ?case by (simp add: senderTurn_inv)
qed (simp_all add: spy_inv_def wf_info_gpu wf_info_pod DeinitSpy_def)

interpretation spy: invariant_system spy_init "spy_step os getenv libcudart" spy_inv for os getenv libcudart
  by unfold_locales (auto intro: spy_inv_init spy_inv_step)

section \<open>The background thread\<close>

definition acceptingSockets :: "'o Sockets \<Rightarrow> bool" where
  "acceptingSockets os \<longleftrightarrow>
     (\<forall>s. 0 \<le> fst (sysSocket os s)) \<and> (\<forall>d p s. 0 \<le> fst (sysConnect os d p s)) \<and>
     (\<forall>d bs s. fst (sysSend os d bs s) = int (length bs))"

lemma Send_accepted:
  assumes "acceptingSockets os" "wf_event event" "length pad = 4"
  shows "\<exists>c' s'. Send os pad event c s = (True, c', s')"
proof -
  have "length (spyBytes pad event) = eventSize" by (rule length_spyBytes [OF assms(2,3)])
  moreover have "0 \<le> fst (sysSocket os o1)" "0 \<le> fst (sysConnect os d p o1)"
      "fst (sysSend os d bs o1) = int (length bs)" for d bs p o1
    using assms(1) by (simp_all add: acceptingSockets_def)
  ultimately show ?thesis
    by (simp add: Send_def Connect_def case_prod_unfold Let_def not_less [symmetric] del: not_less)
qed

fun senderTurns :: "'o Sockets \<Rightarrow> byte list list \<Rightarrow> 'o spy \<Rightarrow> 'o spy" where
  "senderTurns os [] s = s"
| "senderTurns os (pad # pads) s = senderTurns os pads (senderTurn os pad s)"

lemma senderTurns_steps:
  assumes "sender s = SenderLoop" "running s" "list_all (\<lambda>pad. length pad = 4) pads"
  shows "(spy_step os getenv libcudart)\<^sup>*\<^sup>* s (senderTurns os pads s)"
  using assms
proof (induction pads arbitrary: s)
  case (Cons pad pads)
  have "sender (senderTurn os pad s) = SenderLoop" "running (senderTurn os pad s)"
    using Cons.prems by (auto simp: senderTurn_def split: option.split prod.split)
  then have "(spy_step os getenv libcudart)\<^sup>*\<^sup>* (senderTurn os pad s) (senderTurns os pads (senderTurn os pad s))"
    using Cons by simp
  moreover have "spy_step os getenv libcudart s (senderTurn os pad s)"
    using Cons.prems by (intro spy_step.turn) simp_all
  ultimately show ?case by (simp add: converse_rtranclp_into_rtranclp)
qed simp

lemma senderTurns_drain:
  assumes "wf_queue Capacity (event_queue s)" "list_all wf_event (contents Capacity (event_queue s))"
    and "length (contents Capacity (event_queue s)) = length pads" "list_all (\<lambda>pad. length pad = 4) pads"
    and "acceptingSockets os"
  shows "contents Capacity (event_queue (senderTurns os pads s)) = [] \<and>
     listen (map Inr (datagrams (senderTurns os pads s))) =
       listen (map Inr (datagrams s)) @ contents Capacity (event_queue s)"
  using assms
proof (induction pads arbitrary: s)
  case (Cons pad pads)
  obtain event rest where c: "contents Capacity (event_queue s) = event # rest"
    using Cons.prems(3) by (cases "contents Capacity (event_queue s)") simp_all
  obtain q' where q': "Pop Capacity (event_queue s) = Some (event, q')" "wf_queue Capacity q'"
      "contents Capacity q' = rest"
    using ring.recv_next [OF Cons.prems(1) c] by blast
  have ev: "wf_event event" "length pad = 4" using Cons.prems(2,4) c by simp_all
  obtain c' o' where "Send os pad event (client s) (sockets s) = (True, c', o')"
    using Send_accepted [OF Cons.prems(5) ev] by blast
  with q'(1) have t: "senderTurn os pad s =
      s\<lparr>event_queue := q', client := c', sockets := o', taken := taken s @ [event],
        datagrams := datagrams s @ [spyBytes pad event]\<rparr>"
    by (simp add: senderTurn_def)
  have "contents Capacity (event_queue (senderTurns os pads (senderTurn os pad s))) = [] \<and>
     listen (map Inr (datagrams (senderTurns os pads (senderTurn os pad s)))) =
       listen (map Inr (datagrams (senderTurn os pad s))) @ contents Capacity (event_queue (senderTurn os pad s))"
    by (rule Cons.IH) (use Cons.prems q' c in \<open>simp_all add: t\<close>)
  then show ?case
    using q'(3) c listenOnce_spyBytes [OF ev] by (simp add: t listen_append)
qed (simp add: contents_def)

fun sendAll :: "'o Sockets \<Rightarrow> (byte list \<times> MetricEvent) list \<Rightarrow> UDSClient \<Rightarrow> 'o \<Rightarrow> bool list \<times> UDSClient \<times> 'o" where
  "sendAll os [] c s = ([], c, s)"
| "sendAll os ((pad, event) # xs) c s =
     (let (ok, c1, s1) = Send os pad event c s; (oks, c2, s2) = sendAll os xs c1 s1 in (ok # oks, c2, s2))"

section \<open>Sequences of calls\<close>

type_synonym hookCall = "AllReduceArgs \<times> int \<times> int \<times> MetricEvent"

fun plainCalls :: "'w ncclFn \<Rightarrow> hookCall list \<Rightarrow> 'w \<Rightarrow> int list \<times> 'w" where
  "plainCalls real [] w = ([], w)"
| "plainCalls real ((args, _) # calls) w =
     (let (r, w1) = real args w; (rs, w2) = plainCalls real calls w1 in (r # rs, w2))"

fun hookedCalls ::
  "'w ncclFn option \<Rightarrow> SpyInfo \<Rightarrow> hookCall list \<Rightarrow> 'w \<Rightarrow> 'w ncclFn option \<Rightarrow> MetricEvent LockFreeQueue \<Rightarrow>
   int list \<times> 'w \<times> MetricEvent LockFreeQueue" where
  "hookedCalls dl info [] w real q = ([], w, q)"
| "hookedCalls dl info ((args, start, stop, junk) # calls) w real q =
     (let (r, w1, real1, q1) = ncclAllReduce dl start stop junk info args w real q;
          (rs, w2, q2) = hookedCalls dl info calls w1 real1 q1
      in (r # rs, w2, q2))"

lemma hookedCalls_real:
  assumes "wf_queue Capacity q" "real = None \<or> real = Some f"
  shows "\<exists>q'. hookedCalls (Some f) info calls w real q =
      (fst (plainCalls f calls w), snd (plainCalls f calls w), q') \<and> wf_queue Capacity q' \<and>
    contents Capacity q' = contents Capacity q @ take (Capacity - 1 - length (contents Capacity q))
      (map (\<lambda>(args, start, stop, junk). hookEvent info junk (toMicroseconds (stop - start)) (argCount args)) calls)"
  using assms
proof (induction calls arbitrary: w real q)
  case (Cons call calls)
  obtain args start stop junk where call: "call = (args, start, stop, junk)" by (cases call)
  let ?ev = "hookEvent info junk (toMicroseconds (stop - start)) (argCount args)"
  obtain ok q1 where push: "Push Capacity ?ev q = (ok, q1)" by (cases "Push Capacity ?ev q")
  obtain r w1 where fw: "f args w = (r, w1)" by (cases "f args w")
  have run: "ncclAllReduce (Some f) start stop junk info args w real q = (r, w1, Some f, q1)"
    using Cons.prems(2) fw push by (auto simp: ncclAllReduce_def Let_def)
  have wf: "wf_queue Capacity q1" "contents Capacity q1 = contents Capacity q @ (if ok then [?ev] else [])"
    using Push_cases [OF Cons.prems(1) push] by simp_all
  have ok: "ok = (fill Capacity q < Capacity - 1)"
    using Push_room [OF Cons.prems(1), of ?ev] Push_full [OF Cons.prems(1), of ?ev] push
    by (cases "fill Capacity q < Capacity - 1") auto
  have "take (Capacity - 1 - fill Capacity q) (?ev # xs) =
      (if ok then [?ev] else []) @ take (Capacity - 1 - length (contents Capacity q1)) xs" for xs
    using ok wf(2) by (auto simp: take_Cons' simp del: length_contents) (simp_all add: length_contents)
  with Cons.IH [OF wf(1), of "Some f" w1] show ?case
    using run fw wf(2) by (auto simp: call Let_def split: prod.splits)
qed simp

section \<open>Properties\<close>

definition sampleJunk :: MetricEvent where
  "sampleJunk = blankEvent\<lparr>PodName := replicate 64 0x41, PodNamespace := replicate 64 0x41\<rparr>"

lemma wf_sampleJunk: "wf_event sampleJunk"
  by (simp add: sampleJunk_def blankEvent_def wf_event_def)

definition podEnv :: "string \<Rightarrow> string \<Rightarrow> environment" where
  "podEnv name ns =
     [''COMPUTE_SENTRY_POD_NAME'' \<mapsto> name, ''COMPUTE_SENTRY_POD_NAMESPACE'' \<mapsto> ns]"

text \<open>
  C20. From the environment of a pod to the key of the agent: an event that the hook fills in after
  the pod's name and namespace were detected, and that the agent has decoded from the datagram, is
  evaluated under the key \<open>namespace/name\<close> when both are at most 62 characters long, whatever was in
  the uninitialised memory. A longer one arrives as its first 63 characters, followed by the
  uninitialised last byte of the array unless that is zero.
\<close>

theorem event_names_pod:
  assumes "wf_info info" and "wf_event junk" and "length pad = 4"
    and "getenv ''COMPUTE_SENTRY_POD_NAME'' = Some name" and "CHR 0x00 \<notin> set name"
    and "getenv ''COMPUTE_SENTRY_POD_NAMESPACE'' = Some ns" and "CHR 0x00 \<notin> set ns"
  shows "\<exists>ev. listen [Inr (spyBytes pad (hookEvent (DetectPodInfo getenv info) junk d c))] = [ev] \<and>
     eventKey ev = carried ns (PodNamespace junk ! 63) @ ''/'' @ carried name (PodName junk ! 63) \<and>
     (length ns \<le> 62 \<and> length name \<le> 62 \<longrightarrow>
        eventKey ev = podKeyOf ns name \<and> evaluates ev = (name \<notin> {'''', ''unknown''}))"
proof -
  let ?ev = "hookEvent (DetectPodInfo getenv info) junk d c"
  have "listenOnce (Inr (spyBytes pad ?ev)) = Some ?ev"
    by (rule listenOnce_spyBytes [OF wf_hookEvent [OF assms(2)] assms(3)])
  moreover have "EvType ?ev = NCCL_ALL_REDUCE" by (simp add: hookEvent_def)
  ultimately show ?thesis
    using hookEvent_names [OF assms(1,2,4-7), of d c]
    by (simp add: eventKey_def podKeyOf_def evaluates_def carried_def)
qed

theorem event_names_pod_witness:
  "\<exists>ev ev'. listen [Inr (spyBytes [0, 0, 0, 0]
       (hookEvent (DetectPodInfo (podEnv ''trainer-0'' ''ml'') initialInfo) sampleJunk 5 1))] = [ev] \<and>
     eventKey ev = ''ml/trainer-0'' \<and>
     listen [Inr (spyBytes [0, 0, 0, 0]
       (hookEvent (DetectPodInfo (podEnv (replicate 70 CHR ''x'') ''ml'') initialInfo) sampleJunk 5 1))] = [ev'] \<and>
     eventKey ev' = ''ml/'' @ replicate 63 CHR ''x'' @ ''A''"
proof -
  have "char_of (65::nat) = CHR ''A''" by code_simp
  then have long: "carried (replicate 70 CHR ''x'') (PodName sampleJunk ! 63) = replicate 63 CHR ''x'' @ ''A''"
    by (simp add: carried_def sampleJunk_def)
  have "\<exists>ev. listen [Inr (spyBytes [0, 0, 0, 0]
       (hookEvent (DetectPodInfo (podEnv ''trainer-0'' ''ml'') initialInfo) sampleJunk 5 1))] = [ev] \<and>
     eventKey ev = ''ml/trainer-0''"
    using event_names_pod [OF wf_info_initial wf_sampleJunk, of "[0, 0, 0, 0]" "podEnv ''trainer-0'' ''ml''"
        "''trainer-0''" "''ml''" 5 1]
    by (auto simp: podEnv_def podKeyOf_def)
  moreover have "\<exists>ev. listen [Inr (spyBytes [0, 0, 0, 0]
       (hookEvent (DetectPodInfo (podEnv (replicate 70 CHR ''x'') ''ml'') initialInfo) sampleJunk 5 1))] = [ev] \<and>
     eventKey ev = ''ml/'' @ replicate 63 CHR ''x'' @ ''A''"
    using event_names_pod [OF wf_info_initial wf_sampleJunk, of "[0, 0, 0, 0]"
        "podEnv (replicate 70 CHR ''x'') ''ml''" "replicate 70 CHR ''x''" "''ml''" 5 1]
    unfolding long by (auto simp: podEnv_def carried_def)
  ultimately show ?thesis by blast
qed

text \<open>
  Nothing is invented, reordered or duplicated between the hook and the agent: in every reachable
  state of the spy library, whatever the kernel answers, the events popped by the background thread
  and those still queued are exactly the events of the successful pushes, in order; what the agent
  decodes from the datagrams that the kernel accepted is a subsequence of the popped events; and
  every event has arrays of the right length.
\<close>

theorem spy_events_arrive:
  assumes "spy_init s0" and "(spy_step os getenv libcudart)\<^sup>*\<^sup>* s0 s"
  shows "taken s @ contents Capacity (event_queue s) = queued s \<and>
     subseq (listen (map Inr (datagrams s))) (taken s) \<and>
     length (contents Capacity (event_queue s)) \<le> 4095 \<and> list_all wf_event (queued s)"
proof -
  have inv: "spy_inv s" using spy.inv_reachable [OF assms] .
  then have "fill Capacity (event_queue s) \<le> 4095"
    using fill_lt [of Capacity "event_queue s"] by (simp add: spy_inv_def Capacity_def)
  with inv show ?thesis by (auto simp: spy_inv_def)
qed

definition deadSockets :: "unit Sockets" where
  "deadSockets = \<lparr>sysSocket = (\<lambda>s. (3, s)), sysConnect = (\<lambda>_ _ s. (- 1, s)), sysClose = (\<lambda>_ s. s),
     sysSend = (\<lambda>_ _ s. (- 1, s))\<rparr>"

definition liveSockets :: "unit Sockets" where
  "liveSockets = deadSockets\<lparr>sysConnect := (\<lambda>_ _ s. (0, s)), sysSend := (\<lambda>_ bs s. (int (length bs), s))\<rparr>"

definition idleSpy :: "unit spy" where
  "idleSpy = \<lparr>spyInfo = initialInfo, event_queue = emptyQueue (replicate Capacity blankEvent), running = True,
     sender = SenderStart, client = newClient defaultUdsPath, sockets = (), queued = [], taken = [],
     datagrams = []\<rparr>"

definition oneQueued :: "unit spy" where
  "oneQueued = idleSpy\<lparr>event_queue := snd (Push Capacity (hookEvent initialInfo blankEvent 5 1) (event_queue idleSpy)),
     queued := [hookEvent initialInfo blankEvent 5 1]\<rparr>"

lemma idleSpy_init: "spy_init idleSpy"
  by (auto simp: spy_init_def idleSpy_def intro!: exI [of _ "replicate Capacity blankEvent"])

lemma oneQueued_step: "spy_step os getenv libcudart idleSpy oneQueued"
  using spy_step.hook [OF wf_blankEvent refl, where s = idleSpy and duration = 5 and count = 1 and ok = True and
      q' = "snd (Push Capacity (hookEvent initialInfo blankEvent 5 1) (event_queue idleSpy))"]
  by (simp add: oneQueued_def idleSpy_def emptyQueue_def Push_def Capacity_def)

theorem spy_events_arrive_witness:
  "taken oneQueued @ contents Capacity (event_queue oneQueued) = [hookEvent initialInfo blankEvent 5 1]"
proof -
  have "(spy_step deadSockets (\<lambda>_. None) None)\<^sup>*\<^sup>* idleSpy oneQueued"
    using oneQueued_step by (rule r_into_rtranclp)
  from spy_events_arrive [OF idleSpy_init this] show ?thesis by (simp add: oneQueued_def)
qed

text \<open>
  C25. The background thread delivers what is queued: on a system where connecting works and every
  datagram is accepted, as many turns as events are queued empty the queue, these turns are steps of
  the library while it runs, and the agent decodes exactly the queued events, in order, after what it
  got before.
\<close>

theorem sender_drains_queue:
  assumes "spy_init s0" and "(spy_step os getenv libcudart)\<^sup>*\<^sup>* s0 s"
    and "sender s = SenderLoop" and "running s" and "acceptingSockets os"
    and "pads = replicate (length (contents Capacity (event_queue s))) [p1, p2, p3, p4]"
  shows "(spy_step os getenv libcudart)\<^sup>*\<^sup>* s (senderTurns os pads s) \<and>
     contents Capacity (event_queue (senderTurns os pads s)) = [] \<and>
     listen (map Inr (datagrams (senderTurns os pads s))) =
       listen (map Inr (datagrams s)) @ contents Capacity (event_queue s)"
proof -
  have inv: "spy_inv s" using spy.inv_reachable [OF assms(1,2)] .
  have pads: "list_all (\<lambda>pad. length pad = 4) pads" by (auto simp: assms(6) list_all_iff)
  have "contents Capacity (event_queue (senderTurns os pads s)) = [] \<and>
     listen (map Inr (datagrams (senderTurns os pads s))) =
       listen (map Inr (datagrams s)) @ contents Capacity (event_queue s)"
    by (rule senderTurns_drain) (use inv assms(5,6) pads in \<open>auto simp: spy_inv_def\<close>)
  with senderTurns_steps [OF assms(3,4) pads] show ?thesis by blast
qed

definition readySpy :: "unit spy" where
  "readySpy = oneQueued\<lparr>spyInfo := DetectPodInfo (\<lambda>_. None) (DetectGPUModel (\<lambda>_. None) None initialInfo),
     sender := SenderLoop\<rparr>"

lemma readySpy_reached: "(spy_step os (\<lambda>_. None) None)\<^sup>*\<^sup>* idleSpy readySpy"
proof -
  let ?g = "oneQueued\<lparr>spyInfo := DetectGPUModel (\<lambda>_. None) None initialInfo, sender := SenderGpuKnown\<rparr>"
  have "spy_step os (\<lambda>_. None) None oneQueued ?g"
    using spy_step.detect_gpu [of oneQueued os "\<lambda>_. None" None] by (simp add: oneQueued_def idleSpy_def)
  moreover have "spy_step os (\<lambda>_. None) None ?g readySpy"
    using spy_step.detect_pod [of ?g os "\<lambda>_. None" None] by (simp add: readySpy_def oneQueued_def idleSpy_def)
  ultimately show ?thesis
    using oneQueued_step [of os "\<lambda>_. None" None] by (meson converse_rtranclp_into_rtranclp rtranclp.rtrancl_refl)
qed

theorem sender_drains_queue_witness:
  "let s = senderTurns liveSockets [[0, 0, 0, 0]] readySpy in
   contents Capacity (event_queue s) = [] \<and>
   listen (map Inr (datagrams s)) = [hookEvent initialInfo blankEvent 5 1]"
proof -
  have live: "acceptingSockets liveSockets" by (simp add: acceptingSockets_def liveSockets_def deadSockets_def)
  have c: "contents Capacity (event_queue readySpy) = [hookEvent initialInfo blankEvent 5 1]"
    by (simp add: readySpy_def oneQueued_def idleSpy_def emptyQueue_def Push_def contents_def fill_def Capacity_def)
  have "sender readySpy = SenderLoop" "running readySpy" "datagrams readySpy = []"
    by (simp_all add: readySpy_def oneQueued_def idleSpy_def)
  with sender_drains_queue [OF idleSpy_init readySpy_reached _ _ live, of _ 0 0 0 0] c show ?thesis
    by (simp add: Let_def)
qed

text \<open>
  C34. The client never reconnects: once it has a descriptor, a failed send does not close it. After the
  agent was restarted, which replaces the socket, every send on the old descriptor fails; all later
  events are then lost, although a client without a descriptor would connect and send successfully.
\<close>

theorem client_never_reconnects:
  assumes "fd c \<noteq> - 1" and "\<And>bs s. fst (sysSend os (fd c) bs s) < 0"
    and "\<And>s. 0 \<le> fst (sysSocket os s) \<and> fst (sysSocket os s) \<noteq> fd c"
    and "\<And>d p s. d \<noteq> fd c \<Longrightarrow> 0 \<le> fst (sysConnect os d p s)"
    and "\<And>d bs s. d \<noteq> fd c \<Longrightarrow> fst (sysSend os d bs s) = int (length bs)"
    and "wf_event event" and "length pad = 4"
  shows "\<exists>s'. sendAll os xs c s = (replicate (length xs) False, c, s') \<and>
     fst (Send os pad event (c\<lparr>fd := - 1\<rparr>) s')"
proof -
  have failed: "Send os pad' ev c s1 = (False, c, snd (sysSend os (fd c) (spyBytes pad' ev) s1))" for pad' ev s1
  proof -
    have "fst (sysSend os (fd c) (spyBytes pad' ev) s1) \<noteq> int eventSize"
      using assms(2) [of "spyBytes pad' ev" s1] by simp
    with assms(1) show ?thesis by (simp add: Send_def case_prod_unfold Let_def)
  qed
  have "\<exists>s'. sendAll os xs c s = (replicate (length xs) False, c, s')" for s
  proof (induction xs arbitrary: s)
    case (Cons x xs)
    obtain pad' ev where x: "x = (pad', ev)" by (cases x)
    obtain s' where "sendAll os xs c (snd (sysSend os (fd c) (spyBytes pad' ev) s)) = (replicate (length xs) False, c, s')"
      using Cons.IH by blast
    then show ?case by (simp add: x failed)
  qed simp
  moreover have "fst (Send os pad event (c\<lparr>fd := - 1\<rparr>) s1)" for s1
    using assms(3-5) length_spyBytes [OF assms(6,7)]
    by (simp add: Send_def Connect_def case_prod_unfold Let_def not_less [symmetric] del: not_less)
  ultimately show ?thesis by meson
qed

definition restartedSockets :: "unit Sockets" where
  "restartedSockets = liveSockets\<lparr>sysSocket := (\<lambda>s. (4, s)),
     sysSend := (\<lambda>d bs s. if d = 3 then (- 1, s) else (int (length bs), s))\<rparr>"

theorem client_never_reconnects_witness:
  "fst (sendAll restartedSockets [([0, 0, 0, 0], blankEvent), ([0, 0, 0, 0], blankEvent)]
      \<lparr>udsPathOf = defaultUdsPath, fd = 3\<rparr> ()) = [False, False]"
  using client_never_reconnects [of "\<lparr>udsPathOf = defaultUdsPath, fd = 3\<rparr>" restartedSockets blankEvent
      "[0, 0, 0, 0]" "[([0, 0, 0, 0], blankEvent), ([0, 0, 0, 0], blankEvent)]" "()"] wf_blankEvent
  by (auto simp: restartedSockets_def liveSockets_def deadSockets_def numeral_2_eq_2)

text \<open>
  C28. The hook is transparent to the workload: for every sequence of calls, the results and the effects
  of the wrapped \<open>ncclAllReduce\<close> are those of the original function, called with the same arguments in
  the same order, and the queue gets one event per call, in order, until it holds 4095; without an
  original function every call returns -1, has no effect and queues nothing.
\<close>

theorem hook_is_transparent:
  assumes "wf_queue Capacity q"
  shows "(\<exists>q'. hookedCalls (Some f) info calls w None q =
      (fst (plainCalls f calls w), snd (plainCalls f calls w), q') \<and>
    contents Capacity q' = contents Capacity q @ take (4095 - length (contents Capacity q))
      (map (\<lambda>(args, start, stop, junk). hookEvent info junk (toMicroseconds (stop - start)) (argCount args)) calls)) \<and>
   hookedCalls None info calls w None q = (replicate (length calls) (- 1), w, q)"
proof -
  have "hookedCalls None info calls w None q = (replicate (length calls) (- 1), w, q)"
    by (induction calls) (auto simp: ncclAllReduce_def Let_def)
  moreover have "Capacity - 1 = 4095" by (simp add: Capacity_def)
  ultimately show ?thesis using hookedCalls_real [OF assms, of None f info calls w] by auto
qed

theorem hook_is_transparent_witness:
  "\<exists>q'. hookedCalls (Some (\<lambda>args w. (0, w + 1))) initialInfo
      [(\<lparr>sendbuff = 0, recvbuff = 0, argCount = 1, datatypeArg = 0, opArg = 0, comm = 0, stream = 0\<rparr>,
        0, 5000, blankEvent)] (7::nat) None (emptyQueue (replicate Capacity blankEvent)) = ([0], 8, q') \<and>
     contents Capacity q' = [hookEvent initialInfo blankEvent (toMicroseconds 5000) 1]"
proof -
  let ?q = "emptyQueue (replicate Capacity blankEvent)"
  let ?calls = "[(\<lparr>sendbuff = 0, recvbuff = 0, argCount = 1, datatypeArg = 0, opArg = 0, comm = 0, stream = 0\<rparr>,
        0::int, 5000::int, blankEvent)]"
  have wf: "wf_queue Capacity ?q" by (simp add: wf_queue_def emptyQueue_def Capacity_def)
  have "contents Capacity ?q = []" by (simp add: contents_def fill_def emptyQueue_def Capacity_def)
  with hook_is_transparent [OF wf, of "\<lambda>args w. (0, w + 1)" initialInfo ?calls "7::nat"] show ?thesis
    by (simp del: hookedCalls.simps length_contents)
qed

end
