(* ===== verification/Policy_Match.thy ===== *)
theory Policy_Match
  imports Api_Types Kube_Types
begin

text \<open>
  The contract that the webhook and the health controller share: both look up the policy of a pod by
  walking the listed policies and taking the first one whose selector compiles and matches the pod's
  labels. Each of them has its own loop in the source and its own definition here
  (\<open>Pod_Mutator\<close>, \<open>Health_Controller\<close>); both are interpretations of \<open>policy_selector\<close>.

  Compiling and matching a label selector is library code (\<open>metav1.LabelSelectorAsSelector\<close>,
  \<open>labels.Selector.Matches\<close>) and therefore a parameter of the lookup.
\<close>

type_synonym labelSet = "(string, string) gomap"
type_synonym selector = "labelSet \<Rightarrow> bool"
type_synonym asSelector = "LabelSelector \<Rightarrow> goError + selector"

definition selects :: "asSelector \<Rightarrow> labelSet \<Rightarrow> ComputeSentryPolicy \<Rightarrow> bool" where
  "selects asSel ls policy =
     (case asSel (Selector (Spec policy)) of Inl _ \<Rightarrow> False | Inr sel \<Rightarrow> sel ls)"

locale policy_selector =
  fixes lookup :: "asSelector \<Rightarrow> labelSet \<Rightarrow> ComputeSentryPolicy list \<Rightarrow> ComputeSentryPolicy option"
  assumes lookup_Nil: "lookup asSel ls [] = None"
    and lookup_hit: "selects asSel ls p \<Longrightarrow> lookup asSel ls (p # ps) = Some p"
    and lookup_miss: "\<not> selects asSel ls p \<Longrightarrow> lookup asSel ls (p # ps) = lookup asSel ls ps"
begin

lemma lookup_find: "lookup asSel ls ps = List.find (selects asSel ls) ps"
proof (induction ps)
  case (Cons p ps)
  then show ?case by (cases "selects asSel ls p") (simp_all add: lookup_hit lookup_miss)
qed (simp add: lookup_Nil)

lemma lookup_None_iff: "lookup asSel ls ps = None \<longleftrightarrow> (\<forall>p\<in>set ps. \<not> selects asSel ls p)"
  by (auto simp: lookup_find find_None_iff)

lemma lookup_Some_iff:
  "lookup asSel ls ps = Some p \<longleftrightarrow>
     (\<exists>us vs. ps = us @ p # vs \<and> selects asSel ls p \<and> (\<forall>u\<in>set us. \<not> selects asSel ls u))"
proof (induction ps)
  case (Cons q ps)
  show ?case
  proof (cases "selects asSel ls q")
    case True
    then show ?thesis by (auto simp: lookup_hit Cons_eq_append_conv)
  next
    case False
    then show ?thesis
      using Cons by (auto simp: lookup_miss Cons_eq_append_conv)
        (metis append_Cons set_ConsD)
  qed
qed (simp add: lookup_Nil)

lemma lookup_selects: "lookup asSel ls ps = Some p \<Longrightarrow> p \<in> set ps \<and> selects asSel ls p"
  by (auto simp: lookup_Some_iff)

end

end
