(* ===== verification/Pod_Mutator.thy ===== *)
theory Pod_Mutator
  imports Policy_Match
begin

text \<open>
  \<open>operator/internal/webhook/v1/pod_mutator.go\<close>: the mutating admission webhook that injects the spy
  library, the pre-check init container and the governance configuration into pods.

  The admission request is its raw object. The decoder, the API client, the compilation of label
  selectors and the serialisation of a whole pod are library code: they are the record
  \<open>MutatorEnv\<close>. \<open>admission.PatchResponseFromRaw\<close> computes a JSON patch from the original to the
  mutated object; the response here keeps the two objects. Marshalling a \<open>GovernanceConfig\<close> cannot
  fail, so the error branch of that call does not occur.
\<close>

section \<open>Requests, responses and the environment\<close>

datatype Response =
    Errored int goError
  | Allowed string
  | PatchResponseFromRaw string string

record MutatorEnv =
  Decode :: "string \<Rightarrow> goError + Pod"
  ListPolicies :: "goError + ComputeSentryPolicy list"
  LabelSelectorAsSelector :: asSelector
  MarshalPod :: "Pod \<Rightarrow> goError + string"

definition StatusBadRequest :: int where
  "StatusBadRequest = 400"

definition StatusInternalServerError :: int where
  "StatusInternalServerError = 500"

section \<open>Finding the policy and deciding whether to inject\<close>

fun matchPolicy :: "asSelector \<Rightarrow> labelSet \<Rightarrow> ComputeSentryPolicy list \<Rightarrow> ComputeSentryPolicy option" where
  "matchPolicy asSel ls [] = None"
| "matchPolicy asSel ls (policy # rest) =
     (case asSel (Selector (Spec policy)) of
        Inl err \<Rightarrow> matchPolicy asSel ls rest
      | Inr sel \<Rightarrow> if sel ls then Some policy else matchPolicy asSel ls rest)"

interpretation webhook: policy_selector matchPolicy
  by unfold_locales (auto simp: selects_def split: sum.splits)

definition injectAnnotation :: string where
  "injectAnnotation = ''compute-sentry.aiguard.io/inject''"

definition shouldInject :: "Pod \<Rightarrow> ComputeSentryPolicy option \<Rightarrow> bool" where
  "shouldInject pod matchedPolicy =
     (case annotation pod injectAnnotation of
        Some injectValue \<Rightarrow> injectValue = ''true''
      | None \<Rightarrow> (case matchedPolicy of
            Some policy \<Rightarrow> Enabled (SpyConfigF (Spec policy))
          | None \<Rightarrow> False))"

section \<open>What is injected\<close>

definition governanceOf :: "ComputeSentryPolicy \<Rightarrow> GovernanceConfig" where
  "governanceOf policy =
     \<lparr>gcThresholds = ThresholdsF (Spec policy), gcEvalConfig = EvalConfigF (Spec policy)\<rparr>"

definition envVar :: "string \<Rightarrow> string \<Rightarrow> EnvVar" where
  "envVar n v = \<lparr>EnvName = n, EnvValue = v, EnvValueFrom = None\<rparr>"

definition fieldEnv :: "string \<Rightarrow> string \<Rightarrow> EnvVar" where
  "fieldEnv n path = \<lparr>EnvName = n, EnvValue = '''', EnvValueFrom = Some (FieldRef path)\<rparr>"

definition precheckEnvs :: "GovernanceConfig option \<Rightarrow> EnvVar list" where
  "precheckEnvs govConfig =
     (case govConfig of
        None \<Rightarrow> []
      | Some c \<Rightarrow>
          (if MinP2PBandwidthGbps (gcThresholds c) \<noteq> 0
           then [envVar ''PRECHECK_MIN_P2P_GBPS'' (formatInt (sint (MinP2PBandwidthGbps (gcThresholds c))))]
           else []) @
          (if MinHbmBandwidthGbps (gcThresholds c) \<noteq> 0
           then [envVar ''PRECHECK_MIN_HBM_GBPS'' (formatInt (sint (MinHbmBandwidthGbps (gcThresholds c))))]
           else []))"

definition spyLibrary :: string where
  "spyLibrary = ''/opt/compute-sentry/lib/libcompute-sentry-spy.so''"

fun preload :: "EnvVar list \<Rightarrow> EnvVar list \<times> bool" where
  "preload [] = ([], False)"
| "preload (v # vs) =
     (if EnvName v = ''LD_PRELOAD''
      then (v\<lparr>EnvValue := spyLibrary @ '':'' @ EnvValue v\<rparr> # vs, True)
      else (let (ws, injected) = preload vs in (v # ws, injected)))"

definition injectContainer :: "Container \<Rightarrow> Container" where
  "injectContainer container =
     (let (env, injected) = preload (CEnv container);
          env1 = (if injected then env else env @ [envVar ''LD_PRELOAD'' spyLibrary])
      in container\<lparr>
           CEnv := env1 @
             [envVar ''COMPUTE_SENTRY_UDS_PATH'' ''/var/run/compute-sentry/spy.sock'',
              fieldEnv ''COMPUTE_SENTRY_POD_NAME'' ''metadata.name'',
              fieldEnv ''COMPUTE_SENTRY_POD_NAMESPACE'' ''metadata.namespace''],
           VolumeMounts := VolumeMounts container @
             [\<lparr>VmName = ''compute-sentry-uds'', MountPath = ''/var/run/compute-sentry'', ReadOnly = False\<rparr>,
              \<lparr>VmName = ''compute-sentry-lib'', MountPath = ''/opt/compute-sentry/lib'', ReadOnly = True\<rparr>]\<rparr>)"

definition sentryVolumes :: "Volume list" where
  "sentryVolumes =
     [\<lparr>VolName = ''compute-sentry-uds'', VolSource = HostPath ''/var/run/compute-sentry''\<rparr>,
      \<lparr>VolName = ''compute-sentry-lib'', VolSource = HostPath ''/opt/compute-sentry/lib''\<rparr>]"

definition precheckContainer :: "EnvVar list \<Rightarrow> Container" where
  "precheckContainer envs =
     \<lparr>CName = ''compute-sentry-precheck'',
      Image = ''m.daocloud.io/docker.io/nvidia/cuda:12.0.0-base-ubuntu22.04'',
      Command = [''sh'', ''-c'', ''/opt/compute-sentry/bin/precheck.sh''],
      CEnv = envs,
      Limits = [(''nvidia.com/gpu'', ''1'')],
      VolumeMounts =
        [\<lparr>VmName = ''compute-sentry-bin'', MountPath = ''/opt/compute-sentry/bin'', ReadOnly = True\<rparr>]\<rparr>"

definition binVolume :: Volume where
  "binVolume = \<lparr>VolName = ''compute-sentry-bin'', VolSource = HostPath ''/opt/compute-sentry/bin''\<rparr>"

definition injectedAnnotation :: string where
  "injectedAnnotation = ''compute-sentry.aiguard.io/injected''"

definition governanceAnnotation :: string where
  "governanceAnnotation = ''compute-sentry.aiguard.io/governance-config''"

definition mutatePod :: "ComputeSentryPolicy option \<Rightarrow> Pod \<Rightarrow> Pod" where
  "mutatePod matchedPolicy pod =
     (let govConfig = map_option governanceOf matchedPolicy;
          pod1 = pod\<lparr>Containers := map injectContainer (Containers pod)\<rparr>;
          pod2 = pod1\<lparr>Volumes := Volumes pod1 @ sentryVolumes\<rparr>;
          pod3 = pod2\<lparr>InitContainers := InitContainers pod2 @ [precheckContainer (precheckEnvs govConfig)]\<rparr>;
          pod4 = pod3\<lparr>Volumes := Volumes pod3 @ [binVolume]\<rparr>;
          pod5 = setAnnotation injectedAnnotation ''true'' pod4
      in case govConfig of
           None \<Rightarrow> pod5
         | Some c \<Rightarrow> setAnnotation governanceAnnotation (marshalGovernance c) pod5)"

section \<open>The handler\<close>

definition Handle :: "MutatorEnv \<Rightarrow> string \<Rightarrow> Response" where
  "Handle m raw =
     (case Decode m raw of
        Inl err \<Rightarrow> Errored StatusBadRequest err
      | Inr pod \<Rightarrow>
          (case ListPolicies m of
             Inl err \<Rightarrow> Errored StatusInternalServerError err
           | Inr policies \<Rightarrow>
               (let matchedPolicy = matchPolicy (LabelSelectorAsSelector m) (Labels pod) policies in
                if \<not> shouldInject pod matchedPolicy
                then Allowed ''injection not enabled for this pod''
                else case MarshalPod m (mutatePod matchedPolicy pod) of
                    Inl err \<Rightarrow> Errored StatusInternalServerError err
                  | Inr marshaledPod \<Rightarrow> PatchResponseFromRaw raw marshaledPod)))"

definition InjectDecoder :: "(string \<Rightarrow> goError + Pod) \<Rightarrow> MutatorEnv \<Rightarrow> goError option \<times> MutatorEnv" where
  "InjectDecoder d m = (None, m\<lparr>Decode := d\<rparr>)"

end
