(* ===== verification/Pod_Mutator_Props.thy ===== *)
theory Pod_Mutator_Props
  imports Pod_Mutator
begin

text \<open>
  Correctness of the pod webhook: when it patches and with which errors it refuses, that injection
  keeps the workload's containers, environment and mounts, what it does to the annotations, and that
  a second run on the same pod injects everything again.
\<close>

section \<open>Facts on the mutation\<close>

lemma mutatePod_simps [simp]:
  "Name (mutatePod mp pod) = Name pod"
  "Namespace (mutatePod mp pod) = Namespace pod"
  "Labels (mutatePod mp pod) = Labels pod"
  "NodeName (mutatePod mp pod) = NodeName pod"
  "Containers (mutatePod mp pod) = map injectContainer (Containers pod)"
  "InitContainers (mutatePod mp pod) =
     InitContainers pod @ [precheckContainer (precheckEnvs (map_option governanceOf mp))]"
  "Volumes (mutatePod mp pod) = Volumes pod @ sentryVolumes @ [binVolume]"
  by (simp_all add: mutatePod_def Let_def split: option.split)

lemma annotation_mutatePod:
  "annotation (mutatePod mp pod) k =
     (if k = governanceAnnotation \<and> mp \<noteq> None
      then Some (marshalGovernance (governanceOf (the mp)))
      else if k = injectedAnnotation then Some ''true'' else annotation pod k)"
  by (cases mp) (simp_all add: mutatePod_def Let_def annotation_setAnnotation)

lemma annotation_names_distinct:
  "injectAnnotation \<noteq> injectedAnnotation" "injectAnnotation \<noteq> governanceAnnotation"
  "injectedAnnotation \<noteq> governanceAnnotation"
  by (simp_all add: injectAnnotation_def injectedAnnotation_def governanceAnnotation_def)

lemma shouldInject_mutatePod: "shouldInject (mutatePod mp pod) mp' = shouldInject pod mp'"
  by (simp add: shouldInject_def annotation_mutatePod annotation_names_distinct)

lemma injectContainer_simps [simp]:
  "CName (injectContainer c) = CName c"
  "Image (injectContainer c) = Image c"
  "Command (injectContainer c) = Command c"
  "Limits (injectContainer c) = Limits c"
  by (simp_all add: injectContainer_def split: prod.split)

definition preloadValue :: "EnvVar list \<Rightarrow> string option" where
  "preloadValue env = map_option EnvValue (List.find (\<lambda>v. EnvName v = ''LD_PRELOAD'') env)"

lemma preload_snd: "snd (preload env) \<longleftrightarrow> preloadValue env \<noteq> None"
  by (induction env) (auto simp: preloadValue_def split: prod.split)

lemma preload_others:
  "filter (\<lambda>v. EnvName v \<noteq> ''LD_PRELOAD'') (fst (preload env)) =
     filter (\<lambda>v. EnvName v \<noteq> ''LD_PRELOAD'') env"
  by (induction env) (auto split: prod.split)

lemma preload_value:
  "preloadValue (fst (preload env)) = map_option (\<lambda>old. spyLibrary @ '':'' @ old) (preloadValue env)"
  by (induction env) (auto simp: preloadValue_def split: prod.split)

lemma find_append: "List.find P (xs @ ys) = (case List.find P xs of None \<Rightarrow> List.find P ys | Some x \<Rightarrow> Some x)"
  by (induction xs) auto

lemma preloadValue_append:
  "preloadValue (xs @ ys) = (case preloadValue xs of None \<Rightarrow> preloadValue ys | Some v \<Rightarrow> Some v)"
  by (simp add: preloadValue_def find_append split: option.split)

definition sentryEnvNames :: "string list" where
  "sentryEnvNames =
     [''LD_PRELOAD'', ''COMPUTE_SENTRY_UDS_PATH'', ''COMPUTE_SENTRY_POD_NAME'', ''COMPUTE_SENTRY_POD_NAMESPACE'']"

lemma filter_preload_sentry:
  "filter (\<lambda>v. EnvName v \<notin> set sentryEnvNames) (fst (preload env)) =
     filter (\<lambda>v. EnvName v \<notin> set sentryEnvNames) env"
  by (induction env) (auto simp: sentryEnvNames_def split: prod.split)

lemma injectContainer_env:
  "filter (\<lambda>v. EnvName v \<notin> set sentryEnvNames) (CEnv (injectContainer c)) =
     filter (\<lambda>v. EnvName v \<notin> set sentryEnvNames) (CEnv c)"
proof -
  have "filter (\<lambda>v. EnvName v \<notin> set sentryEnvNames) (CEnv (injectContainer c)) =
      filter (\<lambda>v. EnvName v \<notin> set sentryEnvNames) (fst (preload (CEnv c)))"
    by (auto simp: injectContainer_def sentryEnvNames_def envVar_def fieldEnv_def split: prod.split)
  then show ?thesis by (simp only: filter_preload_sentry)
qed

lemma injectContainer_preload:
  "preloadValue (CEnv (injectContainer c)) =
     Some (case preloadValue (CEnv c) of None \<Rightarrow> spyLibrary | Some old \<Rightarrow> spyLibrary @ '':'' @ old)"
proof -
  obtain env injected where p: "preload (CEnv c) = (env, injected)" by fastforce
  have "injected \<longleftrightarrow> preloadValue (CEnv c) \<noteq> None" using preload_snd [of "CEnv c"] p by simp
  moreover have "preloadValue env = map_option (\<lambda>old. spyLibrary @ '':'' @ old) (preloadValue (CEnv c))"
    using preload_value [of "CEnv c"] p by simp
  ultimately show ?thesis
    by (auto simp: injectContainer_def p preloadValue_append split: option.split)
      (simp_all add: preloadValue_def envVar_def)
qed

lemma injectContainer_mounts:
  "map VmName (VolumeMounts (injectContainer c)) =
     map VmName (VolumeMounts c) @ [''compute-sentry-uds'', ''compute-sentry-lib'']"
  by (simp add: injectContainer_def split: prod.split)

lemma mutatePod_volumeNames:
  "map VolName (Volumes (mutatePod mp pod)) =
     map VolName (Volumes pod) @ [''compute-sentry-uds'', ''compute-sentry-lib'', ''compute-sentry-bin'']"
  by (simp add: sentryVolumes_def binVolume_def)

section \<open>Mounts and volumes\<close>

definition mountsResolved :: "Pod \<Rightarrow> bool" where
  "mountsResolved pod \<longleftrightarrow>
     (\<forall>c\<in>set (Containers pod @ InitContainers pod).
        set (map VmName (VolumeMounts c)) \<subseteq> set (map VolName (Volumes pod)))"

section \<open>Pre-check limits\<close>

definition precheckLimit :: "EnvVar list \<Rightarrow> string \<Rightarrow> int64" where
  "precheckLimit envs n =
     (case List.find (\<lambda>v. EnvName v = n) envs of
        None \<Rightarrow> 0
      | Some v \<Rightarrow> (case ParseInt (EnvValue v) of None \<Rightarrow> 0 | Some w \<Rightarrow> w))"

section \<open>Sample objects\<close>

definition sampleContainer :: Container where
  "sampleContainer =
     \<lparr>CName = ''train'', Image = ''pytorch'', Command = [''python''],
      CEnv = [envVar ''RANK'' ''0'', envVar ''LD_PRELOAD'' ''/lib/a.so''], Limits = [],
      VolumeMounts = [\<lparr>VmName = ''data'', MountPath = ''/data'', ReadOnly = False\<rparr>]\<rparr>"

definition samplePod :: Pod where
  "samplePod =
     \<lparr>Name = ''p'', Namespace = ''ns'', Labels = [(''app'', ''train'')], Annotations = None,
      NodeName = ''n1'', Containers = [sampleContainer], InitContainers = [],
      Volumes = [\<lparr>VolName = ''data'', VolSource = OtherVolume ''emptyDir''\<rparr>]\<rparr>"

definition samplePolicy :: ComputeSentryPolicy where
  "samplePolicy =
     \<lparr>PolicyName = ''pol'', PolicyNamespace = ''ns'',
      Spec = \<lparr>Selector = \<lparr>MatchLabels = [(''app'', ''train'')], MatchExpressions = []\<rparr>,
        SpyConfigF = \<lparr>Enabled = True\<rparr>,
        ThresholdsF = \<lparr>MaxNCCLLatencyUs = 1000, MaxJitterUs = 0, MinP2PBandwidthGbps = 20,
                       MinHbmBandwidthGbps = 0\<rparr>,
        EvalConfigF = \<lparr>WindowSize = 60, ErrorCountLimit = 5\<rparr>,
        ActionsF = \<lparr>EnableTaint = True, EnableEvict = True, NodeTaintThresholdF = None\<rparr>\<rparr>\<rparr>"

text \<open>A selector without expressions: every required label is present with its value.\<close>

definition matchLabelsSelector :: asSelector where
  "matchLabelsSelector s =
     (if MatchExpressions s = [] then Inr (\<lambda>ls. list_all (\<lambda>(k, v). map_of ls k = Some v) (MatchLabels s))
      else Inl (Errorf ''unsupported''))"

definition sampleEnv :: MutatorEnv where
  "sampleEnv =
     \<lparr>Decode = (\<lambda>raw. if raw = ''p'' then Inr samplePod
                      else if raw = ''q'' then Inr (mutatePod (Some samplePolicy) samplePod)
                      else Inl (Errorf ''bad object'')),
      ListPolicies = Inr [samplePolicy],
      LabelSelectorAsSelector = matchLabelsSelector,
      MarshalPod = (\<lambda>pod. Inr (if pod = mutatePod (Some samplePolicy) samplePod then ''q'' else ''r''))\<rparr>"

lemma sampleEnv_eval:
  "Decode sampleEnv ''p'' = Inr samplePod"
  "Decode sampleEnv ''q'' = Inr (mutatePod (Some samplePolicy) samplePod)"
  "ListPolicies sampleEnv = Inr [samplePolicy]"
  "matchPolicy (LabelSelectorAsSelector sampleEnv) (Labels samplePod) [samplePolicy] = Some samplePolicy"
  "shouldInject samplePod (Some samplePolicy)"
  "MarshalPod sampleEnv (mutatePod (Some samplePolicy) samplePod) = Inr ''q''"
  by (simp_all add: sampleEnv_def samplePod_def samplePolicy_def matchLabelsSelector_def shouldInject_def
      annotation_def)

section \<open>Properties\<close>

text \<open>
  C21. The webhook answers with a patch exactly when the request decodes, the policies can be
  listed, the injection annotation says \<open>true\<close> or is absent while the first listed policy whose
  selector compiles and matches the pod's labels has its spy enabled, and the mutated pod can be
  serialised; the patch leads from the request's object to the mutation of the pod for that policy.
\<close>

theorem handle_patches_iff:
  "Handle m raw = PatchResponseFromRaw raw' out \<longleftrightarrow>
     raw' = raw \<and>
     (\<exists>pod policies. Decode m raw = Inr pod \<and> ListPolicies m = Inr policies \<and>
        (let mp = List.find (selects (LabelSelectorAsSelector m) (Labels pod)) policies in
         (annotation pod injectAnnotation = Some ''true'' \<or>
          annotation pod injectAnnotation = None \<and> mp \<noteq> None \<and> Enabled (SpyConfigF (Spec (the mp)))) \<and>
         MarshalPod m (mutatePod mp pod) = Inr out))"
  by (auto simp: Handle_def Let_def shouldInject_def webhook.lookup_find
      split: sum.splits option.splits if_splits)

text \<open>
  C31. The webhook refuses with status 400 exactly when the object does not decode, with status 500
  exactly when the policies cannot be listed or a pod that is to be injected cannot be serialised,
  in each case with the error of the failing call, and with no other status.
\<close>

theorem handle_errors_iff:
  "Handle m raw = Errored code err \<longleftrightarrow>
     code = 400 \<and> Decode m raw = Inl err \<or>
     code = 500 \<and> (\<exists>pod. Decode m raw = Inr pod \<and>
       (ListPolicies m = Inl err \<or>
        (\<exists>policies. ListPolicies m = Inr policies \<and>
           (let mp = matchPolicy (LabelSelectorAsSelector m) (Labels pod) policies in
            shouldInject pod mp \<and> MarshalPod m (mutatePod mp pod) = Inl err))))"
  by (auto simp: Handle_def Let_def StatusBadRequest_def StatusInternalServerError_def
      split: sum.splits if_splits)

text \<open>
  C6. Injection keeps the workload: the pod has the same containers in the same order, each with its
  name, image, command and limits, with every environment variable that is not one of the sentry's
  own in its old order, with its old mounts first, and with a first \<open>LD_PRELOAD\<close> that loads the spy
  library before whatever was preloaded already; init containers and volumes are only appended to.
\<close>

theorem mutation_keeps_workload:
  "length (Containers (mutatePod mp pod)) = length (Containers pod) \<and>
   list_all2 (\<lambda>c c'.
       CName c' = CName c \<and> Image c' = Image c \<and> Command c' = Command c \<and> Limits c' = Limits c \<and>
       filter (\<lambda>v. EnvName v \<notin> set sentryEnvNames) (CEnv c') =
         filter (\<lambda>v. EnvName v \<notin> set sentryEnvNames) (CEnv c) \<and>
       preloadValue (CEnv c') =
         Some (case preloadValue (CEnv c) of None \<Rightarrow> spyLibrary | Some old \<Rightarrow> spyLibrary @ '':'' @ old) \<and>
       prefix (VolumeMounts c) (VolumeMounts c'))
     (Containers pod) (Containers (mutatePod mp pod)) \<and>
   prefix (InitContainers pod) (InitContainers (mutatePod mp pod)) \<and>
   prefix (Volumes pod) (Volumes (mutatePod mp pod))"
proof -
  have "prefix (VolumeMounts c) (VolumeMounts (injectContainer c))" for c
    by (simp add: injectContainer_def split: prod.split)
  then show ?thesis
    by (simp add: list_all2_conv_all_nth injectContainer_env injectContainer_preload)
qed

text \<open>
  Every mount has its volume: if each container and init container of the pod mounts only
  volumes that the pod declares, the same holds after injection.
\<close>

theorem mutation_resolves_mounts:
  assumes "mountsResolved pod"
  shows "mountsResolved (mutatePod mp pod)"
proof -
  have "set (map VmName (VolumeMounts (injectContainer c))) \<subseteq>
      set (map VolName (Volumes (mutatePod mp pod)))" if "c \<in> set (Containers pod)" for c
    using that assms unfolding injectContainer_mounts mutatePod_volumeNames mountsResolved_def by auto
  moreover have "set (map VmName (VolumeMounts c)) \<subseteq> set (map VolName (Volumes (mutatePod mp pod)))"
    if "c \<in> set (InitContainers pod)" for c
    using that assms unfolding mutatePod_volumeNames mountsResolved_def by auto
  moreover have "set (map VmName (VolumeMounts (precheckContainer envs))) \<subseteq>
      set (map VolName (Volumes (mutatePod mp pod)))" for envs
    unfolding mutatePod_volumeNames by (simp add: precheckContainer_def)
  ultimately show ?thesis
    unfolding mountsResolved_def mutatePod_simps(5,6) by (simp only: set_append set_simps ball_Un set_map) blast
qed

theorem mutation_resolves_mounts_witness:
  "mountsResolved samplePod \<and> mountsResolved (mutatePod (Some samplePolicy) samplePod)"
proof -
  have "mountsResolved samplePod"
    by (simp add: mountsResolved_def samplePod_def sampleContainer_def)
  with mutation_resolves_mounts [OF this] show ?thesis by simp
qed

text \<open>
  C30. Injection writes two annotations and no others: the injection mark, and, when a policy
  matched, the policy's thresholds and evaluation parameters in JSON; every other annotation, the
  name, the labels and the node are kept, so that the same policies select the pod afterwards.
\<close>

theorem mutation_annotations:
  "annotation (mutatePod mp pod) ''compute-sentry.aiguard.io/injected'' = Some ''true'' \<and>
   annotation (mutatePod mp pod) ''compute-sentry.aiguard.io/governance-config'' =
     (case mp of
        None \<Rightarrow> annotation pod ''compute-sentry.aiguard.io/governance-config''
      | Some p \<Rightarrow> Some (marshalGovernance
          \<lparr>gcThresholds = ThresholdsF (Spec p), gcEvalConfig = EvalConfigF (Spec p)\<rparr>)) \<and>
   (\<forall>k. k \<notin> {''compute-sentry.aiguard.io/injected'', ''compute-sentry.aiguard.io/governance-config''} \<longrightarrow>
      annotation (mutatePod mp pod) k = annotation pod k) \<and>
   Name (mutatePod mp pod) = Name pod \<and> Namespace (mutatePod mp pod) = Namespace pod \<and>
   NodeName (mutatePod mp pod) = NodeName pod \<and>
   (\<forall>asSel policies. matchPolicy asSel (Labels (mutatePod mp pod)) policies =
      matchPolicy asSel (Labels pod) policies)"
  by (auto simp: annotation_mutatePod injectedAnnotation_def governanceAnnotation_def governanceOf_def
      split: option.split)

theorem mutation_annotations_witness:
  "annotation (mutatePod (Some samplePolicy) samplePod) ''compute-sentry.aiguard.io/health'' =
     annotation samplePod ''compute-sentry.aiguard.io/health''"
  using mutation_annotations [of "Some samplePolicy" samplePod] by simp

text \<open>
  The pre-check container gets the bandwidth limits of the policy: it is appended as the last
  init container, and its variable for a limit exists exactly when the limit is not zero and then
  parses back to the limit.
\<close>

theorem precheck_limits:
  "let envs = CEnv (last (InitContainers (mutatePod (Some p) pod))); t = ThresholdsF (Spec p) in
   precheckLimit envs ''PRECHECK_MIN_P2P_GBPS'' = MinP2PBandwidthGbps t \<and>
   precheckLimit envs ''PRECHECK_MIN_HBM_GBPS'' = MinHbmBandwidthGbps t \<and>
   (''PRECHECK_MIN_P2P_GBPS'' \<in> EnvName ` set envs) = (MinP2PBandwidthGbps t \<noteq> 0) \<and>
   (''PRECHECK_MIN_HBM_GBPS'' \<in> EnvName ` set envs) = (MinHbmBandwidthGbps t \<noteq> 0)"
  by (simp add: Let_def precheckContainer_def precheckEnvs_def precheckLimit_def envVar_def governanceOf_def
      ParseInt_formatInt)

text \<open>
  The handler does not look at the injection mark, and it runs on updates too: when the object
  that its patch produced comes back in a later request (a metadata update of the pod, with the
  policies unchanged), it answers with a patch again, and the patched pod declares every sentry
  volume twice and has one more init container, so that its spec differs from the running pod's.
  Serialisation is assumed to succeed and to be undone by the decoder.
\<close>

theorem reinjection:
  assumes "Handle m raw = PatchResponseFromRaw raw out"
    and "Decode m raw = Inr pod"
    and "\<forall>p. MarshalPod m p = Inr out \<longrightarrow> Decode m out = Inr p"
    and "\<forall>p. \<exists>s. MarshalPod m p = Inr s"
  shows "\<exists>once twice out2.
      Decode m out = Inr once \<and> Handle m out = PatchResponseFromRaw out out2 \<and>
      MarshalPod m twice = Inr out2 \<and>
      \<not> distinct (map VolName (Volumes twice)) \<and>
      length (InitContainers twice) = length (InitContainers once) + 1 \<and>
      length (Volumes twice) = length (Volumes once) + 3"
proof -
  from assms(1,2) obtain policies mp where
    policies: "ListPolicies m = Inr policies" and
    mp: "mp = matchPolicy (LabelSelectorAsSelector m) (Labels pod) policies" and
    inj: "shouldInject pod mp" and out: "MarshalPod m (mutatePod mp pod) = Inr out"
    by (auto simp: Handle_def Let_def split: sum.splits if_splits)
  let ?once = "mutatePod mp pod" and ?twice = "mutatePod mp (mutatePod mp pod)"
  from assms(4) obtain out2 where out2: "MarshalPod m ?twice = Inr out2" by blast
  have once: "Decode m out = Inr ?once" using assms(3) out by blast
  then have "Handle m out = PatchResponseFromRaw out out2"
    using policies inj out2 by (simp add: Handle_def Let_def mp [symmetric] shouldInject_mutatePod)
  moreover have "\<not> distinct (map VolName (Volumes ?twice))"
    by (simp add: sentryVolumes_def binVolume_def)
  ultimately show ?thesis
    using once out2 by (intro exI [of _ ?once] exI [of _ ?twice] exI [of _ out2]) (simp add: sentryVolumes_def)
qed

theorem reinjection_witness:
  "\<exists>once twice out2.
      Decode sampleEnv ''q'' = Inr once \<and> Handle sampleEnv ''q'' = PatchResponseFromRaw ''q'' out2 \<and>
      MarshalPod sampleEnv twice = Inr out2 \<and>
      \<not> distinct (map VolName (Volumes twice)) \<and>
      length (InitContainers twice) = length (InitContainers once) + 1 \<and>
      length (Volumes twice) = length (Volumes once) + 3"
proof (rule reinjection)
  show "Handle sampleEnv ''p'' = PatchResponseFromRaw ''p'' ''q''"
    by (simp add: Handle_def Let_def sampleEnv_eval del: matchPolicy.simps)
  show "Decode sampleEnv ''p'' = Inr samplePod" by (simp add: sampleEnv_eval)
  show "\<forall>p. MarshalPod sampleEnv p = Inr ''q'' \<longrightarrow> Decode sampleEnv ''q'' = Inr p"
    by (simp add: sampleEnv_def)
  show "\<forall>p. \<exists>s. MarshalPod sampleEnv p = Inr s" by (simp add: sampleEnv_def)
qed

end
