(* ===== verification/Health_Controller.thy ===== *)
theory Health_Controller
  imports Policy_Match Go_Float Go_Time Go_Action
begin

text \<open>
  \<open>operator/internal/controller/health_controller.go\<close>: the controller that taints nodes and evicts
  pods.

  The Kubernetes API server is a parameter. Its state is of an arbitrary type \<open>'c\<close>, which every call
  receives and returns, so that nothing is assumed about what other clients do between two calls; the
  record \<open>Client\<close> has one field per kind of call the controller makes. A patch call carries the
  object and the base of \<open>client.MergeFrom\<close>. Log output is not modelled. The result of \<open>Reconcile\<close> is the empty result on every error return of the
  source, so it is an error or a result.
\<close>

section \<open>The API server and the controller\<close>

record 'c Client =
  GetPod :: "string \<Rightarrow> string \<Rightarrow> ('c, Pod) action"
  GetNode :: "string \<Rightarrow> ('c, Node) action"
  ListComputeSentryPolicies :: "('c, ComputeSentryPolicy list) action"
  ListPods :: "selector option \<Rightarrow> ('c, Pod list) action"
  ListPodsOnNode :: "string \<Rightarrow> ('c, Pod list) action"
  PatchNode :: "Node \<Rightarrow> Node \<Rightarrow> ('c, unit) action"
  DeletePod :: "Pod \<Rightarrow> ('c, unit) action"

text \<open>
  \<open>K8sClient\<close> is the clientset that may be nil, with the one call made through it: the creation of
  an eviction in a namespace.
\<close>

record 'c HealthController =
  ClientF :: "'c Client"
  K8sClient :: "(string \<Rightarrow> string \<Rightarrow> ('c, unit) action) option"

record Result =
  RequeueAfter :: Duration

definition emptyResult :: Result where
  "emptyResult = \<lparr>RequeueAfter = 0\<rparr>"

definition Minute :: Duration where
  "Minute = 60000000000"

definition healthAnnotationKey :: string where
  "healthAnnotationKey = ''compute-sentry.aiguard.io/health''"

definition noScheduleTaintKey :: string where
  "noScheduleTaintKey = ''compute-sentry.aiguard.io/unhealthy''"

section \<open>Policies\<close>

fun firstMatching :: "asSelector \<Rightarrow> labelSet \<Rightarrow> ComputeSentryPolicy list \<Rightarrow> ComputeSentryPolicy option" where
  "firstMatching asSel ls [] = None"
| "firstMatching asSel ls (policy # rest) =
     (case asSel (Selector (Spec policy)) of
        Inl err \<Rightarrow> firstMatching asSel ls rest
      | Inr sel \<Rightarrow> if sel ls then Some policy else firstMatching asSel ls rest)"

interpretation controller: policy_selector firstMatching
  by unfold_locales (auto simp: selects_def split: sum.splits)

definition findMatchingPolicy ::
  "'c HealthController \<Rightarrow> asSelector \<Rightarrow> Pod \<Rightarrow> ('c, ComputeSentryPolicy option) action" where
  "findMatchingPolicy r asSel pod =
     handling (ListComputeSentryPolicies (ClientF r)) fail
       (\<lambda>policies. return (firstMatching asSel (Labels pod) policies))"

section \<open>Eviction throttling\<close>

definition isUnhealthy :: "Pod \<Rightarrow> bool" where
  "isUnhealthy p \<longleftrightarrow> annotation p healthAnnotationKey = Some ''unhealthy''"

definition countUnhealthy :: "Pod list \<Rightarrow> nat" where
  "countUnhealthy pods = length (filter isUnhealthy pods)"

text \<open>\<open>%.2f\<close> of a non-negative float: two decimals, correctly rounded.\<close>

definition formatFixed2 :: "rat \<Rightarrow> string" where
  "formatFixed2 x =
     (let n = nat (rne (x * 100))
      in natStr (n div 100) @ ''.'' @ natStr (n mod 100 div 10) @ natStr (n mod 10))"

definition throttleVerdict :: "nat \<Rightarrow> nat \<Rightarrow> goError option" where
  "throttleVerdict unhealthy n =
     (if n = 0 then None
      else let ratio = fdiv (float64 (int unhealthy)) (float64 (int n)) in
        if roundf (1 / 20) < ratio \<and> 1 < unhealthy
        then Some (Errorf (''too many unhealthy pods ('' @ formatInt (int unhealthy) @ ''/'' @
               formatInt (int n) @ '', '' @ formatFixed2 (fmul ratio 100) @ ''%)''))
        else None)"

definition checkEvictionThrottling ::
  "'c HealthController \<Rightarrow> asSelector \<Rightarrow> ComputeSentryPolicy \<Rightarrow> ('c, unit) action" where
  "checkEvictionThrottling r asSel policy =
     (let sel = (case asSel (Selector (Spec policy)) of Inl _ \<Rightarrow> None | Inr s \<Rightarrow> Some s) in
      handling (ListPods (ClientF r) sel) fail
        (\<lambda>pods. case throttleVerdict (countUnhealthy pods) (length pods) of
             Some err \<Rightarrow> fail err
           | None \<Rightarrow> return ()))"

section \<open>Taints\<close>

definition isTainted :: "Node \<Rightarrow> bool" where
  "isTainted node \<longleftrightarrow> list_ex (\<lambda>t. TaintKey t = noScheduleTaintKey) (Taints node)"

definition sentryTaint :: Taint where
  "sentryTaint = \<lparr>TaintKey = noScheduleTaintKey, TaintValue = ''true'', TaintEffect = ''NoSchedule''\<rparr>"

definition taintNode :: "'c HealthController \<Rightarrow> string \<Rightarrow> ('c, unit) action" where
  "taintNode r nodeName =
     (if nodeName = '''' then fail (Errorf ''node name is empty'')
      else handling (GetNode (ClientF r) nodeName) fail
        (\<lambda>node. if isTainted node then return ()
                 else PatchNode (ClientF r) (node\<lparr>Taints := Taints node @ [sentryTaint]\<rparr>) node))"

definition evictPod :: "'c HealthController \<Rightarrow> Pod \<Rightarrow> ('c, unit) action" where
  "evictPod r pod =
     (case K8sClient r of
        None \<Rightarrow> DeletePod (ClientF r) pod
      | Some evict \<Rightarrow> evict (Namespace pod) (Name pod))"

text \<open>
  The last argument of \<open>PatchNode\<close> is the base of the merge patch: the source passes the node as
  read for the object and the copy without the taint for the base.
\<close>

definition untaintNode :: "'c HealthController \<Rightarrow> string \<Rightarrow> ('c, unit) action" where
  "untaintNode r nodeName =
     handling (GetNode (ClientF r) nodeName) fail
       (\<lambda>node. let newTaints = filter (\<lambda>t. TaintKey t \<noteq> noScheduleTaintKey) (Taints node) in
          if \<not> isTainted node then return ()
          else PatchNode (ClientF r) node (node\<lparr>Taints := newTaints\<rparr>))"

definition untaintNodeIfTaintedByUs :: "'c HealthController \<Rightarrow> string \<Rightarrow> ('c, unit) action" where
  "untaintNodeIfTaintedByUs r nodeName =
     handling (GetNode (ClientF r) nodeName)
       (\<lambda>err. if IsNotFound err then return ()
               else fail (Wrapf (''failed to get node '' @ nodeName @ '': '') err))
       (\<lambda>node. if isTainted node then untaintNode r nodeName else return ())"

section \<open>The taint decision\<close>

record nodePodsHealthStatus =
  TotalPods :: nat
  UnhealthyPods :: nat
  HealthyPods :: nat

record taintDecision =
  ShouldTaint :: bool
  ShouldUntaint :: bool
  Reason :: string

definition noChange :: taintDecision where
  "noChange = \<lparr>ShouldTaint = False, ShouldUntaint = False, Reason = ''''\<rparr>"

fun addPod :: "Pod \<Rightarrow> nodePodsHealthStatus \<Rightarrow> nodePodsHealthStatus" where
  "addPod p status =
     (let status1 = status\<lparr>TotalPods := TotalPods status + 1\<rparr> in
      if isUnhealthy p then status1\<lparr>UnhealthyPods := UnhealthyPods status1 + 1\<rparr>
      else status1\<lparr>HealthyPods := HealthyPods status1 + 1\<rparr>)"

definition aggregate :: "Pod list \<Rightarrow> nodePodsHealthStatus" where
  "aggregate pods = fold addPod pods \<lparr>TotalPods = 0, UnhealthyPods = 0, HealthyPods = 0\<rparr>"

definition getNodePodsHealthStatus ::
  "'c HealthController \<Rightarrow> string \<Rightarrow> ('c, nodePodsHealthStatus) action" where
  "getNodePodsHealthStatus r nodeName =
     handling (ListPodsOnNode (ClientF r) nodeName)
       (\<lambda>err. fail (Wrapf (''failed to list pods on node '' @ nodeName @ '': '') err))
       (\<lambda>pods. return (aggregate pods))"

definition meetsThreshold :: "NodeTaintThreshold \<Rightarrow> nodePodsHealthStatus \<Rightarrow> bool" where
  "meetsThreshold threshold status \<longleftrightarrow>
     (case MinUnhealthyPodsCount threshold of
        None \<Rightarrow> False
      | Some n \<Rightarrow> sint n \<le> int (UnhealthyPods status)) \<or>
     (case MinUnhealthyPodsPercentage threshold of
        None \<Rightarrow> False
      | Some p \<Rightarrow> 0 < TotalPods status \<and>
          float64 (sint p) \<le>
            fmul (fdiv (float64 (int (UnhealthyPods status))) (float64 (int (TotalPods status)))) 100)"

definition countsReason :: "string \<Rightarrow> nodePodsHealthStatus \<Rightarrow> string" where
  "countsReason intro status =
     intro @ formatInt (int (UnhealthyPods status)) @ ''/'' @ formatInt (int (TotalPods status)) @
     '' pods unhealthy''"

definition decideTaint ::
  "bool \<Rightarrow> nodePodsHealthStatus \<Rightarrow> ComputeSentryPolicy option \<Rightarrow> taintDecision" where
  "decideTaint isCurrentlyTainted status policy =
     (case Option.bind policy (\<lambda>p. NodeTaintThresholdF (ActionsF (Spec p))) of
        None \<Rightarrow>
          if 0 < UnhealthyPods status \<and> \<not> isCurrentlyTainted
          then noChange\<lparr>ShouldTaint := True, Reason := ''aggressive taint: at least one pod is unhealthy''\<rparr>
          else if UnhealthyPods status = 0 \<and> isCurrentlyTainted
          then noChange\<lparr>ShouldUntaint := True, Reason := ''aggressive untaint: all pods are healthy''\<rparr>
          else noChange
      | Some threshold \<Rightarrow>
          if meetsThreshold threshold status \<and> \<not> isCurrentlyTainted
          then noChange\<lparr>ShouldTaint := True, Reason := countsReason ''threshold met: '' status\<rparr>
          else if \<not> meetsThreshold threshold status \<and> isCurrentlyTainted
          then noChange\<lparr>ShouldUntaint := True, Reason := countsReason ''threshold no longer met: '' status\<rparr>
          else noChange)"

definition evaluateNodeTaintDecision ::
  "'c HealthController \<Rightarrow> string \<Rightarrow> ComputeSentryPolicy option \<Rightarrow> ('c, taintDecision) action" where
  "evaluateNodeTaintDecision r nodeName policy =
     handling (GetNode (ClientF r) nodeName)
       (\<lambda>err. fail (Wrapf (''failed to get node '' @ nodeName @ '': '') err))
       (\<lambda>node. handling (getNodePodsHealthStatus r nodeName) fail
          (\<lambda>status. return (decideTaint (isTainted node) status policy)))"

section \<open>Reconciliation\<close>

definition applyDecision :: "'c HealthController \<Rightarrow> string \<Rightarrow> taintDecision \<Rightarrow> ('c, unit) action" where
  "applyDecision r nodeName d =
     (if ShouldTaint d then taintNode r nodeName
      else if ShouldUntaint d then untaintNode r nodeName
      else return ())"

definition evictIfUnhealthy ::
  "'c HealthController \<Rightarrow> asSelector \<Rightarrow> ComputeSentryPolicy \<Rightarrow> Pod \<Rightarrow> ('c, Result) action" where
  "evictIfUnhealthy r asSel policy pod =
     (if isUnhealthy pod \<and> EnableEvict (ActionsF (Spec policy)) then
        handling (checkEvictionThrottling r asSel policy)
          (\<lambda>err. return \<lparr>RequeueAfter = Minute\<rparr>)
          (\<lambda>_. handling (evictPod r pod) fail (\<lambda>_. return emptyResult))
      else return emptyResult)"

definition Reconcile ::
  "'c HealthController \<Rightarrow> asSelector \<Rightarrow> string \<Rightarrow> string \<Rightarrow> ('c, Result) action" where
  "Reconcile r asSel ns name =
     handling (GetPod (ClientF r) ns name)
       (\<lambda>err. if IsNotFound err then return emptyResult else fail err)
       (\<lambda>pod. handling (findMatchingPolicy r asSel pod) fail
          (\<lambda>policy.
             if NodeName pod = '''' then return emptyResult
             else case policy of
               None \<Rightarrow>
                 handling (untaintNodeIfTaintedByUs r (NodeName pod)) fail (\<lambda>_. return emptyResult)
             | Some p \<Rightarrow>
                 if \<not> EnableTaint (ActionsF (Spec p)) then
                   handling (untaintNodeIfTaintedByUs r (NodeName pod)) fail (\<lambda>_. return emptyResult)
                 else
                   handling (evaluateNodeTaintDecision r (NodeName pod) (Some p)) fail
                     (\<lambda>d. handling (applyDecision r (NodeName pod) d) fail
                        (\<lambda>_. evictIfUnhealthy r asSel p pod))))"

end
