(* ===== verification/Controller_Log.thy ===== *)
theory Controller_Log
  imports Health_Controller
begin

text \<open>
  The calls that the controller makes, recorded together with their answers: \<open>logged\<close> turns any API
  server into one that keeps a log, and running an operation on it gives the same answer and the
  same server state (\<open>Reconcile_logged\<close>). \<open>emits\<close> is a small calculus on the calls that an
  operation appends to the log; with it each operation of the controller gets one lemma on its calls.
\<close>

section \<open>The log\<close>

datatype Call =
    CGetPod string string "goError + Pod"
  | CGetNode string "goError + Node"
  | CListPolicies "goError + ComputeSentryPolicy list"
  | CListPods "selector option" "goError + Pod list"
  | CListPodsOnNode string "goError + Pod list"
  | CPatchNode Node Node "goError + unit"
  | CDeletePod Pod "goError + unit"
  | CEvict string string "goError + unit"

definition logAct :: "(goError + 'a \<Rightarrow> Call) \<Rightarrow> ('c, 'a) action \<Rightarrow> ('c \<times> Call list, 'a) action" where
  "logAct mk m = (\<lambda>(s, l). case m s of (r, s') \<Rightarrow> (r, s', l @ [mk r]))"

definition loggedClient :: "'c Client \<Rightarrow> ('c \<times> Call list) Client" where
  "loggedClient cl =
     \<lparr>GetPod = (\<lambda>ns n. logAct (CGetPod ns n) (GetPod cl ns n)),
      GetNode = (\<lambda>n. logAct (CGetNode n) (GetNode cl n)),
      ListComputeSentryPolicies = logAct CListPolicies (ListComputeSentryPolicies cl),
      ListPods = (\<lambda>sel. logAct (CListPods sel) (ListPods cl sel)),
      ListPodsOnNode = (\<lambda>n. logAct (CListPodsOnNode n) (ListPodsOnNode cl n)),
      PatchNode = (\<lambda>obj base. logAct (CPatchNode obj base) (PatchNode cl obj base)),
      DeletePod = (\<lambda>p. logAct (CDeletePod p) (DeletePod cl p))\<rparr>"

definition logged :: "'c HealthController \<Rightarrow> ('c \<times> Call list) HealthController" where
  "logged r =
     \<lparr>ClientF = loggedClient (ClientF r),
      K8sClient = map_option (\<lambda>evict ns n. logAct (CEvict ns n) (evict ns n)) (K8sClient r)\<rparr>"

lemma logged_simps [simp]:
  "GetPod (ClientF (logged r)) ns n = logAct (CGetPod ns n) (GetPod (ClientF r) ns n)"
  "GetNode (ClientF (logged r)) n = logAct (CGetNode n) (GetNode (ClientF r) n)"
  "ListComputeSentryPolicies (ClientF (logged r)) = logAct CListPolicies (ListComputeSentryPolicies (ClientF r))"
  "ListPods (ClientF (logged r)) sel = logAct (CListPods sel) (ListPods (ClientF r) sel)"
  "ListPodsOnNode (ClientF (logged r)) n = logAct (CListPodsOnNode n) (ListPodsOnNode (ClientF r) n)"
  "PatchNode (ClientF (logged r)) obj base = logAct (CPatchNode obj base) (PatchNode (ClientF r) obj base)"
  "DeletePod (ClientF (logged r)) p = logAct (CDeletePod p) (DeletePod (ClientF r) p)"
  "K8sClient (logged r) = map_option (\<lambda>evict ns n. logAct (CEvict ns n) (evict ns n)) (K8sClient r)"
  by (simp_all add: logged_def loggedClient_def)

lemmas operation_defs =
  Reconcile_def findMatchingPolicy_def checkEvictionThrottling_def taintNode_def evictPod_def
  untaintNode_def untaintNodeIfTaintedByUs_def getNodePodsHealthStatus_def
  evaluateNodeTaintDecision_def applyDecision_def evictIfUnhealthy_def

section \<open>Logging does not change what the controller does\<close>

definition erases :: "('c \<times> Call list, 'a) action \<Rightarrow> ('c, 'a) action \<Rightarrow> bool" where
  "erases m' m \<longleftrightarrow> (\<forall>s l. fst (m' (s, l)) = fst (m s) \<and> fst (snd (m' (s, l))) = snd (m s))"

named_theorems erases_intros \<open>an operation and its logged form\<close>

lemma erases_logAct [erases_intros]: "erases (logAct mk m) m"
  by (auto simp: erases_def logAct_def split: prod.split)

lemma erases_return [erases_intros]: "erases (return a) (return a)"
  by (simp add: erases_def return_def)

lemma erases_fail [erases_intros]: "erases (fail e) (fail e)"
  by (simp add: erases_def fail_def)

lemma erases_handling [erases_intros]:
  assumes "erases m' m" "\<And>e. erases (h' e) (h e)" "\<And>a. erases (f' a) (f a)"
  shows "erases (handling m' h' f') (handling m h f)"
  unfolding erases_def
proof (intro allI)
  fix s l
  obtain x s' l' where m': "m' (s, l) = (x, s', l')" by (cases "m' (s, l)") auto
  then have "m s = (x, s')"
    using assms(1) unfolding erases_def by (metis fst_conv prod.collapse snd_conv)
  with m' assms(2,3)
  show "fst (handling m' h' f' (s, l)) = fst (handling m h f s) \<and>
      fst (snd (handling m' h' f' (s, l))) = snd (handling m h f s)"
    by (cases x) (auto simp: handling_def erases_def)
qed

lemma erases_if [erases_intros]:
  "(b \<Longrightarrow> erases m' m) \<Longrightarrow> (\<not> b \<Longrightarrow> erases k' k) \<Longrightarrow> erases (if b then m' else k') (if b then m else k)"
  by simp

lemma erases_option [erases_intros]:
  "erases n' n \<Longrightarrow> (\<And>a. erases (f' a) (f a)) \<Longrightarrow>
   erases (case x of None \<Rightarrow> n' | Some a \<Rightarrow> f' a) (case x of None \<Rightarrow> n | Some a \<Rightarrow> f a)"
  by (cases x) simp_all

lemma erases_evictPod [erases_intros]: "erases (evictPod (logged r) pod) (evictPod r pod)"
  by (cases "K8sClient r") (simp_all add: evictPod_def erases_logAct)

lemma Reconcile_logged: "erases (Reconcile (logged r) asSel ns name) (Reconcile r asSel ns name)"
  unfolding Reconcile_def findMatchingPolicy_def checkEvictionThrottling_def taintNode_def
    untaintNode_def untaintNodeIfTaintedByUs_def getNodePodsHealthStatus_def
    evaluateNodeTaintDecision_def applyDecision_def evictIfUnhealthy_def Let_def logged_simps
  by (intro erases_intros)

section \<open>A calculus of emitted calls\<close>

definition emits :: "('c \<times> Call list, 'a) action \<Rightarrow> (goError + 'a \<Rightarrow> Call list \<Rightarrow> bool) \<Rightarrow> bool" where
  "emits m Q \<longleftrightarrow> (\<forall>s l. \<exists>r s' cs. m (s, l) = (r, s', l @ cs) \<and> Q r cs)"

lemma emitsE:
  assumes "emits m Q"
  obtains r s' cs where "m (s, l) = (r, s', l @ cs)" "Q r cs"
  using assms unfolding emits_def by blast

lemma emitsD: "emits m Q \<Longrightarrow> m (s, []) = (r, s', cs) \<Longrightarrow> Q r cs"
  unfolding emits_def by (metis append_Nil prod.inject)

lemma emits_weaken: "emits m Q \<Longrightarrow> (\<And>r cs. Q r cs \<Longrightarrow> Q' r cs) \<Longrightarrow> emits m Q'"
  unfolding emits_def by metis

lemma emits_logAct: "(\<And>r. Q r [mk r]) \<Longrightarrow> emits (logAct mk m) Q"
  by (auto simp: emits_def logAct_def split: prod.split)

lemma emits_return: "Q (Inr a) [] \<Longrightarrow> emits (return a) Q"
  by (simp add: emits_def return_def)

lemma emits_fail: "Q (Inl e) [] \<Longrightarrow> emits (fail e) Q"
  by (simp add: emits_def fail_def)

lemma emits_handling:
  assumes m: "emits m (\<lambda>x cs. case x of
      Inl e \<Rightarrow> emits (h e) (\<lambda>r cs'. Q r (cs @ cs'))
    | Inr a \<Rightarrow> emits (f a) (\<lambda>r cs'. Q r (cs @ cs')))"
  shows "emits (handling m h f) Q"
  unfolding emits_def
proof (intro allI)
  fix s l
  obtain x s1 cs where x: "m (s, l) = (x, s1, l @ cs)"
    and next_ok: "case x of
      Inl e \<Rightarrow> emits (h e) (\<lambda>r cs'. Q r (cs @ cs'))
    | Inr a \<Rightarrow> emits (f a) (\<lambda>r cs'. Q r (cs @ cs'))"
    by (rule emitsE [OF m])
  show "\<exists>r s' cs. handling m h f (s, l) = (r, s', l @ cs) \<and> Q r cs"
  proof (cases x)
    case (Inl e)
    with next_ok have "emits (h e) (\<lambda>r cs'. Q r (cs @ cs'))" by simp
    then obtain r s' cs' where "h e (s1, l @ cs) = (r, s', (l @ cs) @ cs')" "Q r (cs @ cs')"
      by (rule emitsE)
    with x Inl show ?thesis by (auto simp: handling_def)
  next
    case (Inr a)
    with next_ok have "emits (f a) (\<lambda>r cs'. Q r (cs @ cs'))" by simp
    then obtain r s' cs' where "f a (s1, l @ cs) = (r, s', (l @ cs) @ cs')" "Q r (cs @ cs')"
      by (rule emitsE)
    with x Inr show ?thesis by (auto simp: handling_def)
  qed
qed

section \<open>The calls of each operation\<close>

fun isPatch :: "Call \<Rightarrow> bool" where
  "isPatch (CPatchNode _ _ _) = True"
| "isPatch _ = False"

fun isEviction :: "Call \<Rightarrow> bool" where
  "isEviction (CDeletePod _ _) = True"
| "isEviction (CEvict _ _ _) = True"
| "isEviction _ = False"

definition mutations :: "Call list \<Rightarrow> Call list" where
  "mutations cs = filter (\<lambda>c. isPatch c \<or> isEviction c) cs"

lemma mutations_simps [simp]:
  "mutations [] = []"
  "mutations (c # cs) = (if isPatch c \<or> isEviction c then c # mutations cs else mutations cs)"
  "mutations (cs @ ds) = mutations cs @ mutations ds"
  by (simp_all add: mutations_def)

text \<open>A patch of the node \<open>node\<close> as read that differs from it by the sentry's taint only.\<close>

definition taintPatch :: "Node \<Rightarrow> Call \<Rightarrow> bool" where
  "taintPatch node c \<longleftrightarrow>
     (\<exists>res. \<not> isTainted node \<and> c = CPatchNode (node\<lparr>Taints := Taints node @ [sentryTaint]\<rparr>) node res) \<or>
     (\<exists>res. isTainted node \<and>
        c = CPatchNode node (node\<lparr>Taints := filter (\<lambda>t. TaintKey t \<noteq> noScheduleTaintKey) (Taints node)\<rparr>) res)"

definition nodeStage :: "string \<Rightarrow> Call list \<Rightarrow> bool" where
  "nodeStage n cs \<longleftrightarrow>
     mutations cs = [] \<or>
     (\<exists>node c. CGetNode n (Inr node) \<in> set cs \<and> taintPatch node c \<and> mutations cs = [c])"

definition evicts :: "Pod \<Rightarrow> Call \<Rightarrow> bool" where
  "evicts pod c \<longleftrightarrow> (\<exists>res. c = CDeletePod pod res) \<or> (\<exists>res. c = CEvict (Namespace pod) (Name pod) res)"

lemma evicts_isEviction [simp]: "evicts pod c \<Longrightarrow> isEviction c \<and> \<not> isPatch c"
  by (auto simp: evicts_def)

lemma nodeStage_Nil [simp]: "nodeStage n []"
  by (simp add: nodeStage_def)

lemma nodeStage_append:
  "mutations cs = [] \<Longrightarrow> nodeStage n ds \<Longrightarrow> nodeStage n (cs @ ds)"
  by (auto simp: nodeStage_def)

lemma nodeStage_Cons:
  "\<not> isPatch c \<Longrightarrow> \<not> isEviction c \<Longrightarrow> nodeStage n ds \<Longrightarrow> nodeStage n (c # ds)"
  using nodeStage_append [of "[c]"] by simp

lemmas emits_steps = emits_handling emits_logAct emits_return emits_fail

lemma emits_handling_logAct:
  assumes "\<And>e. emits (h e) (\<lambda>r cs. Q r (mk (Inl e) # cs))"
    and "\<And>a. emits (f a) (\<lambda>r cs. Q r (mk (Inr a) # cs))"
  shows "emits (handling (logAct mk m) h f) Q"
  using assms by (intro emits_handling emits_logAct) (simp split: sum.split)

lemma emits_handling_find:
  assumes "\<And>e. emits (h e) (\<lambda>r cs. Q r (CListPolicies (Inl e) # cs))"
    and "\<And>ps. emits (f (firstMatching asSel (Labels pod) ps)) (\<lambda>r cs. Q r (CListPolicies (Inr ps) # cs))"
  shows "emits (handling (findMatchingPolicy (logged r) asSel pod) h f) Q"
proof -
  have "emits (findMatchingPolicy (logged r) asSel pod)
     (\<lambda>x cs. (\<exists>e. cs = [CListPolicies (Inl e)] \<and> x = Inl e) \<or>
        (\<exists>ps. cs = [CListPolicies (Inr ps)] \<and> x = Inr (firstMatching asSel (Labels pod) ps)))"
    unfolding findMatchingPolicy_def logged_simps
    by (intro emits_handling_logAct emits_fail emits_return) simp_all
  then show ?thesis
    by (intro emits_handling) (erule emits_weaken, use assms in auto)
qed

text \<open>The selector with which the pods of a policy are listed; the code ignores the error of an invalid one.\<close>

definition policySelector :: "asSelector \<Rightarrow> ComputeSentryPolicy \<Rightarrow> selector option" where
  "policySelector asSel p = (case asSel (Selector (Spec p)) of Inl _ \<Rightarrow> None | Inr sel \<Rightarrow> Some sel)"

lemma emits_throttling:
  "emits (checkEvictionThrottling (logged r) asSel policy)
     (\<lambda>x cs. \<exists>pl. cs = [CListPods (policySelector asSel policy) pl] \<and>
        (x = Inr () \<longrightarrow> (\<exists>pods. pl = Inr pods \<and> throttleVerdict (countUnhealthy pods) (length pods) = None)))"
  unfolding checkEvictionThrottling_def logged_simps Let_def policySelector_def
  by (intro emits_steps) (auto intro!: emits_steps split: sum.split option.split)

lemma emits_evictPod: "emits (evictPod (logged r) pod) (\<lambda>x cs. \<exists>c. cs = [c] \<and> evicts pod c)"
  unfolding evictPod_def
  by (auto intro!: emits_steps simp: evicts_def split: option.split)

lemma emits_taintNode: "emits (taintNode (logged r) n) (\<lambda>x cs. nodeStage n cs)"
  unfolding taintNode_def logged_simps
  by (auto intro!: emits_steps simp: nodeStage_def taintPatch_def split: sum.split)

lemma emits_untaintNode: "emits (untaintNode (logged r) n) (\<lambda>x cs. nodeStage n cs)"
  unfolding untaintNode_def logged_simps
  by (auto intro!: emits_steps simp: nodeStage_def taintPatch_def Let_def split: sum.split)

lemma emits_untaintIfTainted: "emits (untaintNodeIfTaintedByUs (logged r) n) (\<lambda>x cs. nodeStage n cs)"
  unfolding untaintNodeIfTaintedByUs_def logged_simps
  by (auto intro!: emits_steps emits_weaken [OF emits_untaintNode] nodeStage_Cons split: sum.split)

lemma emits_decision:
  "emits (evaluateNodeTaintDecision (logged r) n policy) (\<lambda>x cs. mutations cs = [])"
  unfolding evaluateNodeTaintDecision_def getNodePodsHealthStatus_def logged_simps
  by (auto intro!: emits_steps split: sum.split)

lemma emits_applyDecision: "emits (applyDecision (logged r) n d) (\<lambda>x cs. nodeStage n cs)"
  unfolding applyDecision_def by (auto intro!: emits_return emits_taintNode emits_untaintNode)

lemma emits_evictIfUnhealthy:
  "emits (evictIfUnhealthy (logged r) asSel policy pod)
     (\<lambda>x cs. mutations cs = [] \<or>
        (\<exists>pods c. cs = [CListPods (policySelector asSel policy) (Inr pods), c] \<and> evicts pod c \<and> isUnhealthy pod \<and>
           EnableEvict (ActionsF (Spec policy)) \<and>
           throttleVerdict (countUnhealthy pods) (length pods) = None))"
proof -
  have evict: "emits (handling (evictPod (logged r) pod) fail (\<lambda>_. return emptyResult))
      (\<lambda>x cs. \<exists>c. cs = [c] \<and> evicts pod c)"
    by (intro emits_handling emits_weaken [OF emits_evictPod])
      (auto intro!: emits_steps split: sum.split)
  show ?thesis
    unfolding evictIfUnhealthy_def
    by (auto intro!: emits_steps emits_weaken [OF emits_throttling] emits_weaken [OF evict] split: sum.split)
qed

section \<open>The calls of \<open>Reconcile\<close>\<close>

definition evictStage :: "asSelector \<Rightarrow> Pod \<Rightarrow> Call list \<Rightarrow> Call list \<Rightarrow> bool" where
  "evictStage asSel pod ds es \<longleftrightarrow>
     mutations es = [] \<or>
     (\<exists>pods c policies p. es = [CListPods (policySelector asSel p) (Inr pods), c] \<and> evicts pod c \<and> isUnhealthy pod \<and>
        CListPolicies (Inr policies) \<in> set ds \<and> firstMatching asSel (Labels pod) policies = Some p \<and>
        EnableTaint (ActionsF (Spec p)) \<and> EnableEvict (ActionsF (Spec p)) \<and>
        throttleVerdict (countUnhealthy pods) (length pods) = None)"

definition reconcileTrace :: "asSelector \<Rightarrow> string \<Rightarrow> string \<Rightarrow> Call list \<Rightarrow> bool" where
  "reconcileTrace asSel ns name cs \<longleftrightarrow>
     (\<exists>e. cs = [CGetPod ns name (Inl e)]) \<or>
     (\<exists>pod ds es. cs = CGetPod ns name (Inr pod) # ds @ es \<and> nodeStage (NodeName pod) ds \<and>
        evictStage asSel pod ds es)"

lemma emits_disabledStage:
  "emits (handling (untaintNodeIfTaintedByUs (logged r) n) fail (\<lambda>_. return emptyResult))
     (\<lambda>x cs. nodeStage n cs)"
  by (intro emits_handling emits_weaken [OF emits_untaintIfTainted])
    (auto intro!: emits_steps split: sum.split)

definition enabledStage :: "asSelector \<Rightarrow> string \<Rightarrow> Pod \<Rightarrow> ComputeSentryPolicy \<Rightarrow> Call list \<Rightarrow> bool" where
  "enabledStage asSel n pod p cs \<longleftrightarrow>
     (\<exists>ds es. cs = ds @ es \<and> nodeStage n ds \<and>
        (mutations es = [] \<or>
         (\<exists>pods c. es = [CListPods (policySelector asSel p) (Inr pods), c] \<and> evicts pod c \<and> isUnhealthy pod \<and>
            EnableEvict (ActionsF (Spec p)) \<and> throttleVerdict (countUnhealthy pods) (length pods) = None)))"

lemma enabledStage_none: "nodeStage n cs \<Longrightarrow> enabledStage asSel n pod p cs"
  unfolding enabledStage_def by (intro exI [of _ cs] exI [of _ "[]"]) simp

lemma enabledStage_evict:
  "nodeStage n ds \<Longrightarrow>
   mutations es = [] \<or>
     (\<exists>pods c. es = [CListPods (policySelector asSel p) (Inr pods), c] \<and> evicts pod c \<and> isUnhealthy pod \<and>
        EnableEvict (ActionsF (Spec p)) \<and> throttleVerdict (countUnhealthy pods) (length pods) = None) \<Longrightarrow>
   enabledStage asSel n pod p (ds @ es)"
  unfolding enabledStage_def by blast

lemma enabledStage_append:
  "mutations cs = [] \<Longrightarrow> enabledStage asSel n pod p ds \<Longrightarrow> enabledStage asSel n pod p (cs @ ds)"
  unfolding enabledStage_def using nodeStage_append by (metis append.assoc)

lemma emits_enabledStage:
  "emits (handling (evaluateNodeTaintDecision (logged r) n policy) fail
       (\<lambda>d. handling (applyDecision (logged r) n d) fail (\<lambda>_. evictIfUnhealthy (logged r) asSel p pod)))
     (\<lambda>x cs. enabledStage asSel n pod p cs)"
proof -
  have applied: "emits (handling (applyDecision (logged r) n d) fail (\<lambda>_. evictIfUnhealthy (logged r) asSel p pod))
      (\<lambda>x cs. enabledStage asSel n pod p cs)" for d
    by (intro emits_handling emits_weaken [OF emits_applyDecision])
      (auto intro!: emits_fail emits_weaken [OF emits_evictIfUnhealthy] enabledStage_evict
        intro: enabledStage_none split: sum.split)
  have continue: "emits (handling (applyDecision (logged r) n d) fail (\<lambda>_. evictIfUnhealthy (logged r) asSel p pod))
      (\<lambda>x ds. enabledStage asSel n pod p (cs @ ds))" if "mutations cs = []" for d cs
    by (rule emits_weaken [OF applied]) (rule enabledStage_append [OF that])
  show ?thesis
    by (intro emits_handling emits_weaken [OF emits_decision])
      (simp add: continue emits_fail enabledStage_none nodeStage_def split: sum.split)
qed

lemma reconcileTrace_node:
  assumes "nodeStage (NodeName pod) cs"
  shows "reconcileTrace asSel ns name (CGetPod ns name (Inr pod) # CListPolicies pl # cs)"
  unfolding reconcileTrace_def evictStage_def
  using nodeStage_Cons [OF _ _ assms, of "CListPolicies pl"]
  by (intro disjI2 exI [of _ pod] exI [of _ "CListPolicies pl # cs"] exI [of _ "[]"]) simp

lemma reconcileTrace_enabled:
  assumes "firstMatching asSel (Labels pod) ps = Some p" "EnableTaint (ActionsF (Spec p))"
    and "enabledStage asSel (NodeName pod) pod p cs"
  shows "reconcileTrace asSel ns name (CGetPod ns name (Inr pod) # CListPolicies (Inr ps) # cs)"
proof -
  from assms(3) obtain ds es where cs: "cs = ds @ es" and ds: "nodeStage (NodeName pod) ds"
    and es: "mutations es = [] \<or>
       (\<exists>pods c. es = [CListPods (policySelector asSel p) (Inr pods), c] \<and> evicts pod c \<and> isUnhealthy pod \<and>
          EnableEvict (ActionsF (Spec p)) \<and> throttleVerdict (countUnhealthy pods) (length pods) = None)"
    unfolding enabledStage_def by blast
  have "evictStage asSel pod (CListPolicies (Inr ps) # ds) es"
    using es assms(1,2) unfolding evictStage_def by auto
  moreover have "nodeStage (NodeName pod) (CListPolicies (Inr ps) # ds)"
    using ds by (intro nodeStage_Cons) simp_all
  ultimately show ?thesis
    unfolding reconcileTrace_def
    by (intro disjI2 exI [of _ pod] exI [of _ "CListPolicies (Inr ps) # ds"] exI [of _ es]) (simp add: cs)
qed

lemma emits_Reconcile: "emits (Reconcile (logged r) asSel ns name) (\<lambda>x cs. reconcileTrace asSel ns name cs)"
proof -
  let ?found = "\<lambda>pod policy.
        if NodeName pod = '''' then return emptyResult
        else case policy of
          None \<Rightarrow> handling (untaintNodeIfTaintedByUs (logged r) (NodeName pod)) fail (\<lambda>_. return emptyResult)
        | Some p \<Rightarrow>
            if \<not> EnableTaint (ActionsF (Spec p)) then
              handling (untaintNodeIfTaintedByUs (logged r) (NodeName pod)) fail (\<lambda>_. return emptyResult)
            else
              handling (evaluateNodeTaintDecision (logged r) (NodeName pod) (Some p)) fail
                (\<lambda>d. handling (applyDecision (logged r) (NodeName pod) d) fail
                   (\<lambda>_. evictIfUnhealthy (logged r) asSel p pod))"
  have found: "emits (?found pod (firstMatching asSel (Labels pod) ps))
      (\<lambda>x cs. reconcileTrace asSel ns name (CGetPod ns name (Inr pod) # CListPolicies (Inr ps) # cs))" for pod ps
  proof -
    have disabled: "emits (handling (untaintNodeIfTaintedByUs (logged r) (NodeName pod)) fail (\<lambda>_. return emptyResult))
        (\<lambda>x cs. reconcileTrace asSel ns name (CGetPod ns name (Inr pod) # CListPolicies (Inr ps) # cs))"
      by (rule emits_weaken [OF emits_disabledStage]) (rule reconcileTrace_node)
    have enabled: "emits (handling (evaluateNodeTaintDecision (logged r) (NodeName pod) (Some p)) fail
          (\<lambda>d. handling (applyDecision (logged r) (NodeName pod) d) fail
             (\<lambda>_. evictIfUnhealthy (logged r) asSel p pod)))
        (\<lambda>x cs. reconcileTrace asSel ns name (CGetPod ns name (Inr pod) # CListPolicies (Inr ps) # cs))"
      if "firstMatching asSel (Labels pod) ps = Some p" "EnableTaint (ActionsF (Spec p))" for p
      by (rule emits_weaken [OF emits_enabledStage]) (rule reconcileTrace_enabled [OF that])
    show ?thesis
      using disabled enabled by (simp add: emits_return reconcileTrace_node split: option.split)
  qed
  have failed: "emits (fail e) (\<lambda>x cs. reconcileTrace asSel ns name
      (CGetPod ns name (Inr pod) # CListPolicies (Inl e) # cs))" for e pod
    by (intro emits_fail reconcileTrace_node) simp
  have "reconcileTrace asSel ns name [CGetPod ns name (Inl e)]" for e
    by (simp add: reconcileTrace_def)
  then show ?thesis
    unfolding Reconcile_def logged_simps
    by (intro emits_handling_logAct emits_handling_find found failed) (simp add: emits_return emits_fail)
qed

end
