(* ===== verification/Controller_Nodes.thy ===== *)
theory Controller_Nodes
  imports Health_Controller
begin

text \<open>
  What the controller's operations do to the nodes stored by an API server. \<open>nodeStore\<close> states the
  documented behaviour of a server that the effect depends on: a read returns the stored node, a
  merge patch (RFC 7386) whose object and base differ in the taints replaces the stored taints by
  the object's and one without a difference changes nothing, a failed patch changes nothing, and the
  other calls leave the nodes alone. The reads are thus up to date and no other client writes to the
  nodes during a run; the cached reads of the manager's client satisfy this only while its cache is. \<open>memController\<close> is an in-memory cluster, an instance of
  \<open>nodeStore\<close>.
\<close>

section \<open>Servers that store nodes\<close>

definition mergeTaints :: "Node \<Rightarrow> Node \<Rightarrow> Node \<Rightarrow> Node" where
  "mergeTaints base obj stored = (if Taints obj = Taints base then stored else stored\<lparr>Taints := Taints obj\<rparr>)"

definition leavesNodes :: "('c \<Rightarrow> string \<Rightarrow> Node option) \<Rightarrow> ('c, 'a) action \<Rightarrow> bool" where
  "leavesNodes nodes m \<longleftrightarrow> (\<forall>s. nodes (snd (m s)) = nodes s)"

definition mergePatches ::
  "('c \<Rightarrow> string \<Rightarrow> Node option) \<Rightarrow> (Node \<Rightarrow> Node \<Rightarrow> ('c, unit) action) \<Rightarrow> bool" where
  "mergePatches nodes patch \<longleftrightarrow>
     (\<forall>obj base s. NName obj = NName base \<and> NLabels obj = NLabels base \<longrightarrow>
        nodes (snd (patch obj base s)) =
          (case fst (patch obj base s) of
             Inl _ \<Rightarrow> nodes s
           | Inr _ \<Rightarrow> (nodes s)(NName obj := map_option (mergeTaints base obj) (nodes s (NName obj)))))"

definition nodeStore :: "('c \<Rightarrow> string \<Rightarrow> Node option) \<Rightarrow> 'c HealthController \<Rightarrow> bool" where
  "nodeStore nodes r \<longleftrightarrow>
     (\<forall>n. leavesNodes nodes (GetNode (ClientF r) n)) \<and>
     (\<forall>n s x. fst (GetNode (ClientF r) n s) = Inr x \<longrightarrow> nodes s n = Some x \<and> NName x = n) \<and>
     mergePatches nodes (PatchNode (ClientF r)) \<and>
     (\<forall>ns n. leavesNodes nodes (GetPod (ClientF r) ns n)) \<and>
     leavesNodes nodes (ListComputeSentryPolicies (ClientF r)) \<and>
     (\<forall>sel. leavesNodes nodes (ListPods (ClientF r) sel)) \<and>
     (\<forall>n. leavesNodes nodes (ListPodsOnNode (ClientF r) n)) \<and>
     (\<forall>p. leavesNodes nodes (DeletePod (ClientF r) p)) \<and>
     (\<forall>evict ns n. K8sClient r = Some evict \<longrightarrow> leavesNodes nodes (evict ns n))"

lemma leavesNodes_keeps: "leavesNodes nodes m \<Longrightarrow> keeps (\<lambda>s. P (nodes s)) m"
  by (auto simp: leavesNodes_def keeps_def hoare_def split: prod.split) (metis snd_conv)

lemma nodeStore_keeps:
  assumes "nodeStore nodes r"
  shows "keeps (\<lambda>s. P (nodes s)) (GetNode (ClientF r) n)"
    and "keeps (\<lambda>s. P (nodes s)) (GetPod (ClientF r) ns n)"
    and "keeps (\<lambda>s. P (nodes s)) (ListComputeSentryPolicies (ClientF r))"
    and "keeps (\<lambda>s. P (nodes s)) (ListPods (ClientF r) sel)"
    and "keeps (\<lambda>s. P (nodes s)) (ListPodsOnNode (ClientF r) n)"
    and "keeps (\<lambda>s. P (nodes s)) (DeletePod (ClientF r) p)"
    and "K8sClient r = Some evict \<Longrightarrow> keeps (\<lambda>s. P (nodes s)) (evict ns n)"
  using assms by (auto simp: nodeStore_def intro: leavesNodes_keeps)

lemma nodeStore_GetNode:
  assumes "nodeStore nodes r"
  shows "hoare (\<lambda>s. P (nodes s)) (GetNode (ClientF r) n)
     (\<lambda>x s. P (nodes s) \<and> (\<forall>node. x = Inr node \<longrightarrow> nodes s n = Some node \<and> NName node = n))"
  unfolding hoare_def
proof (intro allI impI)
  fix s assume "P (nodes s)"
  moreover have "nodes (snd (GetNode (ClientF r) n s)) = nodes s"
    "\<And>x. fst (GetNode (ClientF r) n s) = Inr x \<Longrightarrow> nodes s n = Some x \<and> NName x = n"
    using assms by (auto simp: nodeStore_def leavesNodes_def)
  ultimately show "case GetNode (ClientF r) n s of (x, s) \<Rightarrow>
      P (nodes s) \<and> (\<forall>node. x = Inr node \<longrightarrow> nodes s n = Some node \<and> NName node = n)"
    by (cases "GetNode (ClientF r) n s") simp
qed

lemma nodeStore_PatchNode:
  assumes "nodeStore nodes r" "NName obj = NName base" "NLabels obj = NLabels base"
    and "\<And>s. P s \<Longrightarrow> Q (Inr ()) ((nodes s)(NName obj := map_option (mergeTaints base obj) (nodes s (NName obj))))"
    and "\<And>s e. P s \<Longrightarrow> Q (Inl e) (nodes s)"
  shows "hoare P (PatchNode (ClientF r) obj base) (\<lambda>x s. Q x (nodes s))"
  unfolding hoare_def
proof (intro allI impI)
  fix s assume P: "P s"
  have "nodes (snd (PatchNode (ClientF r) obj base s)) =
      (case fst (PatchNode (ClientF r) obj base s) of
         Inl _ \<Rightarrow> nodes s
       | Inr _ \<Rightarrow> (nodes s)(NName obj := map_option (mergeTaints base obj) (nodes s (NName obj))))"
    using assms(1-3) by (simp add: nodeStore_def mergePatches_def)
  then show "case PatchNode (ClientF r) obj base s of (x, s) \<Rightarrow> Q x (nodes s)"
    using assms(4,5) [OF P] by (auto split: prod.splits sum.splits)
qed

section \<open>The operations on stored nodes\<close>

definition withTaint :: "Node \<Rightarrow> Node" where
  "withTaint node = (if isTainted node then node else node\<lparr>Taints := Taints node @ [sentryTaint]\<rparr>)"

lemma isTainted_withTaint [simp]: "isTainted (withTaint node)"
  by (simp add: withTaint_def isTainted_def sentryTaint_def)

lemma isTainted_filter:
  "isTainted node \<longleftrightarrow> filter (\<lambda>t. TaintKey t \<noteq> noScheduleTaintKey) (Taints node) \<noteq> Taints node"
  by (auto simp: isTainted_def list_ex_iff filter_id_conv)

lemma untaintNode_keeps:
  assumes "nodeStore nodes r"
  shows "keeps (\<lambda>s. P (nodes s)) (untaintNode r n)"
  unfolding keeps_def untaintNode_def Let_def
  by (intro hoare_handling [OF nodeStore_GetNode [OF assms]] hoare_if hoare_return hoare_fail
      nodeStore_PatchNode [OF assms, where Q = "\<lambda>_. P"])
    (auto simp: mergeTaints_def isTainted_filter fun_upd_idem)

lemma untaintIfTainted_keeps:
  assumes "nodeStore nodes r"
  shows "keeps (\<lambda>s. P (nodes s)) (untaintNodeIfTaintedByUs r n)"
  unfolding untaintNodeIfTaintedByUs_def
  by (intro keeps_intros nodeStore_keeps [OF assms] untaintNode_keeps [OF assms])

lemma taintNode_hoare:
  assumes "nodeStore nodes r"
  shows "hoare (\<lambda>s. nodes s = N) (taintNode r n)
     (\<lambda>x s. case x of
        Inl _ \<Rightarrow> nodes s = N
      | Inr _ \<Rightarrow> \<exists>node. N n = Some node \<and> nodes s = N(n \<mapsto> withTaint node))"
  unfolding taintNode_def
  by (intro hoare_handling [OF nodeStore_GetNode [OF assms]] hoare_if hoare_return hoare_fail
      nodeStore_PatchNode [OF assms, where Q = "\<lambda>x M. case x of
        Inl _ \<Rightarrow> M = N
      | Inr _ \<Rightarrow> \<exists>node. N n = Some node \<and> M = N(n \<mapsto> withTaint node)"])
    (auto simp: mergeTaints_def withTaint_def fun_upd_idem)

text \<open>A node that carries the taint carries it after any operation of the controller.\<close>

definition taintedAt :: "string \<Rightarrow> (string \<Rightarrow> Node option) \<Rightarrow> bool" where
  "taintedAt n N \<longleftrightarrow> (case N n of None \<Rightarrow> False | Some node \<Rightarrow> isTainted node)"

lemma taintNode_keeps:
  assumes "nodeStore nodes r"
  shows "keeps (\<lambda>s. taintedAt n (nodes s)) (taintNode r n')"
  unfolding keeps_def hoare_def
proof (intro allI impI)
  fix s assume I: "taintedAt n (nodes s)"
  obtain x s' where run: "taintNode r n' s = (x, s')" by fastforce
  from hoareD [OF taintNode_hoare [OF assms] refl run] I
  show "case taintNode r n' s of (x, s') \<Rightarrow> taintedAt n (nodes s')"
    unfolding run by (auto simp: taintedAt_def split: sum.splits option.splits if_splits)
qed

lemmas nodeStore_keeps_all =
  nodeStore_keeps untaintNode_keeps untaintIfTainted_keeps taintNode_keeps

lemma evictIfUnhealthy_leaves:
  assumes "nodeStore nodes r"
  shows "keeps (\<lambda>s. P (nodes s)) (evictIfUnhealthy r asSel p pod)"
  unfolding evictIfUnhealthy_def checkEvictionThrottling_def evictPod_def Let_def
  by (intro keeps_intros nodeStore_keeps [OF assms]) simp_all

lemma evictIfUnhealthy_keeps:
  assumes "nodeStore nodes r"
  shows "keeps (\<lambda>s. taintedAt n (nodes s)) (evictIfUnhealthy r asSel p pod)"
  using assms by (rule evictIfUnhealthy_leaves)

lemma Reconcile_keeps_taint:
  assumes "nodeStore nodes r"
  shows "keeps (\<lambda>s. taintedAt n (nodes s)) (Reconcile r asSel ns name)"
  unfolding Reconcile_def findMatchingPolicy_def evaluateNodeTaintDecision_def
    getNodePodsHealthStatus_def applyDecision_def
  by (intro keeps_intros nodeStore_keeps_all [OF assms] evictIfUnhealthy_keeps [OF assms])

section \<open>The taint decision and its effect\<close>

lemma aggregate_counts:
  "aggregate pods = \<lparr>TotalPods = length pods, UnhealthyPods = countUnhealthy pods,
     HealthyPods = length (filter (\<lambda>p. \<not> isUnhealthy p) pods)\<rparr>"
proof -
  have "fold addPod pods \<lparr>TotalPods = t, UnhealthyPods = u, HealthyPods = h\<rparr> =
      \<lparr>TotalPods = t + length pods, UnhealthyPods = u + countUnhealthy pods,
       HealthyPods = h + length (filter (\<lambda>p. \<not> isUnhealthy p) pods)\<rparr>" for t u h
    by (induction pods arbitrary: t u h) (simp_all add: countUnhealthy_def Let_def)
  then show ?thesis by (simp add: aggregate_def)
qed

definition taintWanted :: "ComputeSentryPolicy \<Rightarrow> Pod list \<Rightarrow> bool" where
  "taintWanted p pods \<longleftrightarrow>
     (case NodeTaintThresholdF (ActionsF (Spec p)) of
        None \<Rightarrow> list_ex isUnhealthy pods
      | Some threshold \<Rightarrow> meetsThreshold threshold (aggregate pods))"

lemma decideTaint_wanted:
  "ShouldTaint (decideTaint t (aggregate pods) (Some p)) \<longleftrightarrow> taintWanted p pods \<and> \<not> t"
  "ShouldUntaint (decideTaint t (aggregate pods) (Some p)) \<longleftrightarrow> \<not> taintWanted p pods \<and> t"
proof -
  have "0 < countUnhealthy pods \<longleftrightarrow> list_ex isUnhealthy pods"
    by (auto simp: countUnhealthy_def list_ex_iff filter_empty_conv)
  then show "ShouldTaint (decideTaint t (aggregate pods) (Some p)) \<longleftrightarrow> taintWanted p pods \<and> \<not> t"
    "ShouldUntaint (decideTaint t (aggregate pods) (Some p)) \<longleftrightarrow> \<not> taintWanted p pods \<and> t"
    by (auto simp: decideTaint_def taintWanted_def aggregate_counts noChange_def split: option.split)
qed

lemma evaluate_hoare:
  assumes "nodeStore nodes r"
    and "\<And>t pods t'. ListPodsOnNode (ClientF r) n t = (Inr pods, t') \<Longrightarrow> taintWanted p pods"
  shows "hoare (\<lambda>_. True) (evaluateNodeTaintDecision r n (Some p))
     (\<lambda>x s. \<forall>d. x = Inr d \<longrightarrow> (\<exists>node. nodes s n = Some node \<and>
        ShouldTaint d = (\<not> isTainted node) \<and> \<not> ShouldUntaint d))"
proof -
  have list: "hoare (\<lambda>s. nodes s n = Some node) (ListPodsOnNode (ClientF r) n)
      (\<lambda>x s. nodes s n = Some node \<and> (\<forall>pods. x = Inr pods \<longrightarrow> taintWanted p pods))" for node
    using nodeStore_keeps(5) [OF assms(1), of "\<lambda>N. N n = Some node" n] assms(2)
    unfolding keeps_def hoare_def by (auto split: prod.splits)
  have status: "hoare (\<lambda>s. nodes s n = Some node) (getNodePodsHealthStatus r n)
      (\<lambda>x s. nodes s n = Some node \<and> (\<forall>st. x = Inr st \<longrightarrow> (\<exists>pods. st = aggregate pods \<and> taintWanted p pods)))"
    for node
    unfolding getNodePodsHealthStatus_def
    by (intro hoare_handling [OF list] hoare_return hoare_fail) auto
  have decide: "hoare (\<lambda>s. nodes s n = Some node)
      (handling (getNodePodsHealthStatus r n) fail (\<lambda>status. return (decideTaint (isTainted node) status (Some p))))
      (\<lambda>x s. \<forall>d. x = Inr d \<longrightarrow> (\<exists>node. nodes s n = Some node \<and>
        ShouldTaint d = (\<not> isTainted node) \<and> \<not> ShouldUntaint d))" for node
    by (intro hoare_handling [OF status] hoare_return hoare_fail) (auto simp: decideTaint_wanted)
  show ?thesis
    unfolding evaluateNodeTaintDecision_def
    by (intro hoare_handling [OF nodeStore_GetNode [OF assms(1), of "\<lambda>_. True"]] hoare_fail
        hoare_weaken [OF decide]) auto
qed

lemma applyDecision_hoare:
  assumes "nodeStore nodes r"
  shows "hoare (\<lambda>s. \<exists>node. nodes s n = Some node \<and> ShouldTaint d = (\<not> isTainted node) \<and> \<not> ShouldUntaint d)
     (applyDecision r n d) (\<lambda>x s. \<forall>u. x = Inr u \<longrightarrow> taintedAt n (nodes s))"
  unfolding hoare_def
proof (intro allI impI)
  fix s assume pre: "\<exists>node. nodes s n = Some node \<and> ShouldTaint d = (\<not> isTainted node) \<and> \<not> ShouldUntaint d"
  obtain x s' where run: "taintNode r n s = (x, s')" by fastforce
  from hoareD [OF taintNode_hoare [OF assms] refl run] pre
  show "case applyDecision r n d s of (x, s) \<Rightarrow> \<forall>u. x = Inr u \<longrightarrow> taintedAt n (nodes s)"
    by (auto simp: applyDecision_def run return_def taintedAt_def split: sum.splits)
qed

lemma Reconcile_taints:
  assumes store: "nodeStore nodes r"
    and pod: "GetPod (ClientF r) ns name s = (Inr pod, s1)"
    and policies: "ListComputeSentryPolicies (ClientF r) s1 = (Inr policies, s2)"
    and p: "firstMatching asSel (Labels pod) policies = Some p" "EnableTaint (ActionsF (Spec p))"
    and n: "NodeName pod \<noteq> ''''"
    and wanted: "\<And>t pods t'. ListPodsOnNode (ClientF r) (NodeName pod) t = (Inr pods, t') \<Longrightarrow> taintWanted p pods"
    and run: "Reconcile r asSel ns name s = (Inr res, s')"
  shows "taintedAt (NodeName pod) (nodes s')"
proof -
  have evict: "hoare (\<lambda>s. taintedAt (NodeName pod) (nodes s)) (evictIfUnhealthy r asSel p pod)
      (\<lambda>x s. \<forall>res. x = Inr res \<longrightarrow> taintedAt (NodeName pod) (nodes s))"
    using evictIfUnhealthy_keeps [OF store] unfolding keeps_def by (rule hoare_weaken) auto
  have apply_d: "hoare (\<lambda>s. \<exists>node. nodes s (NodeName pod) = Some node \<and>
        ShouldTaint d = (\<not> isTainted node) \<and> \<not> ShouldUntaint d)
      (handling (applyDecision r (NodeName pod) d) fail (\<lambda>_. evictIfUnhealthy r asSel p pod))
      (\<lambda>x s. \<forall>res. x = Inr res \<longrightarrow> taintedAt (NodeName pod) (nodes s))" for d
    by (intro hoare_handling [OF applyDecision_hoare [OF store]] hoare_fail hoare_weaken [OF evict]) auto
  have "hoare (\<lambda>_. True)
      (handling (evaluateNodeTaintDecision r (NodeName pod) (Some p)) fail
        (\<lambda>d. handling (applyDecision r (NodeName pod) d) fail (\<lambda>_. evictIfUnhealthy r asSel p pod)))
      (\<lambda>x s. \<forall>res. x = Inr res \<longrightarrow> taintedAt (NodeName pod) (nodes s))"
    by (intro hoare_handling [OF evaluate_hoare [OF store wanted]] hoare_fail hoare_weaken [OF apply_d]) auto
  moreover have "handling (evaluateNodeTaintDecision r (NodeName pod) (Some p)) fail
      (\<lambda>d. handling (applyDecision r (NodeName pod) d) fail (\<lambda>_. evictIfUnhealthy r asSel p pod)) s2 = (Inr res, s')"
    using run pod policies p n by (simp add: Reconcile_def findMatchingPolicy_def handling_def return_def)
  ultimately show ?thesis by (auto dest: hoareD)
qed

text \<open>A run whose listings do not meet the policy's criterion leaves every node as it is.\<close>

lemma evaluate_unwanted:
  assumes "nodeStore nodes r"
    and "\<And>t pods t'. ListPodsOnNode (ClientF r) n t = (Inr pods, t') \<Longrightarrow> \<not> taintWanted p pods"
  shows "hoare (\<lambda>s. P (nodes s)) (evaluateNodeTaintDecision r n (Some p))
     (\<lambda>x s. P (nodes s) \<and> (\<forall>d. x = Inr d \<longrightarrow> \<not> ShouldTaint d))"
proof -
  have list: "hoare (\<lambda>s. P (nodes s)) (ListPodsOnNode (ClientF r) n)
      (\<lambda>x s. P (nodes s) \<and> (\<forall>pods. x = Inr pods \<longrightarrow> \<not> taintWanted p pods))"
    using nodeStore_keeps(5) [OF assms(1), of P n] assms(2)
    unfolding keeps_def hoare_def by (auto split: prod.splits)
  have status: "hoare (\<lambda>s. P (nodes s)) (getNodePodsHealthStatus r n)
      (\<lambda>x s. P (nodes s) \<and> (\<forall>st. x = Inr st \<longrightarrow> (\<exists>pods. st = aggregate pods \<and> \<not> taintWanted p pods)))"
    unfolding getNodePodsHealthStatus_def
    by (intro hoare_handling [OF list] hoare_return hoare_fail) auto
  have decide: "hoare (\<lambda>s. P (nodes s))
      (handling (getNodePodsHealthStatus r n) fail (\<lambda>status. return (decideTaint (isTainted node) status (Some p))))
      (\<lambda>x s. P (nodes s) \<and> (\<forall>d. x = Inr d \<longrightarrow> \<not> ShouldTaint d))" for node
    by (intro hoare_handling [OF status] hoare_return hoare_fail) (auto simp: decideTaint_wanted)
  show ?thesis
    unfolding evaluateNodeTaintDecision_def
    by (intro hoare_handling [OF nodeStore_GetNode [OF assms(1), of P]] hoare_fail hoare_weaken [OF decide]) auto
qed

lemma handling_Inr: "m s = (Inr a, s') \<Longrightarrow> handling m h f s = f a s'"
  by (simp add: handling_def)

lemma Reconcile_leaves_nodes:
  assumes store: "nodeStore nodes r"
    and pod: "GetPod (ClientF r) ns name s = (Inr pod, s1)"
    and policies: "ListComputeSentryPolicies (ClientF r) s1 = (Inr policies, s2)"
    and p: "firstMatching asSel (Labels pod) policies = Some p"
    and unwanted: "\<And>t pods t'. ListPodsOnNode (ClientF r) (NodeName pod) t = (Inr pods, t') \<Longrightarrow> \<not> taintWanted p pods"
  shows "nodes (snd (Reconcile r asSel ns name s)) = nodes s"
proof -
  let ?P = "\<lambda>N. N = nodes s" and ?n = "NodeName pod"
  have apply_d: "keeps (\<lambda>s. ?P (nodes s)) (applyDecision r ?n d)" if "\<not> ShouldTaint d" for d
    using that untaintNode_keeps [OF store, where P = ?P] by (simp add: applyDecision_def keeps_return)
  have rest: "hoare (\<lambda>t. ?P (nodes t))
      (handling (applyDecision r ?n d) fail (\<lambda>_. evictIfUnhealthy r asSel p pod)) (\<lambda>_ t. ?P (nodes t))"
    if "\<not> ShouldTaint d" for d
    using that unfolding keeps_def [symmetric] by (intro keeps_intros apply_d evictIfUnhealthy_leaves [OF store])
  have enabled: "hoare (\<lambda>t. ?P (nodes t)) (handling (evaluateNodeTaintDecision r ?n (Some p)) fail
      (\<lambda>d. handling (applyDecision r ?n d) fail (\<lambda>_. evictIfUnhealthy r asSel p pod))) (\<lambda>_ t. ?P (nodes t))"
  proof (rule hoare_handling [OF evaluate_unwanted [OF store unwanted, where P = ?P]])
    fix d
    show "hoare (\<lambda>t. ?P (nodes t) \<and> (\<forall>d'. Inr d = Inr d' \<longrightarrow> \<not> ShouldTaint d'))
        (handling (applyDecision r ?n d) fail (\<lambda>_. evictIfUnhealthy r asSel p pod)) (\<lambda>_ t. ?P (nodes t))"
      using hoare_weaken [OF rest [of d]] by (cases "ShouldTaint d") (simp_all add: hoare_def)
  qed (auto simp: hoare_def fail_def)
  have disabled: "hoare (\<lambda>t. ?P (nodes t))
      (handling (untaintNodeIfTaintedByUs r ?n) fail (\<lambda>_. return emptyResult)) (\<lambda>_ t. ?P (nodes t))"
    unfolding keeps_def [symmetric] by (intro keeps_intros untaintIfTainted_keeps [OF store])
  have "nodes s1 = nodes s" "nodes s2 = nodes s1"
    using store pod policies unfolding nodeStore_def leavesNodes_def by (metis snd_conv)+
  then have s2: "nodes s2 = nodes s" by simp
  let ?m = "if ?n = '''' then return emptyResult
      else if \<not> EnableTaint (ActionsF (Spec p)) then handling (untaintNodeIfTaintedByUs r ?n) fail (\<lambda>_. return emptyResult)
      else handling (evaluateNodeTaintDecision r ?n (Some p)) fail
        (\<lambda>d. handling (applyDecision r ?n d) fail (\<lambda>_. evictIfUnhealthy r asSel p pod))"
  have "findMatchingPolicy r asSel pod s1 = (Inr (Some p), s2)"
    using policies p by (simp add: findMatchingPolicy_def handling_def return_def)
  then have "Reconcile r asSel ns name s = ?m s2"
    using pod unfolding Reconcile_def by (simp add: handling_Inr)
  moreover have "keeps (\<lambda>t. ?P (nodes t)) ?m"
    using enabled disabled by (intro keeps_if keeps_return) (simp_all only: keeps_def)
  then have "?P (nodes (snd (?m s2)))" using s2 by (rule keepsD)
  ultimately show ?thesis by (simp only:)
qed

section \<open>An in-memory cluster\<close>

record Cluster =
  clPods :: "Pod list"
  clNodes :: "Node list"
  clPolicies :: "ComputeSentryPolicy list"

definition found :: "string \<Rightarrow> 'a option \<Rightarrow> goError + 'a" where
  "found what x = (case x of None \<Rightarrow> Inl (NotFoundError what) | Some a \<Rightarrow> Inr a)"

definition removePod :: "string \<Rightarrow> string \<Rightarrow> Cluster \<Rightarrow> Cluster" where
  "removePod ns n s = s\<lparr>clPods := filter (\<lambda>p. Namespace p \<noteq> ns \<or> Name p \<noteq> n) (clPods s)\<rparr>"

definition memNode :: "Cluster \<Rightarrow> string \<Rightarrow> Node option" where
  "memNode s n = List.find (\<lambda>x. NName x = n) (clNodes s)"

definition memClient :: "Cluster Client" where
  "memClient =
     \<lparr>GetPod = (\<lambda>ns n s. (found n (List.find (\<lambda>p. Namespace p = ns \<and> Name p = n) (clPods s)), s)),
      GetNode = (\<lambda>n s. (found n (memNode s n), s)),
      ListComputeSentryPolicies = (\<lambda>s. (Inr (clPolicies s), s)),
      ListPods = (\<lambda>sel s. (Inr (filter (\<lambda>p. case sel of None \<Rightarrow> True | Some f \<Rightarrow> f (Labels p)) (clPods s)), s)),
      ListPodsOnNode = (\<lambda>n s. (Inr (filter (\<lambda>p. NodeName p = n) (clPods s)), s)),
      PatchNode = (\<lambda>obj base s. (Inr (), s\<lparr>clNodes :=
        map (\<lambda>x. if NName x = NName obj then mergeTaints base obj x else x) (clNodes s)\<rparr>)),
      DeletePod = (\<lambda>p s. (Inr (), removePod (Namespace p) (Name p) s))\<rparr>"

definition memController :: "Cluster HealthController" where
  "memController =
     \<lparr>ClientF = memClient, K8sClient = Some (\<lambda>ns n s. (Inr (), removePod ns n s))\<rparr>"

lemma NName_mergeTaints [simp]: "NName (mergeTaints base obj x) = NName x"
  by (simp add: mergeTaints_def)

lemma find_map_update:
  "List.find (\<lambda>x. NName x = n)
     (map (\<lambda>x. if NName x = m then mergeTaints base obj x else x) xs) =
   (if n = m then map_option (mergeTaints base obj) (List.find (\<lambda>x. NName x = n) xs)
    else List.find (\<lambda>x. NName x = n) xs)"
  by (induction xs) auto

lemma find_Some_prop: "List.find P xs = Some x \<Longrightarrow> P x"
  by (auto simp: find_Some_iff)

lemma nodeStore_mem: "nodeStore memNode memController"
proof -
  have "mergePatches memNode (PatchNode memClient)"
    by (auto simp: mergePatches_def memClient_def memNode_def find_map_update fun_eq_iff)
  then show ?thesis
    by (auto simp: nodeStore_def memController_def memClient_def leavesNodes_def memNode_def found_def
        removePod_def split: option.splits dest: find_Some_prop)
qed

end
