(* ===== verification/Controller_Patches.thy ===== *)
theory Controller_Patches
  imports Controller_Log Controller_Nodes
begin

text \<open>
  Why the health controller patches a node: the calculus of \<open>Controller_Log\<close> applied to the node
  patches of \<open>Reconcile\<close>. A patch in the log rests on reads in the same log, so that a cluster whose
  nodes are as the policies want them is left alone.
\<close>

section \<open>What a node patch rests on\<close>

definition noPatch :: "Call list \<Rightarrow> bool" where
  "noPatch cs \<longleftrightarrow> (\<forall>c\<in>set cs. \<not> isPatch c)"

lemma noPatch_simps [simp]:
  "noPatch []" "noPatch (c # cs) \<longleftrightarrow> \<not> isPatch c \<and> noPatch cs" "noPatch (cs @ ds) \<longleftrightarrow> noPatch cs \<and> noPatch ds"
  by (auto simp: noPatch_def)

lemma mutations_noPatch: "mutations cs = [] \<Longrightarrow> noPatch cs"
  by (auto simp: mutations_def noPatch_def filter_empty_conv)

text \<open>
  \<open>decidedStage\<close>: the calls contain a node patch only if the node as read and the pods as listed call
  for one. \<open>cleanupStage\<close>: only if a tainted node was read.
\<close>

definition decidedStage :: "string \<Rightarrow> ComputeSentryPolicy \<Rightarrow> Call list \<Rightarrow> bool" where
  "decidedStage n p cs \<longleftrightarrow>
     noPatch cs \<or>
     (\<exists>node pods. CGetNode n (Inr node) \<in> set cs \<and> CListPodsOnNode n (Inr pods) \<in> set cs \<and>
        taintWanted p pods = (\<not> isTainted node))"

definition cleanupStage :: "string \<Rightarrow> Call list \<Rightarrow> bool" where
  "cleanupStage n cs \<longleftrightarrow> noPatch cs \<or> (\<exists>node. CGetNode n (Inr node) \<in> set cs \<and> isTainted node)"

lemma emits_any: "emits m Q \<Longrightarrow> emits m (\<lambda>x cs. True)"
  by (erule emits_weaken) simp

lemma emits_decided:
  "emits (evaluateNodeTaintDecision (logged r) n (Some p))
     (\<lambda>x cs. noPatch cs \<and> (\<forall>d. x = Inr d \<longrightarrow>
        (\<exists>node pods. CGetNode n (Inr node) \<in> set cs \<and> CListPodsOnNode n (Inr pods) \<in> set cs \<and>
           d = decideTaint (isTainted node) (aggregate pods) (Some p))))"
  unfolding evaluateNodeTaintDecision_def getNodePodsHealthStatus_def logged_simps
  by (auto intro!: emits_steps split: sum.split)

lemma emits_evict_noPatch: "emits (evictIfUnhealthy (logged r) asSel p pod) (\<lambda>x cs. noPatch cs)"
  by (rule emits_weaken [OF emits_evictIfUnhealthy]) (auto simp: mutations_noPatch)

lemma emits_apply_evict:
  assumes "\<not> ShouldTaint d \<and> \<not> ShouldUntaint d"
  shows "emits (handling (applyDecision (logged r) n d) fail (\<lambda>_. evictIfUnhealthy (logged r) asSel p pod))
    (\<lambda>x cs. noPatch cs)"
  using assms unfolding applyDecision_def
  by (auto intro!: emits_handling emits_return emits_evict_noPatch)

lemma emits_apply_any:
  "emits (handling (applyDecision (logged r) n d) fail (\<lambda>_. evictIfUnhealthy (logged r) asSel p pod)) (\<lambda>x cs. True)"
  by (intro emits_handling emits_weaken [OF emits_applyDecision])
    (auto intro!: emits_fail emits_any [OF emits_evictIfUnhealthy] split: sum.split)

lemma emits_decidedStage:
  "emits (handling (evaluateNodeTaintDecision (logged r) n (Some p)) fail
       (\<lambda>d. handling (applyDecision (logged r) n d) fail (\<lambda>_. evictIfUnhealthy (logged r) asSel p pod)))
     (\<lambda>x cs. decidedStage n p cs)"
proof -
  let ?rest = "\<lambda>d. handling (applyDecision (logged r) n d) fail (\<lambda>_. evictIfUnhealthy (logged r) asSel p pod)"
  have "emits (?rest (decideTaint (isTainted node) (aggregate pods) (Some p))) (\<lambda>x ds. decidedStage n p (cs @ ds))"
    if "noPatch cs" "CGetNode n (Inr node) \<in> set cs" "CListPodsOnNode n (Inr pods) \<in> set cs" for cs node pods
  proof (cases "taintWanted p pods = (\<not> isTainted node)")
    case True
    with that show ?thesis
      by (intro emits_weaken [OF emits_apply_any]) (auto simp: decidedStage_def)
  next
    case False
    then show ?thesis using that
      by (intro emits_weaken [OF emits_apply_evict]) (auto simp: decidedStage_def decideTaint_wanted)
  qed
  then show ?thesis
    by (intro emits_handling emits_weaken [OF emits_decided])
      (auto intro!: emits_fail simp: decidedStage_def split: sum.split)
qed

lemma emits_cleanupStage:
  "emits (handling (untaintNodeIfTaintedByUs (logged r) n) fail (\<lambda>_. return emptyResult))
     (\<lambda>x cs. cleanupStage n cs)"
proof -
  have "emits (untaintNodeIfTaintedByUs (logged r) n) (\<lambda>x cs. cleanupStage n cs)"
    unfolding untaintNodeIfTaintedByUs_def logged_simps
    by (auto intro!: emits_steps emits_weaken [OF emits_any [OF emits_untaintNode]]
        simp: cleanupStage_def split: sum.split)
  then show ?thesis
    by (intro emits_handling) (erule emits_weaken, auto intro!: emits_steps split: sum.split)
qed

definition patchesJustified :: "asSelector \<Rightarrow> string \<Rightarrow> string \<Rightarrow> Call list \<Rightarrow> bool" where
  "patchesJustified asSel ns name cs \<longleftrightarrow>
     noPatch cs \<or>
     (\<exists>pod policies. CGetPod ns name (Inr pod) \<in> set cs \<and> CListPolicies (Inr policies) \<in> set cs \<and>
        (case firstMatching asSel (Labels pod) policies of
           None \<Rightarrow> cleanupStage (NodeName pod) cs
         | Some p \<Rightarrow> if EnableTaint (ActionsF (Spec p)) then decidedStage (NodeName pod) p cs
                     else cleanupStage (NodeName pod) cs))"

lemma stage_Cons:
  "\<not> isPatch c \<Longrightarrow> decidedStage n p cs \<Longrightarrow> decidedStage n p (c # cs)"
  "\<not> isPatch c \<Longrightarrow> cleanupStage n cs \<Longrightarrow> cleanupStage n (c # cs)"
  by (auto simp: decidedStage_def cleanupStage_def)

lemma emits_patchesJustified:
  "emits (Reconcile (logged r) asSel ns name) (\<lambda>x cs. patchesJustified asSel ns name cs)"
proof -
  have step: "patchesJustified asSel ns name (CGetPod ns name (Inr pod) # CListPolicies (Inr ps) # cs)"
    if "case firstMatching asSel (Labels pod) ps of
           None \<Rightarrow> cleanupStage (NodeName pod) cs
         | Some p \<Rightarrow> if EnableTaint (ActionsF (Spec p)) then decidedStage (NodeName pod) p cs
                     else cleanupStage (NodeName pod) cs" for pod ps cs
    unfolding patchesJustified_def using that
    by (intro disjI2 exI [of _ pod] exI [of _ ps])
      (auto simp: stage_Cons split: option.splits if_splits)
  have quiet: "patchesJustified asSel ns name [CGetPod ns name x]"
    "patchesJustified asSel ns name [CGetPod ns name x, CListPolicies y]" for x y
    by (simp_all add: patchesJustified_def)
  show ?thesis
    unfolding Reconcile_def logged_simps
    by (intro emits_handling_logAct emits_handling_find)
      (auto intro!: emits_return emits_fail quiet emits_weaken [OF emits_cleanupStage] step
        emits_weaken [OF emits_decidedStage] split: option.split)
qed

end
