(* ===== verification/Health_Controller_Props.thy ===== *)
theory Health_Controller_Props
  imports Controller_Patches
begin

text \<open>
  Correctness of the health controller's decisions: the two floating-point comparisons against exact
  arithmetic, the taint decision against its specification, and the effect of \<open>Reconcile\<close> on the API
  server, stated over every server through the log of the calls it receives and, where the outcome
  on the server matters, over every server that stores nodes and applies merge patches.
\<close>

section \<open>The floating-point comparisons\<close>

lemma float64_nat: "n < 2 ^ 53 \<Longrightarrow> float64 (int n) = of_nat n"
  by (simp add: float64_exact)

lemma abs_error_of_relative:
  fixes v r e d :: rat
  assumes "r * (1 - e) \<le> v" "v \<le> r * (1 + e)" "r * e \<le> d"
  shows "\<bar>v - r\<bar> \<le> d"
  using assms by (simp add: algebra_simps abs_le_iff)

lemma ratio_gap:
  fixes a b n :: rat
  assumes "0 < n"
  shows "a * n + 1 \<le> b \<Longrightarrow> a + 1 / n \<le> b / n" and "b + 1 \<le> a * n \<Longrightarrow> b / n + 1 / n \<le> a"
  using assms by (simp_all add: pos_le_divide_eq distrib_right add_divide_distrib [symmetric] pos_divide_le_eq)

lemma ratio_exact:
  assumes "0 < n" "n \<le> 2 ^ 50" "u \<le> n"
  shows "roundf (1 / 20) < fdiv (float64 (int u)) (float64 (int n)) \<longleftrightarrow> n < 20 * u"
proof -
  let ?x = "of_nat u / of_nat n :: rat"
  have fx: "fdiv (float64 (int u)) (float64 (int n)) = roundf ?x"
    using assms by (simp add: fdiv_def float64_nat)
  have n: "(0::rat) < of_nat n" "of_nat n \<le> (2::rat) ^ 50"
    using assms(1,2) of_nat_le_iff [where 'a = rat, of n "2 ^ 50"] by simp_all
  consider (above) "n + 1 \<le> 20 * u" | (same) "n = 20 * u" | (below) "20 * u + 1 \<le> n"
    by linarith
  then show ?thesis
  proof cases
    case above
    then have "of_nat n + 1 \<le> 20 * (of_nat u :: rat)"
      using of_nat_le_iff [where 'a = rat, of "n + 1" "20 * u"] by simp
    with n have "1 / 20 * (1 + 1 / 2 ^ 50) \<le> ?x" by (simp add: field_simps)
    then have "roundf (1 / 20) < roundf ?x" by (intro roundf_less) simp
    with above show ?thesis by (simp add: fx)
  next
    case same
    with assms(1) have x: "?x = 1 / 20" by simp
    show ?thesis unfolding fx x using same by simp
  next
    case below
    have "\<not> roundf (1 / 20) < roundf ?x"
    proof (cases "u = 0")
      case True
      then show ?thesis using roundf_nonneg [of "1 / 20"] by (simp add: roundf_def)
    next
      case False
      have "20 * of_nat u + 1 \<le> (of_nat n :: rat)"
        using below of_nat_le_iff [where 'a = rat, of "20 * u + 1" n] by simp
      with n have "?x * (1 + 1 / 2 ^ 50) \<le> 1 / 20" by (simp add: field_simps)
      moreover have "0 < ?x" using False assms(1) by simp
      ultimately have "roundf ?x < roundf (1 / 20)" by (intro roundf_less)
      then show ?thesis by simp
    qed
    with below show ?thesis by (simp add: fx)
  qed
qed

lemma percentage_error:
  assumes "0 < n" "n \<le> 2 ^ 50" "u \<le> n"
  shows "\<bar>fmul (fdiv (float64 (int u)) (float64 (int n))) 100 - 100 * of_nat u / of_nat n\<bar> \<le> 100 / 2 ^ 51"
proof -
  let ?r = "of_nat u / of_nat n * 100 :: rat"
  have n: "(0::rat) < of_nat n" using assms(1) by simp
  have f: "float64 (int u) = of_nat u" "float64 (int n) = of_nat n"
    using assms by (simp_all add: float64_nat)
  have "?r * (1 / 2 ^ 51) \<le> 100 / 2 ^ 51"
    using assms(3) n by (simp add: field_simps)
  then have "\<bar>fmul (fdiv (of_nat u) (of_nat n)) 100 - ?r\<bar> \<le> 100 / 2 ^ 51"
    by (intro abs_error_of_relative [of _ "1 / 2 ^ 51"] fmul_fdiv_between n) simp_all
  then show ?thesis by (simp only: f mult.commute times_divide_eq_left)
qed

lemma percentage_exact:
  assumes "0 < n" "n \<le> 2 ^ 40" "u \<le> n" "\<bar>p\<bar> < 2 ^ 53" "100 * int u \<noteq> p * int n"
  shows "float64 p \<le> fmul (fdiv (float64 (int u)) (float64 (int n))) 100 \<longleftrightarrow> p * int n \<le> 100 * int u"
proof -
  let ?v = "fmul (fdiv (float64 (int u)) (float64 (int n))) 100" and ?w = "100 * of_nat u / of_nat n :: rat"
  have n: "(0::rat) < of_nat n" using assms(1) by simp
  have "(of_nat n :: rat) \<le> 2 ^ 40"
    using assms(2) of_nat_le_iff [where 'a = rat, of n "2 ^ 40"] by simp
  then have gap: "100 / 2 ^ 51 < 1 / (of_nat n :: rat)" using n by (simp add: field_simps)
  have err: "\<bar>?v - ?w\<bar> \<le> 100 / 2 ^ 51" using assms by (intro percentage_error) simp_all
  have p: "float64 p = of_int p" using assms(4) by (rule float64_exact)
  show ?thesis
  proof (cases "p * int n \<le> 100 * int u")
    case True
    with assms(5) have "p * int n + 1 \<le> 100 * int u" by simp
    then have "of_int p * of_nat n + 1 \<le> 100 * (of_nat u :: rat)"
      using of_int_le_iff [where 'a = rat, of "p * int n + 1" "100 * int u"] by simp
    then have "of_int p + 1 / of_nat n \<le> ?w" by (rule ratio_gap(1) [OF n])
    with gap err have "of_int p \<le> ?v" unfolding abs_le_iff by linarith
    with True show ?thesis by (simp add: p)
  next
    case False
    then have "100 * int u + 1 \<le> p * int n" by simp
    then have "100 * of_nat u + 1 \<le> of_int p * (of_nat n :: rat)"
      using of_int_le_iff [where 'a = rat, of "100 * int u + 1" "p * int n"] by simp
    then have "?w + 1 / of_nat n \<le> of_int p" by (rule ratio_gap(2) [OF n])
    with gap err have "?v < of_int p" unfolding abs_le_iff by linarith
    with False show ?thesis by (simp add: p)
  qed
qed

lemma percentage_29_of_50: "fmul (roundf (29 / 50)) 100 < float64 58"
proof -
  have "roundf (29 / 50) = of_int 5224175567749775 * 2 powi (- 1 - 52)"
    by (rule roundf_eval) (simp_all add: power_int_minus)
  then have q: "roundf (29 / 50) = 5224175567749775 / 2 ^ 53" by (simp add: power_int_minus)
  have "roundf (5224175567749775 / 2 ^ 53 * 100) = of_int 8162774324609023 * 2 powi (5 - 52)"
    by (rule roundf_eval) (simp_all add: power_int_minus)
  then show ?thesis unfolding q by (simp add: fmul_def float64_exact power_int_minus)
qed

lemma sint32_lt: "\<bar>sint (w :: int32)\<bar> < 2 ^ 53"
  using sint_ge [of w] sint_lt [of w] by simp

text \<open>The threshold test in exact arithmetic.\<close>

definition meetsExactly :: "NodeTaintThreshold \<Rightarrow> Pod list \<Rightarrow> bool" where
  "meetsExactly threshold pods \<longleftrightarrow>
     (\<exists>n. MinUnhealthyPodsCount threshold = Some n \<and> sint n \<le> int (countUnhealthy pods)) \<or>
     (\<exists>pct. MinUnhealthyPodsPercentage threshold = Some pct \<and> pods \<noteq> [] \<and>
        sint pct * int (length pods) \<le> 100 * int (countUnhealthy pods))"

lemma meetsThreshold_exact:
  assumes "length pods \<le> 2 ^ 40"
    and "\<And>pct. MinUnhealthyPodsPercentage threshold = Some pct \<Longrightarrow>
      100 * int (countUnhealthy pods) \<noteq> sint pct * int (length pods)"
  shows "meetsThreshold threshold (aggregate pods) \<longleftrightarrow> meetsExactly threshold pods"
proof -
  have "float64 (sint pct) \<le>
        fmul (fdiv (float64 (int (countUnhealthy pods))) (float64 (int (length pods)))) 100 \<longleftrightarrow>
      sint pct * int (length pods) \<le> 100 * int (countUnhealthy pods)"
    if "MinUnhealthyPodsPercentage threshold = Some pct" "pods \<noteq> []" for pct
    using that assms by (intro percentage_exact sint32_lt) (simp_all add: countUnhealthy_def)
  then show ?thesis
    by (auto simp: meetsThreshold_def meetsExactly_def aggregate_counts split: option.split)
qed

lemma throttleVerdict_exact:
  assumes "n \<le> 2 ^ 50" "u \<le> n"
  shows "throttleVerdict u n = None \<longleftrightarrow> u \<le> 1 \<or> 20 * u \<le> n"
proof (cases "n = 0")
  case False
  then have "roundf (1 / 20) < fdiv (float64 (int u)) (float64 (int n)) \<longleftrightarrow> n < 20 * u"
    using assms by (intro ratio_exact) simp_all
  with False show ?thesis by (auto simp: throttleVerdict_def Let_def)
qed (use assms in \<open>simp add: throttleVerdict_def\<close>)

lemma countUnhealthy_le: "countUnhealthy pods \<le> length pods"
  by (simp add: countUnhealthy_def)

lemma nodeStage_no_eviction: "nodeStage n cs \<Longrightarrow> c \<in> set cs \<Longrightarrow> \<not> isEviction c"
proof
  assume "nodeStage n cs" "c \<in> set cs" "isEviction c"
  moreover from this have "c \<in> set (mutations cs)" by (simp add: mutations_def)
  ultimately show False by (auto simp: nodeStage_def taintPatch_def)
qed

section \<open>Sample objects\<close>

definition clusterPod :: "string \<Rightarrow> bool \<Rightarrow> Pod" where
  "clusterPod n sick =
     \<lparr>Name = n, Namespace = ''ns'', Labels = [(''app'', ''train'')],
      Annotations = Some [(healthAnnotationKey, if sick then ''unhealthy'' else ''healthy'')],
      NodeName = ''n1'', Containers = [], InitContainers = [], Volumes = []\<rparr>"

definition clusterPolicy :: "NodeTaintThreshold option \<Rightarrow> ComputeSentryPolicy" where
  "clusterPolicy threshold =
     \<lparr>PolicyName = ''pol'', PolicyNamespace = ''ns'',
      Spec = \<lparr>Selector = \<lparr>MatchLabels = [(''app'', ''train'')], MatchExpressions = []\<rparr>,
        SpyConfigF = \<lparr>Enabled = True\<rparr>, ThresholdsF = zeroThresholds, EvalConfigF = zeroEvalConfig,
        ActionsF = \<lparr>EnableTaint = True, EnableEvict = True, NodeTaintThresholdF = threshold\<rparr>\<rparr>\<rparr>"

text \<open>A selector that requires its labels; enough for selectors without expressions.\<close>

definition requireLabels :: asSelector where
  "requireLabels s = Inr (\<lambda>ls. list_all (\<lambda>(k, v). map_of ls k = Some v) (MatchLabels s))"

definition sampleCluster :: Cluster where
  "sampleCluster =
     \<lparr>clPods = [clusterPod ''p'' True, clusterPod ''q'' False],
      clNodes = [\<lparr>NName = ''n1'', NLabels = [], Taints = []\<rparr>],
      clPolicies = [clusterPolicy None]\<rparr>"

lemmas sample_simps =
  sampleCluster_def clusterPod_def clusterPolicy_def requireLabels_def memController_def memClient_def
  memNode_def found_def isUnhealthy_def annotation_def countUnhealthy_def healthAnnotationKey_def
  handling_def return_def fail_def

lemma sample_run:
  "\<exists>s' calls. Reconcile (logged memController) requireLabels ''ns'' ''p'' (sampleCluster, []) =
     (Inr emptyResult, s', calls) \<and> CEvict ''ns'' ''p'' (Inr ()) \<in> set calls"
  unfolding operation_defs logged_simps logAct_def
  by (simp add: sample_simps aggregate_def decideTaint_def isTainted_def noChange_def throttleVerdict_def)

text \<open>The witness cluster has only unhealthy pods on its node, so that every listing meets the criterion.\<close>

definition alwaysSick :: "Cluster HealthController" where
  "alwaysSick = memController\<lparr>ClientF := memClient\<lparr>ListPodsOnNode := (\<lambda>n s. (Inr [clusterPod ''p'' True], s))\<rparr>\<rparr>"

lemma nodeStore_alwaysSick: "nodeStore memNode alwaysSick"
  using nodeStore_mem by (simp add: alwaysSick_def nodeStore_def memController_def leavesNodes_def)

section \<open>Properties\<close>

text \<open>
  C2. A pod is evicted (or deleted, without a clientset) only for cause. For every API server and
  every run of \<open>Reconcile\<close>, if the run makes an eviction call then the call is the last one and the
  only eviction of the run, it names the pod that the run read, that pod is annotated as unhealthy,
  the first listed policy that selects the pod enables both taint and eviction, and directly before
  the eviction the run listed the pods that this policy's selector selects and found at most one of them, or at most five
  percent of them, unhealthy (for lists of up to \<open>2 ^ 50\<close> pods, where the code's floating-point ratio
  decides this exactly).
\<close>

theorem eviction_is_justified:
  assumes "Reconcile (logged r) asSel ns name (s, []) = (res, s', calls)"
    and "c \<in> set calls" and "isEviction c"
  shows "\<exists>pod pre sel pods policies p.
      calls = CGetPod ns name (Inr pod) # pre @ [CListPods (Some sel) (Inr pods), c] \<and>
      asSel (Selector (Spec p)) = Inr sel \<and>
      (\<forall>d\<in>set pre. \<not> isEviction d) \<and> evicts pod c \<and>
      annotation pod ''compute-sentry.aiguard.io/health'' = Some ''unhealthy'' \<and>
      CListPolicies (Inr policies) \<in> set pre \<and>
      List.find (selects asSel (Labels pod)) policies = Some p \<and>
      EnableTaint (ActionsF (Spec p)) \<and> EnableEvict (ActionsF (Spec p)) \<and>
      (length pods \<le> 2 ^ 50 \<longrightarrow> countUnhealthy pods \<le> 1 \<or> 20 * countUnhealthy pods \<le> length pods)"
proof -
  have "reconcileTrace asSel ns name calls" using emits_Reconcile assms(1) by (rule emitsD)
  with assms(2,3) obtain pod ds es where
    calls: "calls = CGetPod ns name (Inr pod) # ds @ es" and
    ds: "nodeStage (NodeName pod) ds" and es: "evictStage asSel pod ds es"
    unfolding reconcileTrace_def by auto
  have quiet: "\<forall>d\<in>set ds. \<not> isEviction d" using nodeStage_no_eviction [OF ds] by blast
  with assms(2,3) calls have c: "c \<in> set es" by auto
  with assms(3) have "mutations es \<noteq> []" by (auto simp: mutations_def filter_empty_conv)
  with es obtain pods d policies p where
    "es = [CListPods (policySelector asSel p) (Inr pods), d]" "evicts pod d" "isUnhealthy pod"
    "CListPolicies (Inr policies) \<in> set ds" "firstMatching asSel (Labels pod) policies = Some p"
    "EnableTaint (ActionsF (Spec p))" "EnableEvict (ActionsF (Spec p))"
    "throttleVerdict (countUnhealthy pods) (length pods) = None"
    unfolding evictStage_def by auto
  moreover from this obtain sel where "asSel (Selector (Spec p)) = Inr sel" "policySelector asSel p = Some sel"
    using controller.lookup_Some_iff [of asSel "Labels pod" policies p]
    by (auto simp: selects_def policySelector_def split: sum.splits)
  moreover from calculation have "d = c" using c assms(3) by auto
  moreover have "length pods \<le> 2 ^ 50 \<longrightarrow> countUnhealthy pods \<le> 1 \<or> 20 * countUnhealthy pods \<le> length pods"
    using \<open>throttleVerdict _ _ = None\<close> throttleVerdict_exact [OF _ countUnhealthy_le] by blast
  ultimately show ?thesis
    using calls quiet
    by (intro exI [of _ pod] exI [of _ ds] exI [of _ sel] exI [of _ pods] exI [of _ policies] exI [of _ p])
      (simp add: isUnhealthy_def healthAnnotationKey_def controller.lookup_find)
qed

theorem eviction_is_justified_witness:
  "\<exists>s' calls c. Reconcile (logged memController) requireLabels ''ns'' ''p'' (sampleCluster, []) =
     (Inr emptyResult, s', calls) \<and> c \<in> set calls \<and> isEviction c \<and>
     (\<exists>pod pre sel pods. calls = CGetPod ''ns'' ''p'' (Inr pod) # pre @ [CListPods (Some sel) (Inr pods), c] \<and>
        annotation pod ''compute-sentry.aiguard.io/health'' = Some ''unhealthy'')"
proof -
  obtain s' calls where run: "Reconcile (logged memController) requireLabels ''ns'' ''p'' (sampleCluster, []) =
      (Inr emptyResult, s', calls)" and c: "CEvict ''ns'' ''p'' (Inr ()) \<in> set calls"
    using sample_run by blast
  have "isEviction (CEvict ''ns'' ''p'' (Inr ()))" by simp
  with eviction_is_justified [OF run c] run c show ?thesis by blast
qed

text \<open>
  C22. What a run of \<open>Reconcile\<close> changes on the server, for every server: at most one node patch,
  followed by at most one eviction, and nothing else. The patch is of the node on which the pod
  that the run read is scheduled, and its object and its base are that node as the run read it and
  that node with the sentry's taint appended or removed.
\<close>

theorem reconcile_mutations:
  assumes "Reconcile (logged r) asSel ns name (s, []) = (res, s', calls)"
  shows "\<exists>patches evictions. mutations calls = patches @ evictions \<and>
      length patches \<le> 1 \<and> length evictions \<le> 1 \<and>
      (\<forall>c\<in>set evictions. isEviction c) \<and>
      (\<forall>c\<in>set patches. \<exists>pod node.
         CGetPod ns name (Inr pod) \<in> set calls \<and> CGetNode (NodeName pod) (Inr node) \<in> set calls \<and>
         taintPatch node c)"
proof -
  have "reconcileTrace asSel ns name calls" using emits_Reconcile assms(1) by (rule emitsD)
  then consider (none) "mutations calls = []"
    | (some) pod ds es where "calls = CGetPod ns name (Inr pod) # ds @ es"
        "nodeStage (NodeName pod) ds" "evictStage asSel pod ds es"
    unfolding reconcileTrace_def by fastforce
  then show ?thesis
  proof cases
    case none
    then show ?thesis by auto
  next
    case some
    have "length (mutations es) \<le> 1 \<and> (\<forall>c\<in>set (mutations es). isEviction c)"
      using some(3) by (auto simp: evictStage_def)
    moreover have "length (mutations ds) \<le> 1 \<and> (\<forall>c\<in>set (mutations ds). \<exists>node.
        CGetNode (NodeName pod) (Inr node) \<in> set calls \<and> taintPatch node c)"
      using some(1,2) by (auto simp: nodeStage_def)
    ultimately show ?thesis
      using some(1) by (intro exI [of _ "mutations ds"] exI [of _ "mutations es"]) auto
  qed
qed

theorem reconcile_mutations_witness:
  "\<exists>s' calls patches evictions. Reconcile (logged memController) requireLabels ''ns'' ''p'' (sampleCluster, []) =
     (Inr emptyResult, s', calls) \<and> mutations calls = patches @ evictions \<and>
     length patches \<le> 1 \<and> length evictions \<le> 1"
proof -
  obtain s' calls where run: "Reconcile (logged memController) requireLabels ''ns'' ''p'' (sampleCluster, []) =
      (Inr emptyResult, s', calls)"
    using sample_run by blast
  with reconcile_mutations [OF run] show ?thesis by blast
qed

text \<open>
  C10. A node is patched only for cause, and a node that is as it should be is left alone. For every API
  server and every run of \<open>Reconcile\<close>, if the run patches a node then it has read that pod, the
  policies and a node of the pod's node name, and: if the first policy that selects the pod enables
  tainting, the run has also listed the pods of the node, and the policy's criterion on them and the
  taint of the node disagree; otherwise the node was tainted.
\<close>

theorem node_patch_is_justified:
  assumes "Reconcile (logged r) asSel ns name (s, []) = (res, s', calls)"
    and "CPatchNode obj base out \<in> set calls"
  shows "\<exists>pod policies node.
      CGetPod ns name (Inr pod) \<in> set calls \<and> CListPolicies (Inr policies) \<in> set calls \<and>
      CGetNode (NodeName pod) (Inr node) \<in> set calls \<and>
      (case List.find (selects asSel (Labels pod)) policies of
         Some p \<Rightarrow>
           if EnableTaint (ActionsF (Spec p))
           then \<exists>pods. CListPodsOnNode (NodeName pod) (Inr pods) \<in> set calls \<and>
             taintWanted p pods = (\<not> isTainted node)
           else isTainted node
       | None \<Rightarrow> isTainted node)"
proof -
  have "patchesJustified asSel ns name calls" using emits_patchesJustified assms(1) by (rule emitsD)
  moreover have patch: "\<not> noPatch calls" using assms(2) by (force simp: noPatch_def)
  ultimately obtain pod policies where read: "CGetPod ns name (Inr pod) \<in> set calls"
      "CListPolicies (Inr policies) \<in> set calls"
    and stage: "case firstMatching asSel (Labels pod) policies of
        None \<Rightarrow> cleanupStage (NodeName pod) calls
      | Some p \<Rightarrow> if EnableTaint (ActionsF (Spec p)) then decidedStage (NodeName pod) p calls
                  else cleanupStage (NodeName pod) calls"
    unfolding patchesJustified_def by blast
  have "\<exists>node. CGetNode (NodeName pod) (Inr node) \<in> set calls \<and>
      (case firstMatching asSel (Labels pod) policies of
         Some p \<Rightarrow>
           if EnableTaint (ActionsF (Spec p))
           then \<exists>pods. CListPodsOnNode (NodeName pod) (Inr pods) \<in> set calls \<and>
             taintWanted p pods = (\<not> isTainted node)
           else isTainted node
       | None \<Rightarrow> isTainted node)"
    using stage patch
    by (cases "firstMatching asSel (Labels pod) policies")
      (auto simp: decidedStage_def cleanupStage_def split: if_splits)
  with read show ?thesis unfolding controller.lookup_find by blast
qed

theorem node_patch_is_justified_witness:
  "\<exists>s' calls obj base pod node pods. Reconcile (logged memController) requireLabels ''ns'' ''p'' (sampleCluster, []) =
     (Inr emptyResult, s', calls) \<and> CPatchNode obj base (Inr ()) \<in> set calls \<and>
     CGetPod ''ns'' ''p'' (Inr pod) \<in> set calls \<and> CGetNode (NodeName pod) (Inr node) \<in> set calls"
proof -
  have "\<exists>s' calls obj base. Reconcile (logged memController) requireLabels ''ns'' ''p'' (sampleCluster, []) =
     (Inr emptyResult, s', calls) \<and> CPatchNode obj base (Inr ()) \<in> set calls"
    unfolding operation_defs logged_simps logAct_def
    by (simp add: sample_simps aggregate_def decideTaint_def isTainted_def noChange_def throttleVerdict_def)
  then obtain s' calls obj base where run:
    "Reconcile (logged memController) requireLabels ''ns'' ''p'' (sampleCluster, []) = (Inr emptyResult, s', calls)"
    "CPatchNode obj base (Inr ()) \<in> set calls" by blast
  with node_patch_is_justified [OF run] show ?thesis by blast
qed

text \<open>
  C23. The throttle is exact: when the pods that the policy selects can be listed (up to \<open>2 ^ 50\<close> of
  them), \<open>checkEvictionThrottling\<close> lets the eviction pass exactly when at most one of the pods is
  unhealthy or at most five percent of them are, although the code compares the floating-point
  quotient with the floating-point constant \<open>0.05\<close>.
\<close>

theorem throttling_exact:
  assumes "asSel (Selector (Spec policy)) = Inr sel"
    and "ListPods (ClientF r) (Some sel) s = (Inr pods, s')"
    and "length pods \<le> 2 ^ 50"
  shows "checkEvictionThrottling r asSel policy s = (Inr (), s') \<longleftrightarrow>
      countUnhealthy pods \<le> 1 \<or> 20 * countUnhealthy pods \<le> length pods"
  using throttleVerdict_exact [OF assms(3) countUnhealthy_le] assms(1,2)
  by (auto simp: checkEvictionThrottling_def handling_def return_def fail_def split: option.splits)

theorem throttling_exact_witness:
  "checkEvictionThrottling memController requireLabels (clusterPolicy None) sampleCluster =
     (Inr (), sampleCluster)"
  using throttling_exact [of requireLabels "clusterPolicy None"
      "\<lambda>ls. list_all (\<lambda>(k, v). map_of ls k = Some v) [(''app'', ''train'')]" memController sampleCluster
      "clPods sampleCluster" sampleCluster]
  by (simp add: sample_simps)

text \<open>
  C9. The taint decision meets its specification. On every server, when the node and the pods on it
  can be read (up to \<open>2 ^ 40\<close> pods, and not exactly at the percentage threshold),
  \<open>evaluateNodeTaintDecision\<close> asks to taint exactly when the policy's criterion holds and the node
  does not carry the taint, and to untaint exactly when it fails and the node carries the taint. The
  criterion is one unhealthy pod, or, with a threshold, enough unhealthy pods by number or by
  percentage in exact arithmetic.
\<close>

theorem taint_decision_spec:
  assumes "GetNode (ClientF r) n s = (Inr node, s1)"
    and "ListPodsOnNode (ClientF r) n s1 = (Inr pods, s2)"
    and "length pods \<le> 2 ^ 40"
    and "\<forall>threshold pct. NodeTaintThresholdF (ActionsF (Spec p)) = Some threshold \<longrightarrow>
      MinUnhealthyPodsPercentage threshold = Some pct \<longrightarrow>
      100 * int (countUnhealthy pods) \<noteq> sint pct * int (length pods)"
  shows "\<exists>d. evaluateNodeTaintDecision r n (Some p) s = (Inr d, s2) \<and>
      (let wanted = (case NodeTaintThresholdF (ActionsF (Spec p)) of
           None \<Rightarrow> list_ex isUnhealthy pods
         | Some threshold \<Rightarrow> meetsExactly threshold pods) in
       ShouldTaint d = (wanted \<and> \<not> isTainted node) \<and> ShouldUntaint d = (\<not> wanted \<and> isTainted node))"
proof -
  have "taintWanted p pods \<longleftrightarrow> (case NodeTaintThresholdF (ActionsF (Spec p)) of
      None \<Rightarrow> list_ex isUnhealthy pods | Some threshold \<Rightarrow> meetsExactly threshold pods)"
    using meetsThreshold_exact [OF assms(3)] assms(4) by (simp add: taintWanted_def split: option.split)
  with assms(1,2) show ?thesis
    by (simp add: evaluateNodeTaintDecision_def getNodePodsHealthStatus_def handling_def return_def
        decideTaint_wanted Let_def)
qed

theorem taint_decision_spec_witness:
  "\<exists>d. evaluateNodeTaintDecision memController ''n1''
        (Some (clusterPolicy (Some \<lparr>MinUnhealthyPodsCount = None, MinUnhealthyPodsPercentage = Some 40\<rparr>)))
        sampleCluster = (Inr d, sampleCluster) \<and> ShouldTaint d \<and> \<not> ShouldUntaint d"
  using taint_decision_spec [of memController "''n1''" sampleCluster "hd (clNodes sampleCluster)" sampleCluster
      "clPods sampleCluster" sampleCluster
      "clusterPolicy (Some \<lparr>MinUnhealthyPodsCount = None, MinUnhealthyPodsPercentage = Some 40\<rparr>)"]
  by (simp add: sample_simps meetsExactly_def isTainted_def)

lemma percentage_58_missed:
  assumes "100 * countUnhealthy pods = 58 * length pods" "pods \<noteq> []" "length pods \<le> 2 ^ 50"
  shows "fmul (fdiv (float64 (int (countUnhealthy pods))) (float64 (int (length pods)))) 100 < float64 58"
proof -
  have "(0::rat) < of_nat (length pods)" using assms(2) by simp
  moreover have "100 * of_nat (countUnhealthy pods) = (58 * of_nat (length pods) :: rat)"
    using arg_cong [OF assms(1), of "of_nat :: nat \<Rightarrow> rat"] by simp
  ultimately have ratio: "of_nat (countUnhealthy pods) / of_nat (length pods) = (29 / 50 :: rat)"
    by (simp add: field_simps)
  have "float64 (int (countUnhealthy pods)) = of_nat (countUnhealthy pods)"
    "float64 (int (length pods)) = of_nat (length pods)"
    using assms(3) countUnhealthy_le [of pods] by (simp_all add: float64_nat)
  then have "fdiv (float64 (int (countUnhealthy pods))) (float64 (int (length pods))) = roundf (29 / 50)"
    by (simp only: fdiv_def ratio)
  then show ?thesis using percentage_29_of_50 by simp
qed

text \<open>
  C40. At the percentage threshold itself the floating-point test can fail. On every server that stores
  nodes and applies merge patches, if the first policy that selects the pod asks for 58 percent and for
  no count, and in every listing of the pod's node exactly 58 percent of the pods are unhealthy (29 of
  50, or any multiple up to \<open>2 ^ 50\<close> pods), then the criterion holds in exact arithmetic, but the run of
  \<open>Reconcile\<close> changes no node, so that an untainted node stays untainted, whatever the run returns.
\<close>

theorem percentage_threshold_missed:
  assumes "nodeStore nodes r"
    and "GetPod (ClientF r) ns name s = (Inr pod, s1)"
    and "ListComputeSentryPolicies (ClientF r) s1 = (Inr policies, s2)"
    and "List.find (selects asSel (Labels pod)) policies = Some p"
    and "NodeTaintThresholdF (ActionsF (Spec p)) =
      Some \<lparr>MinUnhealthyPodsCount = None, MinUnhealthyPodsPercentage = Some 58\<rparr>"
    and "\<forall>t pods t'. ListPodsOnNode (ClientF r) (NodeName pod) t = (Inr pods, t') \<longrightarrow>
      pods \<noteq> [] \<and> length pods \<le> 2 ^ 50 \<and> 100 * countUnhealthy pods = 58 * length pods"
  shows "nodes (snd (Reconcile r asSel ns name s)) = nodes s \<and>
    (\<forall>t pods t'. ListPodsOnNode (ClientF r) (NodeName pod) t = (Inr pods, t') \<longrightarrow>
       meetsExactly \<lparr>MinUnhealthyPodsCount = None, MinUnhealthyPodsPercentage = Some 58\<rparr> pods)"
proof
  have missed: "\<not> taintWanted p pods"
    if "ListPodsOnNode (ClientF r) (NodeName pod) t = (Inr pods, t')" for t pods t'
  proof -
    have "100 * countUnhealthy pods = 58 * length pods" "pods \<noteq> []" "length pods \<le> 2 ^ 50"
      using assms(6) that by blast+
    from percentage_58_missed [OF this] show ?thesis
      by (simp add: taintWanted_def assms(5) meetsThreshold_def aggregate_counts not_le)
  qed
  have "firstMatching asSel (Labels pod) policies = Some p" using assms(4) by (simp add: controller.lookup_find)
  then show "nodes (snd (Reconcile r asSel ns name s)) = nodes s"
    by (rule Reconcile_leaves_nodes [OF assms(1-3) _ missed])
  show "\<forall>t pods t'. ListPodsOnNode (ClientF r) (NodeName pod) t = (Inr pods, t') \<longrightarrow>
      meetsExactly \<lparr>MinUnhealthyPodsCount = None, MinUnhealthyPodsPercentage = Some 58\<rparr> pods"
    using assms(6) by (fastforce simp: meetsExactly_def)
qed

definition fiftyPods :: "Pod list" where
  "fiftyPods = replicate 29 (clusterPod ''p'' True) @ replicate 21 (clusterPod ''q'' False)"

definition fiftyController :: "Cluster HealthController" where
  "fiftyController = memController\<lparr>ClientF := memClient\<lparr>ListPodsOnNode := (\<lambda>n s. (Inr fiftyPods, s))\<rparr>\<rparr>"

lemma nodeStore_fifty: "nodeStore memNode fiftyController"
  using nodeStore_mem by (simp add: fiftyController_def nodeStore_def memController_def leavesNodes_def)

theorem percentage_threshold_missed_witness:
  "let p = clusterPolicy (Some \<lparr>MinUnhealthyPodsCount = None, MinUnhealthyPodsPercentage = Some 58\<rparr>);
       s = sampleCluster\<lparr>clPods := fiftyPods, clPolicies := [p]\<rparr>
   in memNode (snd (Reconcile fiftyController requireLabels ''ns'' ''p'' s)) ''n1'' =
        Some \<lparr>NName = ''n1'', NLabels = [], Taints = []\<rparr>"
proof -
  let ?p = "clusterPolicy (Some \<lparr>MinUnhealthyPodsCount = None, MinUnhealthyPodsPercentage = Some 58\<rparr>)"
  let ?s = "sampleCluster\<lparr>clPods := fiftyPods, clPolicies := [?p]\<rparr>"
  have "List.find (\<lambda>p. Namespace p = ''ns'' \<and> Name p = ''p'') fiftyPods = Some (clusterPod ''p'' True)"
    by (simp add: fiftyPods_def eval_nat_numeral clusterPod_def)
  then have get: "GetPod (ClientF fiftyController) ''ns'' ''p'' ?s = (Inr (clusterPod ''p'' True), ?s)"
    by (simp add: fiftyController_def memController_def memClient_def found_def)
  have sick: "isUnhealthy (clusterPod ''p'' True)" "\<not> isUnhealthy (clusterPod ''q'' False)"
    by (simp_all add: isUnhealthy_def clusterPod_def annotation_def)
  then have count: "countUnhealthy fiftyPods = 29" "length fiftyPods = 50" "fiftyPods \<noteq> []"
    by (simp_all add: countUnhealthy_def fiftyPods_def)
  have "memNode (snd (Reconcile fiftyController requireLabels ''ns'' ''p'' ?s)) = memNode ?s"
    by (rule percentage_threshold_missed [where p = ?p and policies = "[?p]" and ?s1.0 = ?s and ?s2.0 = ?s,
          OF nodeStore_fifty get, THEN conjunct1])
      (simp_all add: count, simp_all add: fiftyController_def sample_simps selects_def
        count [unfolded countUnhealthy_def])
  moreover have "memNode ?s ''n1'' = Some \<lparr>NName = ''n1'', NLabels = [], Taints = []\<rparr>"
    by (simp add: memNode_def sampleCluster_def)
  ultimately show ?thesis by (simp only: Let_def)
qed

text \<open>
  C11. An unhealthy node gets its taint: on every server that stores nodes and applies merge
  patches, if the pod can be read and is scheduled on a node, the first policy that selects it
  enables tainting, the listed pods of that node meet the policy's criterion, and \<open>Reconcile\<close>
  returns without error, then the stored node carries the sentry's taint afterwards.
\<close>

theorem reconcile_taints_node:
  assumes "nodeStore nodes r"
    and "GetPod (ClientF r) ns name s = (Inr pod, s1)"
    and "ListComputeSentryPolicies (ClientF r) s1 = (Inr policies, s2)"
    and "List.find (selects asSel (Labels pod)) policies = Some p"
    and "EnableTaint (ActionsF (Spec p))"
    and "NodeName pod \<noteq> ''''"
    and "\<forall>t pods t'. ListPodsOnNode (ClientF r) (NodeName pod) t = (Inr pods, t') \<longrightarrow> taintWanted p pods"
    and "Reconcile r asSel ns name s = (Inr res, s')"
  shows "\<exists>node. nodes s' (NodeName pod) = Some node \<and> isTainted node"
proof -
  have "taintedAt (NodeName pod) (nodes s')"
    using assms by (intro Reconcile_taints [where p = p and policies = policies])
      (auto simp: controller.lookup_find)
  then show ?thesis by (auto simp: taintedAt_def split: option.splits)
qed

theorem reconcile_taints_node_witness:
  "\<exists>res s' node. Reconcile alwaysSick requireLabels ''ns'' ''p'' sampleCluster = (Inr res, s') \<and>
     memNode s' ''n1'' = Some node \<and> isTainted node"
proof -
  have "\<exists>s'. Reconcile alwaysSick requireLabels ''ns'' ''p'' sampleCluster = (Inr emptyResult, s')"
    unfolding operation_defs alwaysSick_def
    by (simp add: sample_simps aggregate_def decideTaint_def isTainted_def noChange_def throttleVerdict_def)
  then obtain s' where run: "Reconcile alwaysSick requireLabels ''ns'' ''p'' sampleCluster = (Inr emptyResult, s')"
    by blast
  have "\<exists>node. memNode s' (NodeName (clusterPod ''p'' True)) = Some node \<and> isTainted node"
    by (rule reconcile_taints_node [where p = "clusterPolicy None" and policies = "[clusterPolicy None]" and
          ?s1.0 = sampleCluster and ?s2.0 = sampleCluster, OF nodeStore_alwaysSick _ _ _ _ _ _ run])
      (simp_all add: alwaysSick_def sample_simps selects_def taintWanted_def)
  with run show ?thesis by (auto simp: clusterPod_def)
qed

text \<open>
  C18. The controller never removes its taint: on every server that stores nodes and applies merge
  patches, \<open>untaintNode\<close> leaves every stored node as it is, whatever it returns, and a node that
  carries the taint before a run of \<open>Reconcile\<close> carries it after the run. The reason is that
  \<open>untaintNode\<close> sends the merge patch that leads from the node without the taint to the node with it.
\<close>

theorem taint_is_never_removed:
  assumes "nodeStore nodes r"
  shows "nodes (snd (untaintNode r n s)) = nodes s \<and>
     (\<forall>node. nodes s n = Some node \<and> isTainted node \<longrightarrow>
        (\<exists>node'. nodes (snd (Reconcile r asSel ns name s)) n = Some node' \<and> isTainted node'))"
proof -
  have "nodes (snd (untaintNode r n s)) = nodes s"
    by (rule keepsD [OF untaintNode_keeps [OF assms, of "\<lambda>N. N = nodes s"]]) simp
  moreover have "taintedAt n (nodes (snd (Reconcile r asSel ns name s)))" if "taintedAt n (nodes s)"
    by (rule keepsD [OF Reconcile_keeps_taint [OF assms] that])
  ultimately show ?thesis by (auto simp: taintedAt_def split: option.splits)
qed

theorem taint_is_never_removed_witness:
  "memNode (snd (untaintNode memController ''n1''
       (sampleCluster\<lparr>clNodes := [\<lparr>NName = ''n1'', NLabels = [], Taints = [sentryTaint]\<rparr>]\<rparr>))) ''n1'' =
     Some \<lparr>NName = ''n1'', NLabels = [], Taints = [sentryTaint]\<rparr>"
  using taint_is_never_removed [OF nodeStore_mem, of "''n1''"
      "sampleCluster\<lparr>clNodes := [\<lparr>NName = ''n1'', NLabels = [], Taints = [sentryTaint]\<rparr>]\<rparr>"]
  by (simp add: memNode_def)

text \<open>
  The early returns of \<open>Reconcile\<close>: a pod that does not exist any more ends the run without an
  error after one call, any other error of that read or of the listing of the policies is returned as
  it is, and a pod without a node ends the run; in none of these cases is another call made.
\<close>

theorem reconcile_early_returns:
  "(GetPod (ClientF r) ns name s = (Inl err, s1) \<longrightarrow>
      Reconcile (logged r) asSel ns name (s, []) =
        (if IsNotFound err then Inr emptyResult else Inl err, s1, [CGetPod ns name (Inl err)])) \<and>
   (GetPod (ClientF r) ns name s = (Inr pod, s1) \<and> ListComputeSentryPolicies (ClientF r) s1 = (Inl err, s2) \<longrightarrow>
      Reconcile (logged r) asSel ns name (s, []) =
        (Inl err, s2, [CGetPod ns name (Inr pod), CListPolicies (Inl err)])) \<and>
   (GetPod (ClientF r) ns name s = (Inr pod, s1) \<and> NodeName pod = '''' \<and>
      ListComputeSentryPolicies (ClientF r) s1 = (Inr policies, s2) \<longrightarrow>
      Reconcile (logged r) asSel ns name (s, []) =
        (Inr emptyResult, s2, [CGetPod ns name (Inr pod), CListPolicies (Inr policies)]))"
  by (simp add: Reconcile_def findMatchingPolicy_def logAct_def handling_def return_def fail_def)

theorem reconcile_early_returns_witness:
  "Reconcile (logged memController) requireLabels ''ns'' ''gone'' (sampleCluster, []) =
     (Inr emptyResult, sampleCluster, [CGetPod ''ns'' ''gone'' (Inl (NotFoundError ''gone''))])"
  using reconcile_early_returns [of memController "''ns''" "''gone''" sampleCluster "NotFoundError ''gone''"
      sampleCluster]
  by (simp add: sampleCluster_def clusterPod_def memController_def memClient_def found_def)

end
