(* ===== verification/Operator_Main.thy ===== *)
theory Operator_Main
  imports Health_Controller Pod_Mutator
begin

text \<open>
  The operator's process and its scaffolding: \<open>operator/cmd/main.go\<close>, the policy webhook
  \<open>operator/internal/webhook/v1/computesentrypolicy_webhook.go\<close> and the policy reconciler
  \<open>operator/internal/controller/computesentrypolicy_controller.go\<close>.

  \<open>main\<close> is a sequence of calls to the controller-runtime library, each of which ends the process
  with status 1 when it fails (the certificate options and the flags are computed before). The calls
  are the values of \<open>SetupCall\<close>; the library is the parameter \<open>setup\<close>, which performs one call
  (\<open>Register\<close> has no error result in the library, so a \<open>setup\<close> for it always succeeds).
\<close>

section \<open>Options\<close>

record OperatorFlags =
  metricsBindAddress :: string
  healthProbeBindAddress :: string
  leaderElect :: bool
  metricsSecure :: bool
  webhookCertPath :: string
  webhookCertName :: string
  webhookCertKey :: string
  metricsCertPath :: string
  metricsCertName :: string
  metricsCertKey :: string
  enableHTTP2 :: bool

definition defaultOperatorFlags :: OperatorFlags where
  "defaultOperatorFlags =
     \<lparr>metricsBindAddress = ''0'', healthProbeBindAddress = '':8081'', leaderElect = False,
      metricsSecure = True, webhookCertPath = '''', webhookCertName = ''tls.crt'',
      webhookCertKey = ''tls.key'', metricsCertPath = '''', metricsCertName = ''tls.crt'',
      metricsCertKey = ''tls.key'', enableHTTP2 = False\<rparr>"

record TlsConfig =
  NextProtos :: "string list"

type_synonym tlsOpt = "TlsConfig \<Rightarrow> TlsConfig"

definition disableHTTP2 :: tlsOpt where
  "disableHTTP2 c = c\<lparr>NextProtos := [''http/1.1'']\<rparr>"

definition tlsOpts :: "OperatorFlags \<Rightarrow> tlsOpt list" where
  "tlsOpts flags = (if enableHTTP2 flags then [] else [disableHTTP2])"

record ServerOptions =
  TLSOpts :: "tlsOpt list"
  CertDir :: string
  CertName :: string
  KeyName :: string

definition webhookServerOptions :: "OperatorFlags \<Rightarrow> ServerOptions" where
  "webhookServerOptions flags =
     (let base = \<lparr>TLSOpts = tlsOpts flags, CertDir = '''', CertName = '''', KeyName = ''''\<rparr> in
      if 0 < length (webhookCertPath flags)
      then base\<lparr>CertDir := webhookCertPath flags, CertName := webhookCertName flags,
                KeyName := webhookCertKey flags\<rparr>
      else base)"

record MetricsOptions =
  BindAddress :: string
  SecureServing :: bool
  AuthFilter :: bool
  MServer :: ServerOptions

definition metricsServerOptions :: "OperatorFlags \<Rightarrow> MetricsOptions" where
  "metricsServerOptions flags =
     (let server = \<lparr>TLSOpts = tlsOpts flags, CertDir = '''', CertName = '''', KeyName = ''''\<rparr>;
          base = \<lparr>BindAddress = metricsBindAddress flags, SecureServing = metricsSecure flags,
                  AuthFilter = False, MServer = server\<rparr>;
          base1 = (if metricsSecure flags then base\<lparr>AuthFilter := True\<rparr> else base)
      in if 0 < length (metricsCertPath flags)
         then base1\<lparr>MServer := server\<lparr>CertDir := metricsCertPath flags, CertName := metricsCertName flags,
                                      KeyName := metricsCertKey flags\<rparr>\<rparr>
         else base1)"

section \<open>The scheme\<close>

text \<open>
  A scheme is the list of the kinds that are registered with it. The kinds of Kubernetes itself are
  registered by \<open>clientgoscheme.AddToScheme\<close>, which is library code and the parameter \<open>clientgo\<close>.
\<close>

record GroupVersion =
  gvGroup :: string
  gvVersion :: string

record GroupVersionKind = GroupVersion +
  gvKind :: string

definition policyGroupVersion :: GroupVersion where
  "policyGroupVersion = \<lparr>gvGroup = ''config.aiguard.io'', gvVersion = ''v1''\<rparr>"

definition corev1 :: "string \<Rightarrow> GroupVersionKind" where
  "corev1 k = \<lparr>gvGroup = '''', gvVersion = ''v1'', gvKind = k\<rparr>"

definition withKind :: "GroupVersion \<Rightarrow> string \<Rightarrow> GroupVersionKind" where
  "withKind gv k = \<lparr>gvGroup = gvGroup gv, gvVersion = gvVersion gv, gvKind = k\<rparr>"

definition registeredTypes :: "string list" where
  "registeredTypes = [''ComputeSentryPolicy'', ''ComputeSentryPolicyList'']"

definition AddToScheme :: "GroupVersionKind list \<Rightarrow> GroupVersionKind list" where
  "AddToScheme scheme = scheme @ map (withKind policyGroupVersion) registeredTypes"

definition initScheme :: "GroupVersionKind list \<Rightarrow> GroupVersionKind list" where
  "initScheme clientgo = AddToScheme clientgo"

section \<open>The start\<close>

record ControllerBuilder =
  BFor :: GroupVersionKind
  BNamed :: string

record WebhookBuilder =
  WFor :: GroupVersionKind
  WValidator :: bool
  WDefaulter :: bool

record ManagerOptions =
  MgrScheme :: "GroupVersionKind list"
  MgrMetrics :: MetricsOptions
  MgrWebhookServer :: ServerOptions
  MgrProbeAddr :: string
  MgrLeaderElection :: bool
  MgrLeaderElectionID :: string

datatype SetupCall =
    NewManager ManagerOptions
  | IndexField GroupVersionKind string
  | CompleteController ControllerBuilder
  | NewClientset
  | CompleteWebhook WebhookBuilder
  | RegisterPodMutator string
  | AddHealthzCheck
  | AddReadyzCheck
  | StartManager

definition SetupPolicyReconciler :: SetupCall where
  "SetupPolicyReconciler =
     CompleteController \<lparr>BFor = withKind policyGroupVersion ''ComputeSentryPolicy'', BNamed = ''computesentrypolicy''\<rparr>"

definition SetupHealthController :: SetupCall where
  "SetupHealthController = CompleteController \<lparr>BFor = corev1 ''Pod'', BNamed = ''health''\<rparr>"

definition SetupPolicyWebhook :: SetupCall where
  "SetupPolicyWebhook =
     CompleteWebhook \<lparr>WFor = withKind policyGroupVersion ''ComputeSentryPolicy'', WValidator = True, WDefaulter = True\<rparr>"

definition IndexPodsByNodeName :: SetupCall where
  "IndexPodsByNodeName = IndexField (corev1 ''Pod'') ''spec.nodeName''"

definition indexNodeName :: "Pod \<Rightarrow> string list" where
  "indexNodeName pod = [NodeName pod]"

definition managerOptions :: "GroupVersionKind list \<Rightarrow> OperatorFlags \<Rightarrow> ManagerOptions" where
  "managerOptions clientgo flags =
     \<lparr>MgrScheme = initScheme clientgo, MgrMetrics = metricsServerOptions flags,
      MgrWebhookServer = webhookServerOptions flags, MgrProbeAddr = healthProbeBindAddress flags,
      MgrLeaderElection = leaderElect flags, MgrLeaderElectionID = ''8f7c4cf9.aiguard.io''\<rparr>"

definition setupCalls :: "GroupVersionKind list \<Rightarrow> OperatorFlags \<Rightarrow> string \<Rightarrow> SetupCall list" where
  "setupCalls clientgo flags enableWebhooks =
     [NewManager (managerOptions clientgo flags), IndexPodsByNodeName, SetupPolicyReconciler, NewClientset,
      SetupHealthController] @
     (if enableWebhooks \<noteq> ''false'' then [SetupPolicyWebhook, RegisterPodMutator ''/mutate-v1-pod''] else []) @
     [AddHealthzCheck, AddReadyzCheck, StartManager]"

fun runSetup :: "(SetupCall \<Rightarrow> ('o, unit) action) \<Rightarrow> SetupCall list \<Rightarrow> ('o, unit) action" where
  "runSetup setup [] = return ()"
| "runSetup setup (c # cs) = handling (setup c) fail (\<lambda>_. runSetup setup cs)"

definition operatorMain ::
  "(SetupCall \<Rightarrow> ('o, unit) action) \<Rightarrow> GroupVersionKind list \<Rightarrow> OperatorFlags \<Rightarrow> string \<Rightarrow> ('o, unit) action" where
  "operatorMain setup clientgo flags enableWebhooks = runSetup setup (setupCalls clientgo flags enableWebhooks)"

section \<open>The policy webhook and the policy reconciler\<close>

definition DefaultPolicy :: "ComputeSentryPolicy \<Rightarrow> goError option \<times> ComputeSentryPolicy" where
  "DefaultPolicy obj = (None, obj)"

definition ValidateCreate :: "ComputeSentryPolicy \<Rightarrow> string list \<times> goError option" where
  "ValidateCreate obj = ([], None)"

definition ValidateUpdate :: "ComputeSentryPolicy \<Rightarrow> ComputeSentryPolicy \<Rightarrow> string list \<times> goError option" where
  "ValidateUpdate oldObj newObj = ([], None)"

definition ValidateDelete :: "ComputeSentryPolicy \<Rightarrow> string list \<times> goError option" where
  "ValidateDelete obj = ([], None)"

definition ReconcilePolicy :: "string \<Rightarrow> string \<Rightarrow> ('c, Result) action" where
  "ReconcilePolicy ns name = return emptyResult"

section \<open>Facts\<close>

text \<open>The calls a run makes, each with its outcome.\<close>

definition logSetup ::
  "(SetupCall \<Rightarrow> ('o, unit) action) \<Rightarrow> SetupCall \<Rightarrow> ('o \<times> SetupCall list, unit) action" where
  "logSetup setup c = (\<lambda>(s, l). case setup c s of (r, s') \<Rightarrow> (r, s', l @ [c]))"

lemma runSetup_log:
  assumes "runSetup (logSetup setup) cs (s, l) = (r, s', l')"
  shows "\<exists>ds es. cs = ds @ es \<and> l' = l @ ds \<and> (r = Inr () \<longrightarrow> es = [])"
  using assms
proof (induction cs arbitrary: s l)
  case Nil
  then show ?case by (simp add: return_def)
next
  case (Cons c cs)
  obtain x s1 where c: "setup c s = (x, s1)" by fastforce
  show ?case
  proof (cases x)
    case (Inl err)
    with Cons.prems c show ?thesis
      by (intro exI [of _ "[c]"] exI [of _ cs]) (auto simp: handling_def logSetup_def fail_def)
  next
    case (Inr u)
    with c have "logSetup setup c (s, l) = (Inr u, s1, l @ [c])" by (simp add: logSetup_def)
    with Cons.prems have "runSetup (logSetup setup) cs (s1, l @ [c]) = (r, s', l')"
      by (simp add: handling_def)
    from Cons.IH [OF this] obtain ds es where "cs = ds @ es" "l' = (l @ [c]) @ ds" "r = Inr () \<longrightarrow> es = []"
      by blast
    then show ?thesis by (intro exI [of _ "c # ds"] exI [of _ es]) simp
  qed
qed

lemmas setup_defs =
  SetupPolicyReconciler_def SetupHealthController_def SetupPolicyWebhook_def IndexPodsByNodeName_def

section \<open>Properties\<close>

text \<open>
  HTTP/2 is off unless it is asked for: the TLS options of the webhook server and of the metrics
  server are the same, and applying them to any TLS configuration leaves only HTTP/1.1 exactly when
  the flag is not set; and a metrics endpoint that is served securely is always filtered by
  authentication and authorisation.
\<close>

theorem tls_options:
  "TLSOpts (MServer (metricsServerOptions flags)) = TLSOpts (webhookServerOptions flags) \<and>
   fold (\<lambda>f. f) (TLSOpts (webhookServerOptions flags)) config =
     (if enableHTTP2 flags then config else config\<lparr>NextProtos := [''http/1.1'']\<rparr>) \<and>
   AuthFilter (metricsServerOptions flags) = SecureServing (metricsServerOptions flags)"
  by (simp add: metricsServerOptions_def webhookServerOptions_def tlsOpts_def disableHTTP2_def Let_def)

text \<open>
  Whatever the library calls return, the start of the operator makes a prefix of its calls, in
  their fixed order, and all of them when it succeeds. So the manager is started only after the pod
  index by node name, on which the health controller's listing relies, was created and after the
  health controller was set up, and, unless the webhooks are switched off, after the pod mutator was
  registered at its path.
\<close>

theorem operator_start_order:
  assumes "operatorMain (logSetup setup) clientgo flags enableWebhooks (s, []) = (r, s', calls)"
  shows "prefix calls (setupCalls clientgo flags enableWebhooks) \<and>
     (r = Inr () \<longrightarrow> calls = setupCalls clientgo flags enableWebhooks) \<and>
     (StartManager \<in> set calls \<longrightarrow>
        (\<exists>us vs. calls = us @ IndexPodsByNodeName # vs \<and> SetupHealthController \<in> set vs) \<and>
        (enableWebhooks \<noteq> ''false'' \<longrightarrow> RegisterPodMutator ''/mutate-v1-pod'' \<in> set calls))"
proof -
  obtain ds es where split: "setupCalls clientgo flags enableWebhooks = ds @ es" "calls = ds" "r = Inr () \<longrightarrow> es = []"
    using runSetup_log [OF assms [unfolded operatorMain_def]] by auto
  have all: "calls = setupCalls clientgo flags enableWebhooks" if start: "StartManager \<in> set calls"
  proof (rule ccontr)
    assume "calls \<noteq> setupCalls clientgo flags enableWebhooks"
    with split have "es \<noteq> []" by auto
    then obtain es' e where "es = es' @ [e]" by (cases es rule: rev_cases) auto
    with split have "butlast (setupCalls clientgo flags enableWebhooks) = ds @ es'" by (simp add: butlast_append)
    with start split(2) have "StartManager \<in> set (butlast (setupCalls clientgo flags enableWebhooks))" by simp
    then show False by (auto simp: setupCalls_def setup_defs split: if_splits)
  qed
  have index: "\<exists>us vs. setupCalls clientgo flags enableWebhooks = us @ IndexPodsByNodeName # vs \<and>
      SetupHealthController \<in> set vs"
    unfolding setupCalls_def by (rule exI [of _ "[_]"]) auto
  have mutator: "enableWebhooks \<noteq> ''false'' \<Longrightarrow>
      RegisterPodMutator ''/mutate-v1-pod'' \<in> set (setupCalls clientgo flags enableWebhooks)"
    by (simp add: setupCalls_def)
  have "prefix calls (setupCalls clientgo flags enableWebhooks)" "r = Inr () \<longrightarrow> calls = setupCalls clientgo flags enableWebhooks"
    using split by auto
  then show ?thesis using all index mutator by (intro conjI impI) (simp_all only: simp_thms)
qed

theorem operator_start_order_witness:
  "\<exists>calls. operatorMain (logSetup (\<lambda>_ s. (Inr (), s))) [] defaultOperatorFlags '''' ((), []) = (Inr (), (), calls) \<and>
     calls = setupCalls [] defaultOperatorFlags ''''"
proof -
  have "\<exists>calls. operatorMain (logSetup (\<lambda>_ s. (Inr (), s))) [] defaultOperatorFlags '''' ((), []) = (Inr (), (), calls)"
    by (simp add: operatorMain_def setupCalls_def handling_def logSetup_def return_def)
  then obtain calls where run:
    "operatorMain (logSetup (\<lambda>_ s. (Inr (), s))) [] defaultOperatorFlags '''' ((), []) = (Inr (), (), calls)" by blast
  with operator_start_order [OF run] show ?thesis by blast
qed

end
