(* ===== verification/Deep_Copy.thy ===== *)
theory Deep_Copy
  imports Api_Types
begin

text \<open>
  \<open>operator/api/v1/zz_generated.deepcopy.go\<close>: the copies of a policy, with the sharing that the value
  model of \<open>Api_Types\<close> abstracts from. A heap holds the three kinds of cells a policy points to: the
  label selector's maps and slices, the node taint threshold and the status conditions. Copying a
  selector, a condition and the object's metadata is library code and copies the content into a new
  cell; metadata is represented by the names.
\<close>

type_synonym loc = nat

record Heap =
  hSelectors :: "loc \<Rightarrow> LabelSelector option"
  hThresholds :: "loc \<Rightarrow> NodeTaintThreshold option"
  hConditions :: "loc \<Rightarrow> string list option"
  nextLoc :: loc

record ActionsV =
  vEnableTaint :: bool
  vEnableEvict :: bool
  vNodeTaintThreshold :: "loc option"

record SpecV =
  vSelector :: loc
  vSpyConfig :: SpyConfig
  vThresholds :: Thresholds
  vEvalConfig :: EvalConfig
  vActions :: ActionsV

record StatusV =
  vConditions :: "loc option"

record PolicyV =
  vName :: string
  vNamespace :: string
  vSpec :: SpecV
  vStatus :: StatusV

section \<open>The copies\<close>

definition copySelector :: "loc \<Rightarrow> Heap \<Rightarrow> loc \<times> Heap" where
  "copySelector l h =
     (nextLoc h, h\<lparr>hSelectors := (hSelectors h)(nextLoc h := hSelectors h l), nextLoc := Suc (nextLoc h)\<rparr>)"

definition DeepCopyIntoActions :: "ActionsV \<Rightarrow> ActionsV" where
  "DeepCopyIntoActions a = a"

definition DeepCopyIntoSpec :: "SpecV \<Rightarrow> Heap \<Rightarrow> SpecV \<times> Heap" where
  "DeepCopyIntoSpec s h =
     (let (l, h') = copySelector (vSelector s) h
      in (s\<lparr>vSelector := l, vSpyConfig := vSpyConfig s, vThresholds := vThresholds s,
            vEvalConfig := vEvalConfig s, vActions := vActions s\<rparr>, h'))"

definition DeepCopyIntoStatus :: "StatusV \<Rightarrow> Heap \<Rightarrow> StatusV \<times> Heap" where
  "DeepCopyIntoStatus st h =
     (case vConditions st of
        None \<Rightarrow> (st, h)
      | Some l \<Rightarrow>
          (st\<lparr>vConditions := Some (nextLoc h)\<rparr>,
           h\<lparr>hConditions := (hConditions h)(nextLoc h := hConditions h l), nextLoc := Suc (nextLoc h)\<rparr>))"

definition DeepCopyInto :: "PolicyV \<Rightarrow> Heap \<Rightarrow> PolicyV \<times> Heap" where
  "DeepCopyInto p h =
     (let (sp, h1) = DeepCopyIntoSpec (vSpec p) h;
          (st, h2) = DeepCopyIntoStatus (vStatus p) h1
      in (p\<lparr>vSpec := sp, vStatus := st\<rparr>, h2))"

definition DeepCopyPolicy :: "PolicyV option \<Rightarrow> Heap \<Rightarrow> PolicyV option \<times> Heap" where
  "DeepCopyPolicy inp h =
     (case inp of None \<Rightarrow> (None, h) | Some p \<Rightarrow> (let (q, h') = DeepCopyInto p h in (Some q, h')))"

fun DeepCopyItems :: "PolicyV list \<Rightarrow> Heap \<Rightarrow> PolicyV list \<times> Heap" where
  "DeepCopyItems [] h = ([], h)"
| "DeepCopyItems (p # ps) h =
     (let (q, h1) = DeepCopyInto p h; (qs, h2) = DeepCopyItems ps h1 in (q # qs, h2))"

text \<open>
  Every \<open>DeepCopy\<close> method returns nil for a nil receiver and otherwise a pointer to a new value that
  \<open>DeepCopyInto\<close> has filled. The structs without pointers are copied by assignment.
\<close>

definition deepCopyPtr :: "('a \<Rightarrow> Heap \<Rightarrow> 'a \<times> Heap) \<Rightarrow> 'a option \<Rightarrow> Heap \<Rightarrow> 'a option \<times> Heap" where
  "deepCopyPtr into inp h =
     (case inp of None \<Rightarrow> (None, h) | Some x \<Rightarrow> (let (y, h') = into x h in (Some y, h')))"

definition DeepCopyIntoEvalConfig :: "EvalConfig \<Rightarrow> EvalConfig" where
  "DeepCopyIntoEvalConfig c = c"

definition DeepCopyIntoSpyConfig :: "SpyConfig \<Rightarrow> SpyConfig" where
  "DeepCopyIntoSpyConfig c = c"

definition DeepCopyIntoThresholds :: "Thresholds \<Rightarrow> Thresholds" where
  "DeepCopyIntoThresholds t = t"

definition DeepCopyActions :: "ActionsV option \<Rightarrow> Heap \<Rightarrow> ActionsV option \<times> Heap" where
  "DeepCopyActions = deepCopyPtr (\<lambda>a h. (DeepCopyIntoActions a, h))"

definition DeepCopySpec :: "SpecV option \<Rightarrow> Heap \<Rightarrow> SpecV option \<times> Heap" where
  "DeepCopySpec = deepCopyPtr DeepCopyIntoSpec"

definition DeepCopyStatus :: "StatusV option \<Rightarrow> Heap \<Rightarrow> StatusV option \<times> Heap" where
  "DeepCopyStatus = deepCopyPtr DeepCopyIntoStatus"

definition DeepCopyEvalConfig :: "EvalConfig option \<Rightarrow> Heap \<Rightarrow> EvalConfig option \<times> Heap" where
  "DeepCopyEvalConfig = deepCopyPtr (\<lambda>c h. (DeepCopyIntoEvalConfig c, h))"

definition DeepCopySpyConfig :: "SpyConfig option \<Rightarrow> Heap \<Rightarrow> SpyConfig option \<times> Heap" where
  "DeepCopySpyConfig = deepCopyPtr (\<lambda>c h. (DeepCopyIntoSpyConfig c, h))"

definition DeepCopyThresholds :: "Thresholds option \<Rightarrow> Heap \<Rightarrow> Thresholds option \<times> Heap" where
  "DeepCopyThresholds = deepCopyPtr (\<lambda>t h. (DeepCopyIntoThresholds t, h))"

text \<open>A list keeps the difference between a nil slice and an empty one.\<close>

record ListV =
  vItems :: "PolicyV list option"

definition DeepCopyIntoList :: "ListV \<Rightarrow> Heap \<Rightarrow> ListV \<times> Heap" where
  "DeepCopyIntoList l h =
     (case vItems l of
        None \<Rightarrow> (l, h)
      | Some ps \<Rightarrow> (let (qs, h') = DeepCopyItems ps h in (l\<lparr>vItems := Some qs\<rparr>, h')))"

definition DeepCopyList :: "ListV option \<Rightarrow> Heap \<Rightarrow> ListV option \<times> Heap" where
  "DeepCopyList = deepCopyPtr DeepCopyIntoList"

datatype RuntimeObject = PolicyObject PolicyV | ListObject ListV

definition DeepCopyObjectPolicy :: "PolicyV option \<Rightarrow> Heap \<Rightarrow> RuntimeObject option \<times> Heap" where
  "DeepCopyObjectPolicy inp h =
     (case DeepCopyPolicy inp h of (None, h') \<Rightarrow> (None, h') | (Some c, h') \<Rightarrow> (Some (PolicyObject c), h'))"

definition DeepCopyObjectList :: "ListV option \<Rightarrow> Heap \<Rightarrow> RuntimeObject option \<times> Heap" where
  "DeepCopyObjectList inp h =
     (case DeepCopyList inp h of (None, h') \<Rightarrow> (None, h') | (Some c, h') \<Rightarrow> (Some (ListObject c), h'))"

section \<open>What a policy means in a heap\<close>

definition allocated :: "Heap \<Rightarrow> PolicyV \<Rightarrow> bool" where
  "allocated h p \<longleftrightarrow>
     vSelector (vSpec p) < nextLoc h \<and>
     (\<forall>l. vNodeTaintThreshold (vActions (vSpec p)) = Some l \<longrightarrow> l < nextLoc h) \<and>
     (\<forall>l. vConditions (vStatus p) = Some l \<longrightarrow> l < nextLoc h)"

text \<open>The content of a policy: its plain fields and the content of the cells it points to.\<close>

definition content ::
  "Heap \<Rightarrow> PolicyV \<Rightarrow> (string \<times> string \<times> SpyConfig \<times> Thresholds \<times> EvalConfig \<times> bool \<times> bool) \<times>
     LabelSelector option \<times> NodeTaintThreshold option \<times> string list option" where
  "content h p =
     ((vName p, vNamespace p, vSpyConfig (vSpec p), vThresholds (vSpec p), vEvalConfig (vSpec p),
       vEnableTaint (vActions (vSpec p)), vEnableEvict (vActions (vSpec p))),
      hSelectors h (vSelector (vSpec p)),
      Option.bind (vNodeTaintThreshold (vActions (vSpec p))) (hThresholds h),
      Option.bind (vConditions (vStatus p)) (hConditions h))"

definition writeThreshold :: "PolicyV \<Rightarrow> NodeTaintThreshold \<Rightarrow> Heap \<Rightarrow> Heap" where
  "writeThreshold p t h =
     (case vNodeTaintThreshold (vActions (vSpec p)) of
        None \<Rightarrow> h
      | Some l \<Rightarrow> h\<lparr>hThresholds := (hThresholds h)(l \<mapsto> t)\<rparr>)"

definition writeSelector :: "PolicyV \<Rightarrow> LabelSelector \<Rightarrow> Heap \<Rightarrow> Heap" where
  "writeSelector p s h = h\<lparr>hSelectors := (hSelectors h)(vSelector (vSpec p) \<mapsto> s)\<rparr>"

lemma DeepCopyInto_unfold:
  "DeepCopyInto p h =
     (p\<lparr>vSpec := (vSpec p)\<lparr>vSelector := nextLoc h\<rparr>,
        vStatus := (case vConditions (vStatus p) of None \<Rightarrow> vStatus p
          | Some l \<Rightarrow> (vStatus p)\<lparr>vConditions := Some (Suc (nextLoc h))\<rparr>)\<rparr>,
      case vConditions (vStatus p) of
        None \<Rightarrow> h\<lparr>hSelectors := (hSelectors h)(nextLoc h := hSelectors h (vSelector (vSpec p))),
                  nextLoc := Suc (nextLoc h)\<rparr>
      | Some l \<Rightarrow> h\<lparr>hSelectors := (hSelectors h)(nextLoc h := hSelectors h (vSelector (vSpec p))),
                    hConditions := (hConditions h)(Suc (nextLoc h) := hConditions h l),
                    nextLoc := Suc (Suc (nextLoc h))\<rparr>)"
  by (simp add: DeepCopyInto_def DeepCopyIntoSpec_def DeepCopyIntoStatus_def copySelector_def Let_def
      split: option.split)

section \<open>Copying lists\<close>

definition extends :: "Heap \<Rightarrow> Heap \<Rightarrow> bool" where
  "extends h h' \<longleftrightarrow>
     nextLoc h \<le> nextLoc h' \<and> hThresholds h' = hThresholds h \<and>
     (\<forall>l<nextLoc h. hSelectors h' l = hSelectors h l \<and> hConditions h' l = hConditions h l)"

lemma extends_refl: "extends h h"
  by (simp add: extends_def)

lemma extends_trans: "extends h h' \<Longrightarrow> extends h' h'' \<Longrightarrow> extends h h''"
  by (auto simp: extends_def)

lemma extends_content: "extends h h' \<Longrightarrow> allocated h p \<Longrightarrow> content h' p = content h p \<and> allocated h' p"
  by (cases "vConditions (vStatus p)"; cases "vNodeTaintThreshold (vActions (vSpec p))")
    (auto simp: extends_def allocated_def content_def)

lemma DeepCopyInto_extends:
  assumes "DeepCopyInto p h = (q, h')" "allocated h p"
  shows "extends h h' \<and> allocated h' q \<and> content h' q = content h p"
  using assms
  by (auto simp: DeepCopyInto_unfold extends_def allocated_def content_def split: option.splits)

lemma DeepCopyItems_content:
  assumes "DeepCopyItems ps h = (qs, h')" "list_all (allocated h) ps"
  shows "extends h h' \<and> list_all2 (\<lambda>p q. content h' q = content h p) ps qs"
  using assms
proof (induction ps arbitrary: h qs)
  case Nil
  then show ?case by (simp add: extends_refl)
next
  case (Cons p ps)
  obtain q h1 rest where q: "DeepCopyInto p h = (q, h1)" and rest: "DeepCopyItems ps h1 = (rest, h')"
    and qs: "qs = q # rest"
    using Cons.prems(1) by (auto split: prod.splits)
  have first: "extends h h1" "allocated h1 q" "content h1 q = content h p"
    using DeepCopyInto_extends [OF q] Cons.prems(2) by simp_all
  have all: "list_all (allocated h1) ps" "\<And>x. x \<in> set ps \<Longrightarrow> content h1 x = content h x"
    using Cons.prems(2) extends_content [OF first(1)] by (auto simp: list_all_iff)
  have step: "extends h1 h'" "list_all2 (\<lambda>p q. content h' q = content h1 p) ps rest"
    using Cons.IH [OF rest all(1)] by simp_all
  have "list_all2 (\<lambda>p q. content h' q = content h p) ps rest"
    using step(2) all(2) by (auto simp: list_all2_conv_all_nth)
  moreover have "content h' q = content h p"
    using extends_content [OF step(1) first(2)] first(3) by simp
  ultimately show ?case
    using extends_trans [OF first(1) step(1)] by (simp add: qs)
qed

lemma DeepCopyInto_next:
  "DeepCopyInto p h = (q, h') \<Longrightarrow> vSelector (vSpec q) = nextLoc h \<and> nextLoc h < nextLoc h'"
  by (auto simp: DeepCopyInto_unfold split: option.splits)

lemma DeepCopyItems_fresh:
  "DeepCopyItems ps h = (qs, h') \<Longrightarrow>
   nextLoc h \<le> nextLoc h' \<and> distinct (map (\<lambda>q. vSelector (vSpec q)) qs) \<and>
   (\<forall>q\<in>set qs. nextLoc h \<le> vSelector (vSpec q) \<and> vSelector (vSpec q) < nextLoc h')"
proof (induction ps arbitrary: h qs)
  case (Cons p ps)
  obtain q h1 rest where q: "DeepCopyInto p h = (q, h1)" and rest: "DeepCopyItems ps h1 = (rest, h')"
    and qs: "qs = q # rest"
    using Cons.prems by (auto split: prod.splits)
  from DeepCopyInto_next [OF q] Cons.IH [OF rest] show ?case by (fastforce simp: qs)
qed simp

lemma content_writeSelector:
  "vSelector (vSpec q) \<noteq> vSelector (vSpec p) \<Longrightarrow> content (writeSelector q s h) p = content h p"
  by (simp add: content_def writeSelector_def)

section \<open>Properties\<close>

definition samplePolicyV :: PolicyV where
  "samplePolicyV =
     \<lparr>vName = ''pol'', vNamespace = ''ns'',
      vSpec = \<lparr>vSelector = 0, vSpyConfig = \<lparr>Enabled = True\<rparr>, vThresholds = zeroThresholds,
        vEvalConfig = zeroEvalConfig,
        vActions = \<lparr>vEnableTaint = True, vEnableEvict = False, vNodeTaintThreshold = Some 1\<rparr>\<rparr>,
      vStatus = \<lparr>vConditions = None\<rparr>\<rparr>"

definition sampleHeap :: Heap where
  "sampleHeap =
     \<lparr>hSelectors = [0 \<mapsto> \<lparr>MatchLabels = [], MatchExpressions = []\<rparr>],
      hThresholds = [1 \<mapsto> \<lparr>MinUnhealthyPodsCount = Some 2, MinUnhealthyPodsPercentage = None\<rparr>],
      hConditions = (\<lambda>_. None), nextLoc = 2\<rparr>"

text \<open>
  C39. A deep copy of a policy has the same content and leaves the original as it was, and writing the
  copy's selector does not reach the original; but the copy shares the node taint threshold with it:
  a threshold written through the copy is the threshold of the original.
\<close>

theorem deep_copy_shares_threshold:
  assumes "allocated h p" and "DeepCopyPolicy (Some p) h = (Some q, h')"
  shows "content h' q = content h p \<and> content h' p = content h p \<and>
     content (writeSelector q s h') p = content h p \<and>
     (\<forall>l. vNodeTaintThreshold (vActions (vSpec p)) = Some l \<longrightarrow>
        fst (snd (snd (content (writeThreshold q t h') p))) = Some t)"
  using assms
  by (auto simp: DeepCopyPolicy_def DeepCopyInto_unfold content_def allocated_def writeSelector_def
      writeThreshold_def split: option.splits)

theorem deep_copy_shares_threshold_witness:
  "\<exists>q h'. DeepCopyPolicy (Some samplePolicyV) sampleHeap = (Some q, h') \<and>
     fst (snd (snd (content (writeThreshold q
       \<lparr>MinUnhealthyPodsCount = Some 9, MinUnhealthyPodsPercentage = None\<rparr> h') samplePolicyV))) =
     Some \<lparr>MinUnhealthyPodsCount = Some 9, MinUnhealthyPodsPercentage = None\<rparr>"
proof -
  have alloc: "allocated sampleHeap samplePolicyV"
    by (simp add: allocated_def sampleHeap_def samplePolicyV_def)
  obtain q h' where run: "DeepCopyPolicy (Some samplePolicyV) sampleHeap = (Some q, h')"
    by (simp add: DeepCopyPolicy_def DeepCopyInto_unfold)
  have "vNodeTaintThreshold (vActions (vSpec samplePolicyV)) = Some 1" by (simp add: samplePolicyV_def)
  with run deep_copy_shares_threshold [OF alloc run] show ?thesis by blast
qed

text \<open>
  A deep copy of a list of policies, as the client's cache hands it out: nil stays nil, every item
  of the copy has the content of its original, the originals keep theirs, and writing the label
  selector of one copied item changes neither an original nor another item of the copy.
\<close>

theorem list_copy_is_independent:
  assumes "DeepCopyObjectList (Some l) h = (Some (ListObject l'), h')"
    and "vItems l = Some ps" and "list_all (allocated h) ps"
  shows "\<exists>qs. vItems l' = Some qs \<and> list_all2 (\<lambda>p q. content h' q = content h p) ps qs \<and>
     (\<forall>i<length qs. \<forall>s.
        (\<forall>p\<in>set ps. content (writeSelector (qs ! i) s h') p = content h p) \<and>
        (\<forall>j<length qs. j \<noteq> i \<longrightarrow> content (writeSelector (qs ! i) s h') (qs ! j) = content h' (qs ! j)))"
proof -
  obtain qs where qs: "DeepCopyItems ps h = (qs, h')" "vItems l' = Some qs"
    using assms(1,2)
    by (auto simp: DeepCopyObjectList_def DeepCopyList_def deepCopyPtr_def DeepCopyIntoList_def Let_def
        split: prod.splits)
  note fresh = DeepCopyItems_fresh [OF qs(1)]
  have ext: "extends h h'" "list_all2 (\<lambda>p q. content h' q = content h p) ps qs"
    using DeepCopyItems_content [OF qs(1) assms(3)] by simp_all
  have "content (writeSelector (qs ! i) s h') p = content h p" if "i < length qs" "p \<in> set ps" for i p s
  proof -
    have "allocated h p" using assms(3) that(2) by (simp add: list_all_iff)
    moreover have "nextLoc h \<le> vSelector (vSpec (qs ! i))" using fresh that(1) by simp
    ultimately have "content (writeSelector (qs ! i) s h') p = content h' p"
      by (intro content_writeSelector) (simp add: allocated_def)
    with extends_content [OF ext(1) \<open>allocated h p\<close>] show ?thesis by simp
  qed
  moreover have "content (writeSelector (qs ! i) s h') (qs ! j) = content h' (qs ! j)"
    if "i < length qs" "j < length qs" "j \<noteq> i" for i j s
    using fresh that by (intro content_writeSelector) (auto simp: distinct_conv_nth)
  ultimately show ?thesis using qs(2) ext(2) by blast
qed

theorem list_copy_is_independent_witness:
  "\<exists>l' h' qs. DeepCopyObjectList (Some \<lparr>vItems = Some [samplePolicyV]\<rparr>) sampleHeap = (Some (ListObject l'), h') \<and>
     vItems l' = Some qs \<and> list_all2 (\<lambda>p q. content h' q = content sampleHeap p) [samplePolicyV] qs"
proof -
  have "\<exists>l' h'. DeepCopyObjectList (Some \<lparr>vItems = Some [samplePolicyV]\<rparr>) sampleHeap = (Some (ListObject l'), h')"
    by (simp add: DeepCopyObjectList_def DeepCopyList_def deepCopyPtr_def DeepCopyIntoList_def split: prod.split)
  then obtain l' h' where run:
    "DeepCopyObjectList (Some \<lparr>vItems = Some [samplePolicyV]\<rparr>) sampleHeap = (Some (ListObject l'), h')" by blast
  moreover have "allocated sampleHeap samplePolicyV"
    by (simp add: allocated_def sampleHeap_def samplePolicyV_def)
  ultimately show ?thesis
    using list_copy_is_independent [OF run, of "[samplePolicyV]"] by auto
qed

end
