(* ===== verification/Spec2Isabelle.thy ===== *)
theory Spec2Isabelle
  imports Evaluator_Window Agent_Props Spy_Props Pod_Mutator_Props Health_Controller_Props Operator_Main Deep_Copy
begin

text \<open>
  Compute-Sentry watches the collective operations of GPU workloads on Kubernetes. This development
  models its programs and proves what makes them correct. Paths below are relative to \<open>src/\<close>.

  \<^bold>\<open>The parts of the program and how they interact.\<close>
  The \<^emph>\<open>pod mutating webhook\<close> of the operator (\<open>operator/internal/webhook/v1/pod_mutator.go\<close>) injects the
  spy library, a pre-check container and the governance configuration of the matching policy into a
  pod. The \<^emph>\<open>spy library\<close> (\<open>spy/\<close>, C++) runs inside the workload: it wraps \<open>ncclAllReduce\<close>, queues one
  event per call in a lock-free ring buffer, and a background thread sends the events as datagrams.
  The \<^emph>\<open>agent\<close> of the node (\<open>agent/\<close>) decodes them (\<open>collector.go\<close>), exports them as metrics
  (\<open>prometheus.go\<close>) and evaluates them in a sliding window (\<open>evaluator.go\<close>), with the limits that it reads
  from the annotation written by the webhook; it marks slow pods by a health annotation. The
  \<^emph>\<open>health controller\<close> of the operator (\<open>health_controller.go\<close>) reads that annotation, taints nodes and
  evicts pods, as far as the policy allows. \<open>main.go\<close> of the agent and \<open>cmd/main.go\<close> of the operator
  start these parts; the policy webhook and the policy reconciler are scaffolds.

  \<^bold>\<open>The theories.\<close>
  \<^item> Language and libraries: \<open>Prelude\<close> (fixed-width integers, Go maps, errors, rule collections),
    \<open>Go_Strings\<close>, \<open>Go_Time\<close>, \<open>Go_Float\<close> (rounding of \<open>float64\<close>), \<open>Go_Json\<close> and \<open>Go_Json_Roundtrip\<close>,
    \<open>Go_Action\<close> (calls of services with errors, and triples for them), \<open>Go_Chan\<close> (buffered channels
    and the contract \<open>bounded_fifo\<close>), \<open>Transition\<close> (the contract \<open>invariant_system\<close> of step relations).
  \<^item> Data: \<open>Api_Types\<close> (the policy types of \<open>computesentrypolicy_types.go\<close> and their JSON form),
    \<open>Kube_Types\<close> (the parts of pods and nodes that the program uses).
  \<^item> Spy library: \<open>Spy_Queue\<close> is \<open>queue.h\<close>, once as functions on the buffer and once as a machine whose
    steps are the single accesses of any number of producers and one consumer; \<open>Spy_Library\<close> is
    \<open>spy.cpp\<close> and \<open>uds.h\<close>: detection of names, the hook, the socket client and the background thread
    (\<open>spy_step\<close>); \<open>Spy_Props\<close> holds the facts and properties.
  \<^item> Agent: \<open>Collector\<close> and \<open>Collector_Props\<close> are \<open>collector.go\<close> with the wire format and its round trip;
    \<open>Exporter\<close> is \<open>prometheus.go\<close>; \<open>Evaluator\<close> has one definition per method of \<open>evaluator.go\<close> over the
    record of its struct, with the three critical sections of \<open>processEvent\<close> as separate functions;
    \<open>Evaluator_Facts\<close> reduces its loops to filters; \<open>Evaluator_Runs\<close> interleaves its goroutines at the
    granularity of the mutex (\<open>sys_step\<close>, \<open>periodicSync\<close>); \<open>Evaluator_Props\<close> and \<open>Evaluator_Window\<close> hold
    the properties, the latter the refinement of a window over the whole history of a pod;
    \<open>Agent_Main\<close> and \<open>Agent_Props\<close> are \<open>main.go\<close>: start-up, file distribution and the pipeline
    (\<open>agent_step\<close>) between reader, main loop and evaluator.
  \<^item> Operator: \<open>Policy_Match\<close> (the contract of a policy lookup, which both the webhook and the controller
    provide), \<open>Pod_Mutator\<close> and \<open>Pod_Mutator_Props\<close>; \<open>Health_Controller\<close> (every method over an abstract
    API server), \<open>Controller_Log\<close> (the calls a run makes), \<open>Controller_Nodes\<close> (the effect on servers that
    store nodes), \<open>Controller_Patches\<close> (what a node patch rests on), \<open>Health_Controller_Props\<close>;
    \<open>Operator_Main\<close> (\<open>cmd/main.go\<close>, \<open>groupversion_info.go\<close>, the two \<open>SetupWithManager\<close>, the policy webhook
    and reconciler); \<open>Deep_Copy\<close> (\<open>zz_generated.deepcopy.go\<close> over a heap).
  \<^item> This theory: the properties that span components.

  \<^bold>\<open>State, effects and errors.\<close> A Go struct or C++ class is a record, a map an association list with
  one entry per key whose order stands for the unspecified order of iteration, \<open>int64\<close> and \<open>byte\<close> are
  words, a time is an unbounded number of nanoseconds and a duration a 64-bit word. Code that is not in
  the repository is a parameter: the API server, the file system, the sockets, the CUDA runtime, the
  clock, the controller-runtime and Prometheus libraries. Where an effect depends on their documented
  behaviour it is a named hypothesis (\<open>nodeStore\<close>, \<open>mergesAnnotations\<close>, \<open>fileSystem\<close>, \<open>acceptingSockets\<close>, \<open>kubeletEnv\<close>,
  \<open>prometheusClient\<close>) with an
  instance in a witness. Errors are values of \<open>goError\<close>; a panic of \<open>Stop\<close> is \<open>None\<close>, and a
  panic of the metrics library or a failure of the exporter ends \<open>agent_step\<close>. What the C++ code
  leaves uninitialised is an argument over which every statement quantifies.

  \<^bold>\<open>What the lemmas show.\<close>
  \<^item> From the workload to the evaluation: the hook is transparent; the ring buffer is a bounded queue, and
    with one producer and one consumer loses, reorders and races on nothing; what is exported is a
    subsequence of what was queued; the name of a pod arrives as the key of the evaluator; and the limits
    that are applied are those of the policy (\<open>injected_pod_is_judged_by_its_policy\<close>, \<open>spy_to_exporter\<close>).
  \<^item> Evaluation: when an event flags a pod; that pruning and map order do not matter; the refinement of
    the window over the whole history; that a pod that stays slow is reported; the invariant of the
    interleaved goroutines and their end after \<open>Stop\<close>; that recovery does not happen
    while the ticks are close together relative to the window.
  \<^item> Pipeline: what is in flight is bounded, it comes to rest, and everything decoded is then exported.
  \<^item> Webhook: when it patches and when it refuses, that it keeps the workload, what it annotates, and that
    it injects again on updates.
  \<^item> Controller: evictions and node patches are justified by what the same run has read, the two
    floating-point tests against exact arithmetic, the effect of tainting and of untainting on a server; and that an
    agent's patch leads to the taint (\<open>slow_event_taints_node\<close>).
  \<^item> Operator: deep copies share the taint threshold.

  \<^bold>\<open>Bounds and termination.\<close> There is no fuel: every loop is a structural recursion over a list, and
  the loops that do not end (\<open>listen\<close>, \<open>runLoop\<close>, \<open>periodicSync\<close>, \<open>BackgroundSender\<close>, the main loop) are step
  relations or functions of the list of their inputs. The capacities are those of the code: 1000 for both
  channels of the agent, 4096 slots for the ring buffer. The exactness of the floating-point tests is
  proved for lists of up to \<open>2 ^ 50\<close> pods, of the tripled window for windows below \<open>2 ^ 63 / 3\<close> nanoseconds.

  \<^bold>\<open>Not modelled.\<close> Log output, timeouts of API requests and the duration of blocking calls; the memory
  model of C++ beyond the interleaving of atomic accesses (the absence of simultaneous accesses to a
  slot is proved for one producer); reads of the manager's client from a stale cache, and other writers of
  nodes during a run; workload threads that call the hook at once (only \<open>Spy_Queue\<close> interleaves producers);
  the JSON form of whole pods and the computation of the JSON patch
  (library code); parsing of command-line flags; the mock agent and the test helpers, the pre-check
  shell script, the manifests and the charts, which are not part of the running programs.
\<close>

section \<open>Facts that span components\<close>

lemma annotation_keys:
  "HealthAnnotation = healthAnnotationKey" "GovernanceConfigAnnotation = governanceAnnotation"
  by (simp_all add: HealthAnnotation_def healthAnnotationKey_def GovernanceConfigAnnotation_def
      governanceAnnotation_def)

lemma annotation_governance:
  "annotation (mutatePod (Some p) pod) GovernanceConfigAnnotation = Some (marshalGovernance (governanceOf p))"
  by (simp add: annotation_keys annotation_mutatePod)

text \<open>
  The agent and the controller speak of the same annotation: the patch that the agent sends is JSON
  text for a merge patch that sets the one annotation which the controller reads.
\<close>

definition setsAnnotation :: "string \<Rightarrow> string \<Rightarrow> string \<Rightarrow> bool" where
  "setsAnnotation body k v \<longleftrightarrow>
     parseJson body = Some (JObj [(''metadata'', JObj [(''annotations'', JObj [(k, JStr v)])])])"

lemma healthPatch_setsAnnotation: "setsAnnotation (healthPatch status) healthAnnotationKey status"
  unfolding setsAnnotation_def healthPatch_def annotation_keys
  by (rule parseJson_jsonPrint) (simp_all add: maxNestingDepth_def healthAnnotationKey_def)

lemma isUnhealthy_setAnnotation:
  "isUnhealthy (setAnnotation healthAnnotationKey status pod) = (status = ''unhealthy'')"
  by (simp add: isUnhealthy_def annotation_setAnnotation)

lemma processEvent_patch_unhealthy:
  "PatchPod ns name body \<in> set (snd (processEvent api now now2 ev e)) \<Longrightarrow> body = healthPatch ''unhealthy''"
proof (cases "evaluates ev")
  case True
  assume "PatchPod ns name body \<in> set (snd (processEvent api now now2 ev e))"
  with True show ?thesis by (simp add: processEvent_patches split: if_splits)
qed (simp add: processEvent_def)

text \<open>An API server that applies such a patch to a pod: a JSON merge patch that sets one annotation.\<close>

definition mergesAnnotations :: "(string \<Rightarrow> Pod \<Rightarrow> Pod) \<Rightarrow> bool" where
  "mergesAnnotations patch \<longleftrightarrow>
     (\<forall>body k v pod. setsAnnotation body k v \<longrightarrow> patch body pod = setAnnotation k v pod)"

definition mergeAnnotation :: "string \<Rightarrow> Pod \<Rightarrow> Pod" where
  "mergeAnnotation body pod =
     (case parseJson body of
        Some (JObj [(m, JObj [(a, JObj [(k, JStr v)])])]) \<Rightarrow>
          if m = ''metadata'' \<and> a = ''annotations'' then setAnnotation k v pod else pod
      | _ \<Rightarrow> pod)"

lemma mergesAnnotations_merge: "mergesAnnotations mergeAnnotation"
  by (simp add: mergesAnnotations_def setsAnnotation_def mergeAnnotation_def)

text \<open>A cluster that holds the pod of the sample event, alone on its node.\<close>

definition trainingCluster :: "Pod \<Rightarrow> Cluster" where
  "trainingCluster pod = sampleCluster\<lparr>clPods := [pod]\<rparr>"

definition trainingController :: "Pod \<Rightarrow> Cluster HealthController" where
  "trainingController pod = memController\<lparr>ClientF := memClient\<lparr>ListPodsOnNode := (\<lambda>n s. (Inr [pod], s))\<rparr>\<rparr>"

lemma nodeStore_training: "nodeStore memNode (trainingController pod)"
  using nodeStore_mem by (simp add: trainingController_def nodeStore_def memController_def leavesNodes_def)

lemma matchPolicy_firstMatching: "matchPolicy asSel ls ps = firstMatching asSel ls ps"
  by (simp only: webhook.lookup_find controller.lookup_find)

lemma shouldInject_setAnnotation:
  "k \<noteq> injectAnnotation \<Longrightarrow> shouldInject (setAnnotation k v pod) mp = shouldInject pod mp"
  by (simp add: shouldInject_def annotation_setAnnotation)

definition agentApiOf :: "Pod \<Rightarrow> AgentApi" where
  "agentApiOf pod =
     \<lparr>apiGetPod = (\<lambda>ns n. if ns = Namespace pod \<and> n = Name pod then Inr pod else Inl (NotFoundError n)),
      apiListPods = (\<lambda>_. Inr [pod])\<rparr>"

text \<open>
  The environment that the kubelet gives to a container, as far as the injected variables need it: of
  several variables with one name the last one counts, a plain variable has its value, and a field
  reference to the name or the namespace has that of the pod.
\<close>

definition kubeletEnv :: "Pod \<Rightarrow> Container \<Rightarrow> environment \<Rightarrow> bool" where
  "kubeletEnv pod c getenv \<longleftrightarrow>
     (\<forall>us v ws. CEnv c = us @ v # ws \<longrightarrow> EnvName v \<notin> EnvName ` set ws \<longrightarrow>
        (EnvValueFrom v = None \<longrightarrow> getenv (EnvName v) = Some (EnvValue v)) \<and>
        (EnvValueFrom v = Some (FieldRef ''metadata.name'') \<longrightarrow> getenv (EnvName v) = Some (Name pod)) \<and>
        (EnvValueFrom v = Some (FieldRef ''metadata.namespace'') \<longrightarrow>
           getenv (EnvName v) = Some (Namespace pod)))"

lemma kubeletEnv_injected:
  assumes "kubeletEnv pod (injectContainer c) getenv"
  shows "getenv ''COMPUTE_SENTRY_UDS_PATH'' = Some ''/var/run/compute-sentry/spy.sock''"
    "getenv ''COMPUTE_SENTRY_POD_NAME'' = Some (Name pod)"
    "getenv ''COMPUTE_SENTRY_POD_NAMESPACE'' = Some (Namespace pod)"
proof -
  let ?uds = "envVar ''COMPUTE_SENTRY_UDS_PATH'' ''/var/run/compute-sentry/spy.sock''"
  let ?name = "fieldEnv ''COMPUTE_SENTRY_POD_NAME'' ''metadata.name''"
  let ?ns = "fieldEnv ''COMPUTE_SENTRY_POD_NAMESPACE'' ''metadata.namespace''"
  obtain us where env: "CEnv (injectContainer c) = us @ [?uds, ?name, ?ns]"
    by (cases "preload (CEnv c)") (simp add: injectContainer_def)
  note rule = assms [unfolded kubeletEnv_def env, rule_format]
  show "getenv ''COMPUTE_SENTRY_UDS_PATH'' = Some ''/var/run/compute-sentry/spy.sock''"
    using rule [of us ?uds "[?name, ?ns]"] by (simp add: envVar_def fieldEnv_def)
  show "getenv ''COMPUTE_SENTRY_POD_NAME'' = Some (Name pod)"
    using rule [of "us @ [?uds]" ?name "[?ns]"] by (simp add: fieldEnv_def)
  show "getenv ''COMPUTE_SENTRY_POD_NAMESPACE'' = Some (Namespace pod)"
    using rule [of "us @ [?uds, ?name]" ?ns "[]"] by (simp add: fieldEnv_def)
qed

lemma listen_filter_noise: "listen (filter (\<lambda>r. \<not> isNoise r) rs) = listen rs"
  by (induction rs) (simp_all add: listenOnce_noise split: option.split)

lemma subseq_prefixI: "xs = ys @ zs \<Longrightarrow> subseq ys xs"
  by (simp add: prefix_imp_subseq)

definition sampleEnvironment :: environment where
  "sampleEnvironment =
     [''RANK'' \<mapsto> ''0'', ''LD_PRELOAD'' \<mapsto> spyLibrary @ '':/lib/a.so'',
      ''COMPUTE_SENTRY_UDS_PATH'' \<mapsto> ''/var/run/compute-sentry/spy.sock'',
      ''COMPUTE_SENTRY_POD_NAME'' \<mapsto> ''p'', ''COMPUTE_SENTRY_POD_NAMESPACE'' \<mapsto> ''ns'']"

lemma kubeletEnv_sample:
  "kubeletEnv (mutatePod (Some samplePolicy) samplePod) (injectContainer sampleContainer) sampleEnvironment"
  by (auto simp: kubeletEnv_def injectContainer_def sampleContainer_def envVar_def fieldEnv_def
      sampleEnvironment_def samplePod_def append_eq_Cons_conv Cons_eq_append_conv)

definition deliveredSpy :: "unit spy" where
  "deliveredSpy = senderTurn liveSockets [0, 0, 0, 0] readySpy"

lemma deliveredSpy_reached: "(spy_step liveSockets (\<lambda>_. None) None)\<^sup>*\<^sup>* idleSpy deliveredSpy"
proof -
  have "spy_step liveSockets (\<lambda>_. None) None readySpy deliveredSpy"
    unfolding deliveredSpy_def
    by (rule spy_step.turn) (simp_all add: readySpy_def oneQueued_def idleSpy_def)
  with readySpy_reached show ?thesis by (rule rtranclp.rtrancl_into_rtrancl)
qed

lemma deliveredSpy_sel:
  "datagrams deliveredSpy = [spyBytes [0, 0, 0, 0] (hookEvent initialInfo blankEvent 5 1)]"
  "queued deliveredSpy = [hookEvent initialInfo blankEvent 5 1]"
proof -
  have "Pop Capacity (event_queue readySpy) =
      Some (hookEvent initialInfo blankEvent 5 1, (event_queue readySpy)\<lparr>head := 1\<rparr>)"
    by (simp add: readySpy_def oneQueued_def idleSpy_def emptyQueue_def Push_def Pop_def Capacity_def)
  moreover obtain c' s' where "Send liveSockets [0, 0, 0, 0] (hookEvent initialInfo blankEvent 5 1)
      (client readySpy) (sockets readySpy) = (True, c', s')"
    using Send_accepted [of liveSockets "hookEvent initialInfo blankEvent 5 1" "[0, 0, 0, 0]"] wf_blankEvent
    by (auto simp: wf_hookEvent acceptingSockets_def liveSockets_def deadSockets_def)
  moreover have "datagrams readySpy = []" "queued readySpy = [hookEvent initialInfo blankEvent 5 1]"
    by (simp_all add: readySpy_def oneQueued_def idleSpy_def)
  ultimately show "datagrams deliveredSpy = [spyBytes [0, 0, 0, 0] (hookEvent initialInfo blankEvent 5 1)]"
    "queued deliveredSpy = [hookEvent initialInfo blankEvent 5 1]"
    by (simp_all add: deliveredSpy_def senderTurn_def)
qed

text \<open>What one of several sources contributes to a sequence of reads or events that are tagged with their source.\<close>

definition ofSource :: "'i \<Rightarrow> ('i \<times> 'a) list \<Rightarrow> 'a list" where
  "ofSource i xs = map snd (filter (\<lambda>x. fst x = i) xs)"

fun eventsOf :: "('i \<times> (goError + byte list)) list \<Rightarrow> ('i \<times> MetricEvent) list" where
  "eventsOf [] = []"
| "eventsOf ((i, r) # xs) =
     (case listenOnce r of None \<Rightarrow> eventsOf xs | Some event \<Rightarrow> (i, event) # eventsOf xs)"

lemma ofSource_append: "ofSource i (xs @ ys) = ofSource i xs @ ofSource i ys"
  by (simp add: ofSource_def)

lemma eventsOf_snd: "map snd (eventsOf xs) = listen (map snd xs)"
  by (induction xs rule: eventsOf.induct) (simp_all split: option.split)

lemma ofSource_eventsOf: "ofSource i (eventsOf xs) = listen (ofSource i xs)"
  by (induction xs rule: eventsOf.induct) (simp_all add: ofSource_def split: option.split)

lemma spy_delivers:
  assumes "spy_init s0 \<and> (spy_step os getenv libcudart)\<^sup>*\<^sup>* s0 s"
  shows "subseq (listen (map Inr (take n (datagrams s)))) (queued s)"
proof -
  have "spy_inv s" using spy.inv_reachable assms by blast
  then have spy: "subseq (listen (map Inr (datagrams s))) (taken s)" "subseq (taken s) (queued s)"
    by (auto simp: spy_inv_def)
  have "listen (map Inr (datagrams s)) =
      listen (map Inr (take n (datagrams s))) @ listen (map Inr (drop n (datagrams s)))"
    using listen_append [of "map Inr (take n (datagrams s))" "map Inr (drop n (datagrams s))"]
    by (simp only: map_append [symmetric] append_take_drop_id)
  then have "subseq (listen (map Inr (take n (datagrams s)))) (listen (map Inr (datagrams s)))"
    by (rule subseq_prefixI)
  with spy show ?thesis using subseq_order.order_trans by metis
qed

section \<open>Properties\<close>

text \<open>
  The configuration of a policy reaches the agent: when the webhook has injected a pod for a
  policy and the agent reads that pod from the API server, it caches and uses exactly the policy's
  thresholds and evaluation parameters: the latency limit, the window in seconds and the violation
  limit that the evaluation applies to the pod's events are the policy's.
\<close>

theorem policy_reaches_agent:
  assumes "k8sClient e"
    and "apiGetPod api (Namespace pod) (Name pod) = Inr (mutatePod (Some p) pod)"
  shows "\<exists>c e'. fetchAndCachePodConfig api (Namespace pod) (Name pod) e = (Some c, e') \<and>
     map_of (podConfigs e') (Namespace pod @ ''/'' @ Name pod) = Some c \<and>
     limits (Some c) e' =
       (MaxNCCLLatencyUs (ThresholdsF (Spec p)), seconds (WindowSize (EvalConfigF (Spec p))),
        ErrorCountLimit (EvalConfigF (Spec p)))"
  using assms
  by (simp add: fetchAndCachePodConfig_def annotation_governance unmarshal_marshal governanceOf_def
      limits_def podKeyOf_def go_map_simps)

theorem policy_reaches_agent_witness:
  "\<exists>c e'. fetchAndCachePodConfig (agentApiOf (mutatePod (Some samplePolicy) samplePod)) ''ns'' ''p''
       (SetK8sClient True (NewHealthEvaluator 10 5 500)) = (Some c, e') \<and>
     limits (Some c) e' = (1000, seconds 60, 5)"
  using policy_reaches_agent [of "SetK8sClient True (NewHealthEvaluator 10 5 500)"
      "agentApiOf (mutatePod (Some samplePolicy) samplePod)" samplePod samplePolicy]
  by (simp add: SetK8sClient_def agentApiOf_def) (auto simp: samplePod_def samplePolicy_def)

text \<open>
  C4. From the workload to its policy, for pods whose name and namespace are at most 62 characters long.
  The hook of a container that the webhook has injected for a policy, run by a kubelet that resolves
  the injected variables, sends its events to the socket that the agent listens on by default; and an
  event that is built after the background thread has run \<open>DetectPodInfo\<close> is decoded to one event of
  the pod's own key, which the agent evaluates with the latency limit, the window and the violation
  limit of that policy, whether it has this configuration in its cache or reads it from the pod. (Events
  hooked before that carry the name \<open>unknown\<close>; for longer names see C20.)
\<close>

theorem injected_pod_is_judged_by_its_policy:
  assumes "injectContainer c0 \<in> set (Containers (mutatePod (Some p) pod))"
    and "kubeletEnv (mutatePod (Some p) pod) (injectContainer c0) getenv"
    and "length (Name pod) \<le> 62" and "length (Namespace pod) \<le> 62"
    and "CHR 0x00 \<notin> set (Name pod)" and "CHR 0x00 \<notin> set (Namespace pod)"
    and "Name pod \<notin> {'''', ''unknown''}"
    and "wf_info info" and "wf_event junk" and "length pad = 4"
    and "k8sClient e" and "apiGetPod api (Namespace pod) (Name pod) = Inr (mutatePod (Some p) pod)"
    and "map_of (podConfigs e) (podKeyOf (Namespace pod) (Name pod)) \<in> {None, Some (governanceOf p)}"
  shows "getenv ''COMPUTE_SENTRY_UDS_PATH'' = Some (udsPath defaultFlags) \<and>
     (\<exists>ev. listen [Inr (spyBytes pad (hookEvent (DetectPodInfo getenv info) junk d n))] = [ev] \<and>
        evaluates ev \<and> DurationUs ev = d \<and> eventKey ev = podKeyOf (Namespace pod) (Name pod) \<and>
        limits (fst (peFetch api ev (fst (peBegin now ev e)) (snd (peBegin now ev e)))) e =
          (MaxNCCLLatencyUs (ThresholdsF (Spec p)), seconds (WindowSize (EvalConfigF (Spec p))),
           ErrorCountLimit (EvalConfigF (Spec p))))"
proof -
  let ?ev = "hookEvent (DetectPodInfo getenv info) junk d n"
  note env = kubeletEnv_injected [OF assms(2)]
  have names: "bytesToString (PodName ?ev) = Name pod" "bytesToString (PodNamespace ?ev) = Namespace pod"
    using hookEvent_names [OF assms(8,9), of getenv "Name pod" "Namespace pod" d n] env assms(3-6)
    by (simp_all add: carried_def)
  have "EvType ?ev = NCCL_ALL_REDUCE" "DurationUs ?ev = d" by (simp_all add: hookEvent_def)
  moreover have "listenOnce (Inr (spyBytes pad ?ev)) = Some ?ev"
    by (rule listenOnce_spyBytes [OF wf_hookEvent [OF assms(9)] assms(10)])
  moreover have "effectiveConfig api ?ev e = Some (governanceOf p)"
    using assms(11-13) names
    by (auto simp: effectiveConfig_def eventKey_def fetchAndCachePodConfig_def annotation_governance
        unmarshal_marshal)
  then have "fst (peFetch api ?ev (fst (peBegin now ?ev e)) (snd (peBegin now ?ev e))) = Some (governanceOf p)"
    by (simp only: peFetch_effective peBegin_sel)
  ultimately show ?thesis
    using assms(7) names env(1)
    by (simp add: evaluates_def eventKey_def limits_def governanceOf_def defaultFlags_def)
qed

theorem injected_pod_is_judged_by_its_policy_witness:
  "\<exists>ev. listen [Inr (spyBytes [0, 0, 0, 0]
       (hookEvent (DetectPodInfo sampleEnvironment initialInfo) sampleJunk 1500 1))] = [ev] \<and>
     eventKey ev = ''ns/p'' \<and>
     limits (fst (peFetch (agentApiOf (mutatePod (Some samplePolicy) samplePod)) ev
       (fst (peBegin 5 ev sampleEvaluator)) (snd (peBegin 5 ev sampleEvaluator)))) sampleEvaluator =
       (1000, seconds 60, 5)"
proof -
  let ?api = "agentApiOf (mutatePod (Some samplePolicy) samplePod)"
  have "k8sClient sampleEvaluator" "podConfigs sampleEvaluator = []"
    by (simp_all add: sampleEvaluator_def SetK8sClient_def NewHealthEvaluator_def)
  moreover have "injectContainer sampleContainer \<in> set (Containers (mutatePod (Some samplePolicy) samplePod))"
    "apiGetPod ?api (Namespace samplePod) (Name samplePod) = Inr (mutatePod (Some samplePolicy) samplePod)"
    by (simp_all add: agentApiOf_def) (simp add: samplePod_def)
  ultimately have "\<exists>ev. listen [Inr (spyBytes [0, 0, 0, 0]
       (hookEvent (DetectPodInfo sampleEnvironment initialInfo) sampleJunk 1500 1))] = [ev] \<and>
     eventKey ev = podKeyOf (Namespace samplePod) (Name samplePod) \<and>
     limits (fst (peFetch ?api ev (fst (peBegin 5 ev sampleEvaluator)) (snd (peBegin 5 ev sampleEvaluator))))
       sampleEvaluator =
       (MaxNCCLLatencyUs (ThresholdsF (Spec samplePolicy)), seconds (WindowSize (EvalConfigF (Spec samplePolicy))),
        ErrorCountLimit (EvalConfigF (Spec samplePolicy)))"
    using injected_pod_is_judged_by_its_policy [OF _ kubeletEnv_sample _ _ _ _ _ wf_info_initial wf_sampleJunk,
        of "[0, 0, 0, 0]" sampleEvaluator ?api 1500 1 5]
    by (auto simp: samplePod_def)
  then show ?thesis by (simp add: samplePod_def samplePolicy_def podKeyOf_def)
qed

text \<open>
  C24. Marshalling and unmarshalling a governance configuration are inverse: every configuration,
  zero and negative fields included, is read back as it was written, although zero fields are
  omitted from the JSON text.
\<close>

theorem governance_roundtrip:
  "unmarshalGovernance (marshalGovernance c) = Some c"
  by (rule unmarshal_marshal)

text \<open>
  C3. A slow training step ends in a tainted node. If the agent, in whatever state, answers an event
  with a patch for a pod, an API server applies that patch as a merge patch, the controller then
  reconciles the patched pod, the first policy that selects the pod enables tainting without a
  threshold, and the run returns without error, then the node that the pod runs on carries the
  sentry's taint. The agent's patch text, its annotation key and its value are thus what the
  controller looks for.
\<close>

theorem slow_event_taints_node:
  assumes "PatchPod ns name body \<in> set (snd (processEvent api now now2 ev e))"
    and "mergesAnnotations patch"
    and "nodeStore nodes r"
    and "GetPod (ClientF r) ns name s = (Inr (patch body pod), s1)"
    and "ListComputeSentryPolicies (ClientF r) s1 = (Inr policies, s2)"
    and "List.find (selects asSel (Labels pod)) policies = Some p"
    and "EnableTaint (ActionsF (Spec p))" and "NodeTaintThresholdF (ActionsF (Spec p)) = None"
    and "NodeName pod \<noteq> ''''"
    and "\<forall>t pods t'. ListPodsOnNode (ClientF r) (NodeName pod) t = (Inr pods, t') \<longrightarrow> patch body pod \<in> set pods"
    and "Reconcile r asSel ns name s = (Inr res, s')"
  shows "\<exists>node. nodes s' (NodeName pod) = Some node \<and> isTainted node"
proof -
  have "body = healthPatch ''unhealthy''" using assms(1) by (rule processEvent_patch_unhealthy)
  then have patched: "patch body pod = setAnnotation healthAnnotationKey ''unhealthy'' pod"
    using assms(2) healthPatch_setsAnnotation unfolding mergesAnnotations_def by blast
  then have "isUnhealthy (patch body pod)" by (simp add: isUnhealthy_setAnnotation)
  then have wanted: "taintWanted p pods" if "ListPodsOnNode (ClientF r) (NodeName pod) t = (Inr pods, t')" for t pods t'
    using that assms(8,10) by (auto simp: taintWanted_def list_ex_iff)
  have "taintedAt (NodeName (patch body pod)) (nodes s')"
  proof (rule Reconcile_taints [OF assms(3,4,5) _ assms(7) _ _ assms(11)])
    show "firstMatching asSel (Labels (patch body pod)) policies = Some p"
      using assms(6) by (simp add: patched controller.lookup_find)
  qed (use assms(9) wanted in \<open>simp_all add: patched\<close>)
  then show ?thesis by (auto simp: patched taintedAt_def split: option.splits)
qed

theorem slow_event_taints_node_witness:
  "\<exists>body s' node. snd (processEvent noApi 5 6 (sampleEvent 900) sampleEvaluator) = [PatchPod ''ns'' ''w0'' body] \<and>
     (let pod = mergeAnnotation body (clusterPod ''w0'' False) in
        Reconcile (trainingController pod) requireLabels ''ns'' ''w0'' (trainingCluster pod) = (Inr emptyResult, s')) \<and>
     memNode s' ''n1'' = Some node \<and> isTainted node"
proof -
  let ?body = "healthPatch ''unhealthy''" and ?old = "clusterPod ''w0'' False"
  let ?pod = "mergeAnnotation ?body ?old"
  have sent: "snd (processEvent noApi 5 6 (sampleEvent 900) sampleEvaluator) = [PatchPod ''ns'' ''w0'' ?body]"
    by code_simp
  have "?pod = setAnnotation healthAnnotationKey ''unhealthy'' ?old"
    using mergesAnnotations_merge healthPatch_setsAnnotation unfolding mergesAnnotations_def by blast
  then have pod: "?pod = clusterPod ''w0'' True" by (simp add: clusterPod_def setAnnotation_def)
  have "\<exists>s'. Reconcile (trainingController ?pod) requireLabels ''ns'' ''w0'' (trainingCluster ?pod) = (Inr emptyResult, s')"
    unfolding operation_defs trainingController_def trainingCluster_def pod
    by (simp add: sample_simps aggregate_def decideTaint_def isTainted_def noChange_def throttleVerdict_def)
  then obtain s' where
    run: "Reconcile (trainingController ?pod) requireLabels ''ns'' ''w0'' (trainingCluster ?pod) = (Inr emptyResult, s')"
    by blast
  have "\<exists>node. memNode s' (NodeName ?old) = Some node \<and> isTainted node"
    by (rule slow_event_taints_node [where p = "clusterPolicy None" and policies = "[clusterPolicy None]" and
          body = ?body and ?s1.0 = "trainingCluster ?pod" and ?s2.0 = "trainingCluster ?pod" and
          api = noApi and now = 5 and ?now2.0 = 6 and ev = "sampleEvent 900" and e = sampleEvaluator,
          OF _ mergesAnnotations_merge nodeStore_training _ _ _ _ _ _ _ run])
      (simp_all add: sent pod, simp_all add: trainingController_def trainingCluster_def sample_simps selects_def)
  with run sent show ?thesis by (auto simp: clusterPod_def Let_def)
qed

text \<open>
  C29. The webhook and the health controller agree on the policy of a pod, for every selector
  implementation and every list of policies, also after the webhook has mutated the pod; it is the
  first policy whose selector compiles and matches.
\<close>

theorem webhook_and_controller_agree:
  "matchPolicy asSel (Labels pod) policies = firstMatching asSel (Labels (mutatePod mp pod)) policies \<and>
   (matchPolicy asSel (Labels pod) policies = Some p \<longleftrightarrow>
     (\<exists>us vs. policies = us @ p # vs \<and> selects asSel (Labels pod) p \<and>
        list_all (\<lambda>u. \<not> selects asSel (Labels pod) u) us))"
  using webhook.lookup_Some_iff [of asSel "Labels pod" policies p]
  by (simp add: matchPolicy_firstMatching list_all_iff)

text \<open>
  C26. The agent's own health patch makes the webhook inject a second time: an update of a pod that
  was injected and whose health annotation the agent has set is, with unchanged policies, answered
  with a patch again, and the patched pod has the sentry's volumes twice, so that its spec differs
  from the spec of the running pod.
\<close>

theorem health_update_reinjects:
  assumes "ListPolicies m = Inr policies"
    and "mp = matchPolicy (LabelSelectorAsSelector m) (Labels pod) policies"
    and "shouldInject pod mp"
    and "updated = setAnnotation HealthAnnotation status (mutatePod mp pod)"
    and "Decode m raw = Inr updated"
    and "MarshalPod m (mutatePod mp updated) = Inr out"
  shows "Handle m raw = PatchResponseFromRaw raw out \<and>
     Volumes (mutatePod mp updated) = Volumes updated @ sentryVolumes @ [binVolume] \<and>
     \<not> distinct (map VolName (Volumes (mutatePod mp updated)))"
proof -
  have "HealthAnnotation \<noteq> injectAnnotation"
    by (simp add: HealthAnnotation_def injectAnnotation_def)
  then have "shouldInject updated mp"
    using assms(3,4) by (simp add: shouldInject_setAnnotation shouldInject_mutatePod)
  moreover have "Labels updated = Labels pod" using assms(4) by simp
  ultimately have "Handle m raw = PatchResponseFromRaw raw out"
    using assms(1,2,5,6) by (simp add: Handle_def Let_def)
  then show ?thesis
    using assms(4) by (simp add: sentryVolumes_def binVolume_def)
qed

theorem health_update_reinjects_witness:
  "let m = sampleEnv\<lparr>Decode := (\<lambda>_. Inr (setAnnotation HealthAnnotation ''unhealthy''
             (mutatePod (Some samplePolicy) samplePod))), MarshalPod := (\<lambda>_. Inr ''out'')\<rparr> in
   Handle m ''u'' = PatchResponseFromRaw ''u'' ''out''"
proof -
  let ?u = "setAnnotation HealthAnnotation ''unhealthy'' (mutatePod (Some samplePolicy) samplePod)"
  let ?m = "sampleEnv\<lparr>Decode := (\<lambda>_. Inr ?u), MarshalPod := (\<lambda>_. Inr ''out'')\<rparr>"
  have "ListPolicies ?m = Inr [samplePolicy]"
    "Some samplePolicy = matchPolicy (LabelSelectorAsSelector ?m) (Labels samplePod) [samplePolicy]"
    using sampleEnv_eval(3,4) by (simp_all del: matchPolicy.simps)
  from health_update_reinjects [OF this sampleEnv_eval(5), where raw = "''u''" and out = "''out''" and
      status = "''unhealthy''" and updated = ?u]
  show ?thesis by (simp add: Let_def)
qed

text \<open>
  What the agent installs on the host is what the webhook mounts and loads: with the agent's
  default flags, the directories of the library, of the pre-check script and of the socket are the
  host paths of the three volumes, the preloaded library and the script of the init container are the
  installed files, and the socket path given to the containers is the one the collector listens on.
\<close>

theorem installed_paths_agree:
  "map VolSource (sentryVolumes @ [binVolume]) =
     [HostPath (Dir (udsPath defaultFlags)), HostPath (Dir (libDest defaultFlags)),
      HostPath (Dir (scriptDest defaultFlags))] \<and>
   spyLibrary = libDest defaultFlags \<and>
   last (Command (precheckContainer envs)) = scriptDest defaultFlags \<and>
   envVar ''COMPUTE_SENTRY_UDS_PATH'' (udsPath defaultFlags) \<in> set (CEnv (injectContainer c))"
  by (simp add: sentryVolumes_def binVolume_def defaultFlags_def Dir_def Clean_def spyLibrary_def
      precheckContainer_def injectContainer_def split: prod.split)

text \<open>
  Nothing checks a policy: a policy without an evaluation window is admitted unchanged by the
  defaulting and by the validating webhook, and it switches the evaluation of its pods off. Once the
  webhook has injected such a policy into a pod, no event of that pod makes the agent report it, on
  the first event, for which the agent reads the configuration from the pod, as on later ones, for
  which it has it in its cache.
\<close>

theorem unvalidated_window_disables_evaluation:
  assumes "WindowSize (EvalConfigF (Spec p)) = 0" and "0 \<le> sint (ErrorCountLimit (EvalConfigF (Spec p)))"
    and "bytesToString (PodNamespace ev) = Namespace pod" and "bytesToString (PodName ev) = Name pod"
    and "k8sClient e" and "apiGetPod api (Namespace pod) (Name pod) = Inr (mutatePod (Some p) pod)"
    and "map_of (podConfigs e) (eventKey ev) \<in> {None, Some (governanceOf p)}"
    and "list_all (\<lambda>t. t \<le> now) (mapIndex [] (violationTimes e) (eventKey ev))" and "now \<le> now2"
  shows "DefaultPolicy p = (None, p) \<and> ValidateCreate p = ([], None) \<and>
     snd (processEvent api now now2 ev e) = []"
proof -
  have "effectiveConfig api ev e = Some (governanceOf p)"
    using assms(3-7)
    by (auto simp: effectiveConfig_def fetchAndCachePodConfig_def annotation_governance unmarshal_marshal)
  then have "snd (processEvent api now now2 ev e) = []"
    by (rule zero_window_silent) (use assms in \<open>simp_all add: governanceOf_def list_all_iff\<close>)
  then show ?thesis by (simp add: DefaultPolicy_def ValidateCreate_def)
qed

theorem unvalidated_window_disables_evaluation_witness:
  "let p = samplePolicy\<lparr>Spec := (Spec samplePolicy)\<lparr>EvalConfigF := zeroEvalConfig\<rparr>\<rparr>;
       pod = samplePod\<lparr>Name := ''w0''\<rparr> in
   ValidateCreate p = ([], None) \<and>
   snd (processEvent (agentApiOf (mutatePod (Some p) pod)) 5 6 (sampleEvent 1000000) sampleEvaluator) = []"
proof -
  let ?p = "samplePolicy\<lparr>Spec := (Spec samplePolicy)\<lparr>EvalConfigF := zeroEvalConfig\<rparr>\<rparr>"
  let ?pod = "samplePod\<lparr>Name := ''w0''\<rparr>"
  have "DefaultPolicy ?p = (None, ?p) \<and> ValidateCreate ?p = ([], None) \<and>
      snd (processEvent (agentApiOf (mutatePod (Some ?p) ?pod)) 5 6 (sampleEvent 1000000) sampleEvaluator) = []"
    by (rule unvalidated_window_disables_evaluation [where pod = ?pod])
      (simp_all add: zeroEvalConfig_def samplePod_def agentApiOf_def sampleEvaluator_def SetK8sClient_def
        NewHealthEvaluator_def mapIndex_def)
  then show ?thesis by (simp add: Let_def)
qed

text \<open>
  C8. The whole path of the metrics, from any number of workloads to one agent. The hook of each
  workload is called by one thread at a time, and the datagrams that the agent reads come from the
  workloads' spy libraries: apart from failed reads and foreign datagrams that are shorter than an
  event, those of workload \<open>i\<close> are the ones that the kernel accepted from it, in order and up to some
  number. Then in all reachable states of the processes the exported samples are those of a sequence
  of events that interleaves, for every workload, a subsequence of the events that its hook has
  queued, so that each is exported at most once and in its workload's order; and what the evaluator
  has got is a subsequence of the exported events.
\<close>

theorem spy_to_exporter:
  assumes "\<forall>i. spy_init (s0 i) \<and> (spy_step (os i) (getenv i) (libcudart i))\<^sup>*\<^sup>* (s0 i) (s i)"
    and "agent_init a0" and "(agent_step xp accepts)\<^sup>*\<^sup>* a0 a"
    and "reads a = map snd tagged"
    and "\<forall>i. filter (\<lambda>r. \<not> isNoise r) (ofSource i tagged) = map Inr (take (n i) (datagrams (s i)))"
  shows "\<exists>done. exported a = concat (map (Record xp) (map snd done)) \<and>
     (\<forall>i. subseq (ofSource i done) (queued (s i))) \<and>
     subseq (consumed a @ evChan a) (map snd done)"
proof -
  have agent: "agent_inv xp accepts a" using agent.inv_reachable [OF assms(2,3)] .
  let ?done = "take (length (forwarded a)) (eventsOf tagged)"
  have "map snd (eventsOf tagged) = forwarded a @ inFlight a"
    using agent assms(4) by (simp add: agent_inv_def eventsOf_snd)
  then have sent: "map snd ?done = forwarded a" by (simp add: take_map [symmetric])
  have "subseq (ofSource i ?done) (queued (s i))" for i
  proof -
    have "ofSource i (eventsOf tagged) = listen (map Inr (take (n i) (datagrams (s i))))"
      using assms(5) listen_filter_noise [of "ofSource i tagged"] by (simp add: ofSource_eventsOf)
    moreover have "subseq (ofSource i ?done) (ofSource i (eventsOf tagged))"
      by (rule subseq_prefixI [of _ _ "ofSource i (drop (length (forwarded a)) (eventsOf tagged))"])
        (simp flip: ofSource_append)
    ultimately show ?thesis
      using assms(1) spy_delivers by (metis subseq_order.order_trans)
  qed
  moreover have "subseq (consumed a @ evChan a) (forwarded a)"
    using agent by (auto simp: agent_inv_def intro: subseq_rev_drop_many)
  ultimately show ?thesis using agent sent by (intro exI [of _ ?done]) (simp add: agent_inv_def)
qed

theorem spy_to_exporter_witness:
  "\<exists>a. (agent_step sampleExporter wellLabelled)\<^sup>*\<^sup>* idleAgent a \<and> length (exported a) = 2 \<and>
     (\<exists>done. exported a = concat (map (Record sampleExporter) (map snd done)) \<and>
        subseq (ofSource True done) [hookEvent initialInfo blankEvent 5 1] \<and> ofSource False done = [])"
proof -
  let ?ev = "hookEvent initialInfo blankEvent 5 1" and ?spies = "\<lambda>i. if i then deliveredSpy else idleSpy"
  let ?r = "Inr (spyBytes [0, 0, 0, 0] ?ev)"
  let ?a = "agentPassed sampleExporter ?r ?ev"
  have read: "listenOnce ?r = Some ?ev"
    by (rule listenOnce_spyBytes) (simp_all add: wf_hookEvent wf_blankEvent)
  then have noise: "\<not> isNoise ?r" using listenOnce_None_iff [of ?r] by simp
  have ok: "list_all wellLabelled (Record sampleExporter ?ev)"
    unfolding Record_accepted [OF prometheusClient_wellLabelled] by code_simp
  note run = agent_forwards_one [OF read ok]
  have spies: "\<forall>i. spy_init idleSpy \<and> (spy_step liveSockets (\<lambda>_. None) None)\<^sup>*\<^sup>* idleSpy (?spies i)"
    using idleSpy_init deliveredSpy_reached by simp
  have "datagrams idleSpy = []" "queued idleSpy = []" by (simp_all add: idleSpy_def)
  then have "\<exists>done. exported ?a = concat (map (Record sampleExporter) (map snd done)) \<and>
      (\<forall>i. subseq (ofSource i done) (queued (?spies i))) \<and> subseq (consumed ?a @ evChan ?a) (map snd done)"
    using noise by (intro spy_to_exporter [OF spies _ run, where tagged = "[(True, ?r)]" and n = "\<lambda>_. 1"])
      (auto simp: agent_init_def agentPassed_def idleAgent_def deliveredSpy_sel ofSource_def)
  then obtain sent where sent: "exported ?a = concat (map (Record sampleExporter) (map snd sent))"
      "\<And>i. subseq (ofSource i sent) (queued (?spies i))" by blast
  have "subseq (ofSource True sent) [?ev]" "ofSource False sent = []"
    using sent(2) [of True] sent(2) [of False] \<open>queued idleSpy = []\<close> by (simp_all add: deliveredSpy_sel)
  moreover have "length (exported ?a) = 2" by (simp add: agentPassed_def Record_def)
  ultimately show ?thesis using run sent(1) by blast
qed

end
